(* ===== verification/Prelude.thy ===== *)
theory Prelude
  imports Main "HOL-Library.Word"
begin

text \<open>
  The prelude of the development: the machine integers and results the Go code uses,
  and the generic lemmas on lists, options and integers that the components share.

  \<^item> Go's unsigned integers are words of their width (\<open>u16\<close>, \<open>u32\<close>, \<open>u64\<close>); its
    \<open>int64\<close> is an \<open>int\<close> whose arithmetic is closed by \<open>wrap64\<close>, the two's complement
    wrap-around, so that an overflow is a value of the model.
  \<^item> A Go string is a byte string (\<open>string\<close>, one \<open>char\<close> per byte).
  \<^item> A handler that returns \<open>(response, *AppError, error)\<close> returns an \<open>outcome\<close>.
\<close>

section \<open>Machine integers\<close>

type_synonym u8 = "8 word"
type_synonym u16 = "16 word"
type_synonym u32 = "32 word"
type_synonym u64 = "64 word"
type_synonym i64 = int
type_synonym byte = "8 word"
type_synonym micros = int

named_theorems i64_simps \<open>when \<open>int64\<close> arithmetic does not wrap around\<close>

definition wrap64 :: "int \<Rightarrow> i64" where
  "wrap64 x = (x + 2 ^ 63) mod 2 ^ 64 - 2 ^ 63"

definition in_i64 :: "int \<Rightarrow> bool" where
  "in_i64 x \<longleftrightarrow> - (2 ^ 63) \<le> x \<and> x < 2 ^ 63"

lemma wrap64_in_range [simp]: "in_i64 (wrap64 x)"
  by (simp add: in_i64_def wrap64_def)

lemma wrap64_id [i64_simps]: "in_i64 x \<Longrightarrow> wrap64 x = x"
  by (simp add: in_i64_def wrap64_def)

lemma wrap64_0 [simp]: "wrap64 0 = 0"
  by (simp add: wrap64_def)

lemma in_i64_0 [simp]: "in_i64 0"
  by (simp add: in_i64_def)

text \<open>Addition modulo the width: intermediate wrap-arounds do not matter.\<close>

lemma wrap64_add_left [simp]: "wrap64 (wrap64 x + y) = wrap64 (x + y)"
proof -
  have "((x + 2 ^ 63) mod 2 ^ 64 + y) mod 2 ^ 64 = (x + 2 ^ 63 + y) mod (2 ^ 64 :: int)"
    by (simp only: mod_add_left_eq)
  then show ?thesis by (simp add: wrap64_def algebra_simps)
qed

lemma wrap64_add_right [simp]: "wrap64 (x + wrap64 y) = wrap64 (x + y)"
  using wrap64_add_left [of y x] by (simp add: add.commute)

section \<open>Errors and outcomes\<close>

text \<open>
  The errors a database call or a conversion of the source can give. The code looks
  into them in three ways only: \<open>errors.Is(err, sql.ErrNoRows)\<close>, the MySQL error number 1062
  (a duplicate key), and \<open>errors.Is\<close> with an error value of its own (\<open>ErrorsNew\<close>); every other
  error is passed on.
\<close>

datatype go_error =
    ErrNoRows
  | MySQLError nat
  | DriverError string
  | ErrorsNew string
  | Errorf string

record AppError =
  HTTPStatus :: int
  Code :: string
  Message :: string

datatype 'a outcome = Ok 'a | App AppError | Err go_error

abbreviation mysql_dup_entry :: nat where "mysql_dup_entry \<equiv> 1062"
abbreviation mysql_no_parent :: nat where "mysql_no_parent \<equiv> 1452"
abbreviation mysql_too_long :: nat where "mysql_too_long \<equiv> 1406"
abbreviation mysql_out_of_range :: nat where "mysql_out_of_range \<equiv> 1264"
abbreviation mysql_autoinc_failed :: nat where "mysql_autoinc_failed \<equiv> 1467"

section \<open>Generic lemmas\<close>

lemma find_None_filter: "find P xs = None \<longleftrightarrow> filter P xs = []"
  by (auto simp: find_None_iff filter_empty_conv)

lemma find_SomeD: "find P xs = Some x \<Longrightarrow> x \<in> set xs \<and> P x"
  by (induction xs) (auto split: if_splits)

lemma find_append: "find P (xs @ ys) = (case find P xs of None \<Rightarrow> find P ys | Some x \<Rightarrow> Some x)"
  by (induction xs) auto

lemma filter_eq_distinct: "distinct xs \<Longrightarrow> x \<in> set xs \<Longrightarrow> filter (\<lambda>y. y = x) xs = [x]"
  by (induction xs) (auto simp: filter_empty_conv)

text \<open>A key column that is distinct over a table makes a point query return its one row.\<close>

lemma filter_unique:
  assumes dist: "distinct (map k xs)" and x: "x \<in> set xs" "P x"
    and key: "\<And>y. y \<in> set xs \<Longrightarrow> P y \<Longrightarrow> k y = k x"
  shows "filter P xs = [x]"
proof -
  have "P y \<longleftrightarrow> y = x" if "y \<in> set xs" for y
    using that dist x key [OF that] by (auto simp: distinct_map inj_on_def)
  then have "filter P xs = filter (\<lambda>y. y = x) xs" by (rule filter_cong [OF refl])
  then show ?thesis using dist x(1) by (simp add: filter_eq_distinct distinct_map)
qed

lemma find_filter: "find P xs = (case filter P xs of [] \<Rightarrow> None | x # _ \<Rightarrow> Some x)"
  by (induction xs) auto

lemma find_unique:
  assumes "distinct (map k xs)" and "x \<in> set xs" and "P x"
    and "\<And>y. y \<in> set xs \<Longrightarrow> P y \<Longrightarrow> k y = k x"
  shows "find P xs = Some x"
  using filter_unique [where k = k and P = P, OF assms] by (simp add: find_filter)

lemma list_all2_left: "list_all2 P xs ys \<Longrightarrow> x \<in> set xs \<Longrightarrow> \<exists>y \<in> set ys. P x y"
  by (induction rule: list_all2_induct) auto

lemma list_all2_right: "list_all2 P xs ys \<Longrightarrow> y \<in> set ys \<Longrightarrow> \<exists>x \<in> set xs. P x y"
  by (induction rule: list_all2_induct) auto

lemma sum_list_filter_le:
  fixes f :: "'a \<Rightarrow> int"
  assumes "\<And>x. x \<in> set xs \<Longrightarrow> 0 \<le> f x"
  shows "sum_list (map f (filter P xs)) \<le> sum_list (map f xs)"
  using assms by (induction xs) (auto simp: add_increasing)

lemma sum_list_map_nonneg:
  fixes f :: "'a \<Rightarrow> int"
  assumes "\<And>x. x \<in> set xs \<Longrightarrow> 0 \<le> f x"
  shows "0 \<le> sum_list (map f xs)"
  using assms by (induction xs) auto

lemma sum_list_map_cong:
  assumes "\<And>x. x \<in> set xs \<Longrightarrow> f x = g x"
  shows "sum_list (map f xs) = sum_list (map g xs)"
  using assms by (induction xs) auto

lemma sum_list_concat_map:
  fixes f :: "'b \<Rightarrow> int"
  shows "sum_list (map f (concat (map g xs))) = sum_list (map (\<lambda>x. sum_list (map f (g x))) xs)"
  by (induction xs) auto

end
