(* ===== verification/GoStrings.thy ===== *)
theory GoStrings
  imports Prelude
begin

text \<open>
  What the source uses of Go's \<open>strconv\<close>, \<open>strings\<close>, \<open>unicode/utf8\<close> and \<open>fmt\<close>: decimal
  numbers and their parser, the runes of a byte string, blank strings, case folding.
  Strings are byte strings, as in Go; a rune is its code point, and an invalid byte
  decodes to U+FFFD with size one, as \<open>utf8.DecodeRune\<close> documents.
\<close>

section \<open>Decimal numbers\<close>

definition digit :: "nat \<Rightarrow> char" where
  "digit n = ''0123456789'' ! n"

definition digit_value :: "char \<Rightarrow> nat" where
  "digit_value c = of_char c - 48"

definition is_digit :: "char \<Rightarrow> bool" where
  "is_digit c \<longleftrightarrow> 48 \<le> (of_char c :: nat) \<and> (of_char c :: nat) \<le> 57"

fun dec :: "nat \<Rightarrow> string" where
  "dec n = (if n < 10 then [digit n] else dec (n div 10) @ [digit (n mod 10)])"

declare dec.simps [simp del]

definition undec :: "string \<Rightarrow> nat" where
  "undec s = foldl (\<lambda>a c. 10 * a + digit_value c) 0 s"

definition FormatUint :: "u64 \<Rightarrow> string" where
  "FormatUint v = dec (unat v)"

definition FormatInt :: "i64 \<Rightarrow> string" where
  "FormatInt v = (if v < 0 then CHR ''-'' # dec (nat (- v)) else dec (nat v))"

text \<open>\<open>strconv.ParseUint(s, 10, 64)\<close>: \<open>None\<close> is its error.\<close>

definition ParseUint :: "string \<Rightarrow> u64 option" where
  "ParseUint s =
     (if s = [] \<or> \<not> list_all is_digit s then None
      else if undec s < 2 ^ 64 then Some (of_nat (undec s)) else None)"

lemma digit_cases: "n < 10 \<Longrightarrow> n \<in> {0, 1, 2, 3, 4, 5, 6, 7, 8, 9 :: nat}"
  by auto

lemma digit_value_digit [simp]: "n < 10 \<Longrightarrow> digit_value (digit n) = n"
  by (drule digit_cases) (auto simp: digit_def digit_value_def)

lemma is_digit_digit [simp]: "n < 10 \<Longrightarrow> is_digit (digit n)"
  by (drule digit_cases) (auto simp: digit_def is_digit_def)

lemma dec_nonempty [simp]: "dec n \<noteq> []"
  by (subst dec.simps) simp

lemma dec_digits: "list_all is_digit (dec n)"
proof (induction n rule: dec.induct)
  case (1 n)
  then show ?case by (subst dec.simps) auto
qed

lemma undec_dec [simp]: "undec (dec n) = n"
proof (induction n rule: dec.induct)
  case (1 n)
  show ?case
  proof (cases "n < 10")
    case True
    then show ?thesis by (subst dec.simps) (simp add: undec_def)
  next
    case False
    then have "undec (dec (n div 10)) = n div 10" by (rule 1)
    with False show ?thesis by (subst dec.simps) (simp add: undec_def)
  qed
qed

lemma dec_inject [simp]: "dec m = dec n \<longleftrightarrow> m = n"
  by (metis undec_dec)

lemma FormatUint_inject [simp]: "FormatUint a = FormatUint b \<longleftrightarrow> a = b"
  by (simp add: FormatUint_def word_unat_eq_iff)

text \<open>The parser undoes the printer, over the whole of \<open>uint64\<close>.\<close>

lemma ParseUint_FormatUint [simp]: "ParseUint (FormatUint v) = Some v"
proof -
  have "unat v < 2 ^ 64" using unsigned_less [of v] by simp
  then show ?thesis by (simp add: ParseUint_def FormatUint_def dec_digits)
qed

lemma length_dec: "n < 10 ^ Suc k \<Longrightarrow> length (dec n) \<le> Suc k"
proof (induction k arbitrary: n)
  case 0
  then show ?case by (subst dec.simps) simp
next
  case (Suc k)
  have "n div 10 < 10 ^ Suc k" using Suc.prems by (simp add: less_mult_imp_div_less)
  with Suc.IH [of "n div 10"] show ?case by (subst dec.simps) simp
qed

lemma length_FormatUint: "length (FormatUint v) \<le> 20"
proof -
  have "unat v < 2 ^ 64" using unsigned_less [of v] by simp
  then have "unat v < 10 ^ Suc 19" by simp
  then show ?thesis unfolding FormatUint_def by (rule length_dec [THEN order_trans]) simp
qed

section \<open>Runes\<close>

definition codes :: "string \<Rightarrow> nat list" where
  "codes s = map of_char s"

definition utf8_cont :: "nat \<Rightarrow> bool" where
  "utf8_cont b \<longleftrightarrow> 0x80 \<le> b \<and> b \<le> 0xBF"

text \<open>The range of the second byte, as the table \<open>acceptRanges\<close> of \<open>unicode/utf8\<close> has it.\<close>

definition utf8_second :: "nat \<Rightarrow> nat \<Rightarrow> bool" where
  "utf8_second b0 b1 \<longleftrightarrow>
     (if b0 = 0xE0 then 0xA0 else if b0 = 0xF0 then 0x90 else 0x80) \<le> b1 \<and>
     b1 \<le> (if b0 = 0xED then 0x9F else if b0 = 0xF4 then 0x8F else 0xBF)"

definition rune_error :: "nat \<times> nat" where
  "rune_error = (0xFFFD, 1)"

fun decode_rune :: "nat list \<Rightarrow> nat \<times> nat" where
  "decode_rune [] = (0xFFFD, 0)"
| "decode_rune (b0 # bs) =
     (if b0 < 0x80 then (b0, 1)
      else if b0 < 0xC2 \<or> 0xF4 < b0 then rune_error
      else case bs of
        [] \<Rightarrow> rune_error
      | b1 # bs1 \<Rightarrow>
          if \<not> utf8_second b0 b1 then rune_error
          else if b0 < 0xE0 then ((b0 - 0xC0) * 64 + (b1 - 0x80), 2)
          else (case bs1 of
            [] \<Rightarrow> rune_error
          | b2 # bs2 \<Rightarrow>
              if \<not> utf8_cont b2 then rune_error
              else if b0 < 0xF0 then ((b0 - 0xE0) * 4096 + (b1 - 0x80) * 64 + (b2 - 0x80), 3)
              else (case bs2 of
                [] \<Rightarrow> rune_error
              | b3 # _ \<Rightarrow>
                  if \<not> utf8_cont b3 then rune_error
                  else ((b0 - 0xF0) * 262144 + (b1 - 0x80) * 4096 + (b2 - 0x80) * 64
                          + (b3 - 0x80), 4))))"

fun runes_of :: "nat list \<Rightarrow> nat list" where
  "runes_of [] = []"
| "runes_of (b # bs) =
     (case decode_rune (b # bs) of (r, n) \<Rightarrow> r # runes_of (drop (n - 1) bs))"

definition runes :: "string \<Rightarrow> nat list" where
  "runes s = runes_of (codes s)"

lemma runes_of_ascii: "list_all (\<lambda>b. b < 128) bs \<Longrightarrow> runes_of bs = bs"
  by (induction bs) auto

lemma length_runes_of: "length (runes_of bs) \<le> length bs"
proof (induction bs rule: runes_of.induct)
  case (2 b bs)
  obtain r n where "decode_rune (b # bs) = (r, n)" by force
  with 2 show ?case by (auto intro: order_trans)
qed simp

lemma length_runes: "length (runes s) \<le> length s"
  using length_runes_of [of "codes s"] by (simp add: runes_def codes_def)

section \<open>Functions of the package strings\<close>

text \<open>\<open>unicode.IsSpace\<close>.\<close>

definition unicode_space :: "nat \<Rightarrow> bool" where
  "unicode_space r \<longleftrightarrow>
     (9 \<le> r \<and> r \<le> 13) \<or> r = 32 \<or> r = 0x85 \<or> r = 0xA0 \<or> r = 0x1680 \<or>
     (0x2000 \<le> r \<and> r \<le> 0x200A) \<or> r = 0x2028 \<or> r = 0x2029 \<or> r = 0x202F \<or>
     r = 0x205F \<or> r = 0x3000"

text \<open>\<open>strings.TrimSpace(s) == ""\<close>, the only use the source makes of \<open>TrimSpace\<close>.\<close>

definition blank :: "string \<Rightarrow> bool" where
  "blank s \<longleftrightarrow> list_all unicode_space (runes s)"

lemma blank_Nil [simp]: "blank []"
  by (simp add: blank_def runes_def codes_def)

text \<open>
  \<open>strings.EqualFold\<close>: equal rune by rune under simple case folding. The folding table is
  data of Go's \<open>unicode\<close> package and a parameter here: \<open>sf r\<close> is one representative of
  the runes that fold to each other.
\<close>

definition EqualFold :: "(nat \<Rightarrow> nat) \<Rightarrow> string \<Rightarrow> string \<Rightarrow> bool" where
  "EqualFold sf a b \<longleftrightarrow> map sf (runes a) = map sf (runes b)"

lemma EqualFold_refl [simp]: "EqualFold sf a a"
  by (simp add: EqualFold_def)

lemma EqualFold_sym: "EqualFold sf a b \<longleftrightarrow> EqualFold sf b a"
  by (auto simp: EqualFold_def)

text \<open>The folding of the runes that the ASCII letters fold with.\<close>

definition ascii_fold :: "nat \<Rightarrow> nat" where
  "ascii_fold r =
     (if 65 \<le> r \<and> r \<le> 90 then r + 32
      else if r = 0x212A then 107 else if r = 0x17F then 115 else r)"

text \<open>\<open>strings.ToLower\<close> and \<open>strings.ReplaceAll\<close> on the ASCII constants the source applies them to.\<close>

definition ToLower :: "string \<Rightarrow> string" where
  "ToLower s =
     map (\<lambda>c. if 65 \<le> (of_char c :: nat) \<and> (of_char c :: nat) \<le> 90
              then char_of ((of_char c :: nat) + 32) else c) s"

definition ReplaceAll_char :: "string \<Rightarrow> char \<Rightarrow> char \<Rightarrow> string" where
  "ReplaceAll_char s old new = map (\<lambda>c. if c = old then new else c) s"

end
