(* ===== verification/Digest.thy ===== *)
theory Digest
  imports GoStrings
begin

unbundle bit_operations_syntax

text \<open>
  The serialisation and the digest that idempotency rests on
  (\<open>BodyHashHex\<close> in \<open>internal/service/service.go\<close>): \<open>encoding/json\<close> as \<open>json.Marshal\<close>
  writes it and \<open>crypto/sha256\<close>, both in full, so that the body hash of a request is a
  computed value and not a parameter.
\<close>

section \<open>JSON values and their text\<close>

datatype json =
    JNull
  | JBool bool
  | JNum int
  | JStr string
  | JArr "json list"
  | JObj "(string \<times> json) list"

definition hex_digit :: "nat \<Rightarrow> char" where
  "hex_digit n = ''0123456789abcdef'' ! n"

text \<open>One ASCII byte inside a JSON string, with the HTML escapes \<open>json.Marshal\<close> turns on.\<close>

definition quote_ascii :: "nat \<Rightarrow> string" where
  "quote_ascii b =
     (if b = 34 \<or> b = 92 then [CHR 0x5C, char_of b]
      else if b = 8 then [CHR 0x5C, CHR ''b'']
      else if b = 12 then [CHR 0x5C, CHR ''f'']
      else if b = 10 then [CHR 0x5C, CHR ''n'']
      else if b = 13 then [CHR 0x5C, CHR ''r'']
      else if b = 9 then [CHR 0x5C, CHR ''t'']
      else if b < 32 \<or> b = 60 \<or> b = 62 \<or> b = 38
        then [CHR 0x5C, CHR ''u'', CHR ''0'', CHR ''0'', hex_digit (b div 16), hex_digit (b mod 16)]
      else [char_of b])"

text \<open>The loop of \<open>appendString\<close>: invalid bytes become \<open>\ufffd\<close>, U+2028 and U+2029 are escaped.\<close>

fun quote_bytes :: "nat list \<Rightarrow> string" where
  "quote_bytes [] = []"
| "quote_bytes (b # bs) =
     (if b < 0x80 then quote_ascii b @ quote_bytes bs
      else case decode_rune (b # bs) of (r, n) \<Rightarrow>
        (if r = 0xFFFD \<and> n = 1 then CHR 0x5C # ''ufffd''
         else if r = 0x2028 \<or> r = 0x2029 then CHR 0x5C # ''u202'' @ [hex_digit (r mod 16)]
         else map char_of (take n (b # bs)))
        @ quote_bytes (drop (n - 1) bs))"

definition quote :: "string \<Rightarrow> string" where
  "quote s = CHR 0x22 # quote_bytes (codes s) @ [CHR 0x22]"

fun sep_by :: "string \<Rightarrow> string list \<Rightarrow> string" where
  "sep_by sep [] = []"
| "sep_by sep [x] = x"
| "sep_by sep (x # xs) = x @ sep @ sep_by sep xs"

fun json_text :: "json \<Rightarrow> string" where
  "json_text JNull = ''null''"
| "json_text (JBool b) = (if b then ''true'' else ''false'')"
| "json_text (JNum n) = FormatInt n"
| "json_text (JStr s) = quote s"
| "json_text (JArr xs) = CHR ''['' # sep_by '','' (map json_text xs) @ '']''"
| "json_text (JObj kvs) =
     CHR ''{'' # sep_by '','' (map (\<lambda>(k, v). quote k @ '':'' @ json_text v) kvs) @ ''}''"

section \<open>SHA-256\<close>

definition rotr32 :: "nat \<Rightarrow> u32 \<Rightarrow> u32" where
  "rotr32 n x = (drop_bit n x OR push_bit (32 - n) x)"

definition small_sigma0 :: "u32 \<Rightarrow> u32" where
  "small_sigma0 x = (rotr32 7 x XOR rotr32 18 x XOR drop_bit 3 x)"

definition small_sigma1 :: "u32 \<Rightarrow> u32" where
  "small_sigma1 x = (rotr32 17 x XOR rotr32 19 x XOR drop_bit 10 x)"

definition big_sigma0 :: "u32 \<Rightarrow> u32" where
  "big_sigma0 x = (rotr32 2 x XOR rotr32 13 x XOR rotr32 22 x)"

definition big_sigma1 :: "u32 \<Rightarrow> u32" where
  "big_sigma1 x = (rotr32 6 x XOR rotr32 11 x XOR rotr32 25 x)"

text \<open>The constants of the standard, in decimal.\<close>

definition sha256_k :: "u32 list" where
  "sha256_k =
    [1116352408, 1899447441, 3049323471, 3921009573, 961987163, 1508970993, 2453635748, 2870763221,
     3624381080, 310598401, 607225278, 1426881987, 1925078388, 2162078206, 2614888103, 3248222580,
     3835390401, 4022224774, 264347078, 604807628, 770255983, 1249150122, 1555081692, 1996064986,
     2554220882, 2821834349, 2952996808, 3210313671, 3336571891, 3584528711, 113926993, 338241895,
     666307205, 773529912, 1294757372, 1396182291, 1695183700, 1986661051, 2177026350, 2456956037,
     2730485921, 2820302411, 3259730800, 3345764771, 3516065817, 3600352804, 4094571909, 275423344,
     430227734, 506948616, 659060556, 883997877, 958139571, 1322822218, 1537002063, 1747873779,
     1955562222, 2024104815, 2227730452, 2361852424, 2428436474, 2756734187, 3204031479, 3329325298]"

definition sha256_init :: "u32 list" where
  "sha256_init =
    [1779033703, 3144134277, 1013904242, 2773480762, 1359893119, 2600822924, 528734635, 1541459225]"

text \<open>One round; the state is the list of the eight working variables.\<close>

fun sha256_round :: "u32 \<Rightarrow> u32 \<Rightarrow> u32 list \<Rightarrow> u32 list" where
  "sha256_round k w [a, b, c, d, e, f, g, h] =
     (let t1 = h + big_sigma1 e + ((e AND f) XOR (NOT e AND g)) + k + w;
          t2 = big_sigma0 a + ((a AND b) XOR (a AND c) XOR (b AND c))
      in [t1 + t2, a, b, c, d + t1, e, f, g])"
| "sha256_round k w s = s"

text \<open>The rounds with the message schedule as a window of its next sixteen words.\<close>

fun sha256_rounds :: "u32 list \<Rightarrow> u32 list \<Rightarrow> u32 list \<Rightarrow> u32 list" where
  "sha256_rounds [] ws s = s"
| "sha256_rounds (k # ks) ws s =
     sha256_rounds ks
       (tl ws @ [small_sigma1 (ws ! 14) + ws ! 9 + small_sigma0 (ws ! 1) + ws ! 0])
       (sha256_round k (ws ! 0) s)"

fun be_word :: "byte list \<Rightarrow> u32" where
  "be_word [a, b, c, d] =
     (push_bit 24 (ucast a) OR push_bit 16 (ucast b) OR push_bit 8 (ucast c) OR ucast d)"
| "be_word _ = 0"

definition be_bytes :: "u32 \<Rightarrow> byte list" where
  "be_bytes w = [ucast (drop_bit 24 w), ucast (drop_bit 16 w), ucast (drop_bit 8 w), ucast w]"

fun chunks :: "nat \<Rightarrow> nat \<Rightarrow> 'a list \<Rightarrow> 'a list list" where
  "chunks 0 n xs = []"
| "chunks (Suc k) n xs = take n xs # chunks k n (drop n xs)"

definition sha256_block :: "u32 list \<Rightarrow> byte list \<Rightarrow> u32 list" where
  "sha256_block hs blk =
     map2 (+) hs (sha256_rounds sha256_k (map be_word (chunks 16 4 blk)) hs)"

definition sha256_pad :: "byte list \<Rightarrow> byte list" where
  "sha256_pad m =
     (let n = length m
      in m @ 0x80 # replicate ((119 - n mod 64) mod 64) 0
           @ map (\<lambda>i. of_nat (8 * n div 256 ^ i)) [7, 6, 5, 4, 3, 2, 1, 0])"

definition sha256 :: "byte list \<Rightarrow> byte list" where
  "sha256 m =
     (let p = sha256_pad m
      in concat (map be_bytes
           (fold (\<lambda>blk hs. sha256_block hs blk) (chunks (length p div 64) 64 p) sha256_init)))"

definition hex_of_bytes :: "byte list \<Rightarrow> string" where
  "hex_of_bytes bs = concat (map (\<lambda>b. [hex_digit (unat b div 16), hex_digit (unat b mod 16)]) bs)"

definition bytes_of :: "string \<Rightarrow> byte list" where
  "bytes_of s = map (\<lambda>c. of_nat (of_char c)) s"

text \<open>
  \<open>BodyHashHex\<close>: the hash of the serialised payload, in hexadecimal and as bytes.
  \<open>json.Marshal\<close> cannot fail on the structs the callers pass (strings, integers and
  optional integers), so its error branch is not taken.
\<close>

definition BodyHashHex :: "json \<Rightarrow> go_error + string \<times> byte list" where
  "BodyHashHex v =
     (let h = sha256 (bytes_of (json_text v)) in Inr (hex_of_bytes h, h))"

subsection \<open>The digest has 32 bytes\<close>

lemma length_sha256_round [simp]: "length (sha256_round k w s) = length s"
  by (induction k w s rule: sha256_round.induct) (auto simp: Let_def)

lemma length_sha256_rounds [simp]: "length (sha256_rounds ks ws s) = length s"
  by (induction ks ws s rule: sha256_rounds.induct) auto

lemma length_sha256_block [simp]: "length (sha256_block hs blk) = length hs"
  by (simp add: sha256_block_def)

lemma length_sha256_fold [simp]:
  "length (fold (\<lambda>blk hs. sha256_block hs blk) bs hs) = length hs"
  by (induction bs arbitrary: hs) auto

lemma length_sha256 [simp]: "length (sha256 m) = 32"
proof -
  have "length (concat (map be_bytes ws)) = 4 * length ws" for ws
    by (induction ws) (auto simp: be_bytes_def)
  then show ?thesis by (simp add: sha256_def Let_def sha256_init_def)
qed

lemma length_hex_of_bytes [simp]: "length (hex_of_bytes bs) = 2 * length bs"
  by (induction bs) (auto simp: hex_of_bytes_def)

text \<open>The padded message is a whole number of blocks, so no byte of it is dropped.\<close>

lemma pad_arith: "(n + (9 + (119 - n mod 64) mod 64)) mod 64 = (0 :: nat)"
proof -
  have le: "n mod 64 \<le> 119" using mod_less_divisor [of 64 n] by simp
  have "(n + (9 + (119 - n mod 64) mod 64)) mod 64 = (n mod 64 + (9 + (119 - n mod 64))) mod 64"
    by (metis mod_add_left_eq mod_add_right_eq)
  also have "\<dots> = 128 mod 64" using le by simp
  finally show ?thesis by simp
qed

lemma sha256_pad_blocks: "length (sha256_pad m) mod 64 = 0"
  using pad_arith [of "length m"] by (simp add: sha256_pad_def Let_def algebra_simps)

lemma concat_chunks: "length xs \<le> k * n \<Longrightarrow> concat (chunks k n xs) = xs"
  by (induction k n xs rule: chunks.induct) auto

lemma sha256_pad_covered:
  "concat (chunks (length (sha256_pad m) div 64) 64 (sha256_pad m)) = sha256_pad m"
  using sha256_pad_blocks [of m] by (intro concat_chunks) (simp add: mod_0_imp_dvd)

end
