(* ===== verification/Store.thy ===== *)
theory Store
  imports Digest
begin

text \<open>
  The rows of the relational store: the structs and enumerations that sqlc generates from
  the schema (\<open>internal/store/sqlcgen/models.go\<close>), one record per table. A column that
  may be NULL is an \<open>option\<close>; a time is its microseconds; a JSON column holds the JSON
  value. Field names carry the table's initials, because record fields share one name space.
\<close>

section \<open>Enumerations\<close>

datatype CampaignPointLedgerReason = CAMPAIGN_GIFT

datatype FanPointLedgerReason = GIFT | COMMENT | WATCH_MINUTE

datatype GiftOrdersStatus = ACCEPTED | REJECTED

datatype LiveMatchesMode = ALL_GIFTS | SPECIFIC_GIFT

datatype LiveMatchesStatus = MATCH_OPEN | MATCH_CLOSED

datatype LiveSessionsStatus = SESSION_OPEN | SESSION_CLOSED

datatype ReconciliationResultsStatus = PASS | FAIL

datatype UsersAccountStanding = GOOD | RESTRICTED | BANNED

datatype UsersAccountType = NORMAL | GOVERNMENT | POLITICIAN | POLITICAL_PARTY | PUBLIC_INTEREST

datatype WalletAccountsCurrency = COIN

datatype WalletTransactionsTxType = RECHARGE | GIFT_DEBIT

section \<open>Rows\<close>

record CampaignPointLedger =
  cp_EventID :: u64
  cp_CampaignID :: u64
  cp_CreatorID :: u64
  cp_Points :: int
  cp_Reason :: CampaignPointLedgerReason
  cp_CreatedAt :: micros

record ConsumerDedupe =
  cd_ConsumerName :: string
  cd_EventID :: u64
  cd_AppliedAt :: micros

record FanPointLedger =
  fp_EventID :: u64
  fp_ViewerID :: u64
  fp_CreatorID :: u64
  fp_LiveSessionID :: u64
  fp_Points :: int
  fp_Reason :: FanPointLedgerReason
  fp_CreatedAt :: micros

record GiftCatalog =
  gc_GiftID :: string
  gc_DisplayName :: string
  gc_CoinPrice :: u32
  gc_MatchPoints :: u32
  gc_DiamondReward :: u32
  gc_Enabled :: bool
  gc_CreatedAt :: micros

record GiftOrder =
  go_GiftOrderID :: u64
  go_ViewerID :: u64
  go_CreatorID :: u64
  go_LiveSessionID :: u64
  go_MatchID :: "u64 option"
  go_GiftID :: string
  go_Quantity :: u16
  go_ChargedCoins :: u32
  go_MatchPointsAdded :: u32
  go_DiamondReward :: u32
  go_PostBalance :: "i64 option"
  go_Status :: GiftOrdersStatus
  go_RejectCode :: "string option"
  go_RequestID :: string
  go_BodyHash :: "byte list"
  go_CreatedAt :: micros

record LiveMatch =
  lm_MatchID :: u64
  lm_LiveSessionID :: u64
  lm_Mode :: LiveMatchesMode
  lm_SpecificGiftID :: "string option"
  lm_Status :: LiveMatchesStatus

record LiveSession =
  ls_LiveSessionID :: u64
  ls_CreatorID :: u64
  ls_CampaignID :: "u64 option"
  ls_Status :: LiveSessionsStatus
  ls_StartedAt :: micros
  ls_ClosedAt :: "micros option"

record OutboxEvent =
  oe_EventID :: u64
  oe_Topic :: string
  oe_EventKey :: string
  oe_PayloadJson :: json
  oe_PublishedAt :: "micros option"
  oe_CreatedAt :: micros

record RechargeRow =
  rr_ViewerID :: u64
  rr_RequestID :: string
  rr_BodyHash :: "byte list"
  rr_Coins :: u32
  rr_PaymentRef :: string
  rr_ResultingBalance :: i64
  rr_TxID :: u64
  rr_CreatedAt :: micros

record ReconciliationResult =
  rc_LiveSessionID :: u64
  rc_Status :: ReconciliationResultsStatus
  rc_WalletGiftDebitTotal :: i64
  rc_GiftOrderCoinTotal :: i64
  rc_MismatchCount :: int
  rc_DetailsJson :: json
  rc_GeneratedAt :: micros

record StreamSettlement =
  ss_LiveSessionID :: u64
  ss_GrossCoinSpend :: i64
  ss_AcceptedGiftCount :: i64
  ss_DiamondRewardTotal :: i64
  ss_GeneratedAt :: micros

record User =
  us_UserID :: u64
  us_AgeYears :: u8
  us_RegionCode :: string
  us_AccountStanding :: UsersAccountStanding
  us_CanGoLive :: bool
  us_LiveGiftsEnabled :: bool
  us_AccountType :: UsersAccountType
  us_CreatedAt :: micros

record WalletAccount =
  wa_UserID :: u64
  wa_Currency :: WalletAccountsCurrency
  wa_AvailableBalance :: i64
  wa_UpdatedAt :: micros

record WalletEntry =
  we_TxID :: u64
  we_AccountCode :: string
  we_Amount :: i64

record WalletTransaction =
  wt_TxID :: u64
  wt_TxType :: WalletTransactionsTxType
  wt_ActorUserID :: u64
  wt_RequestID :: string
  wt_BodyHash :: "byte list option"
  wt_CreatedAt :: micros

section \<open>The database\<close>

text \<open>
  One list of rows per table of \<open>migrations/00001\<close>, and the three AUTO_INCREMENT counters
  (the next value each will hand out).
\<close>

record db =
  users :: "User list"
  live_sessions :: "LiveSession list"
  live_matches :: "LiveMatch list"
  gift_catalog :: "GiftCatalog list"
  wallet_accounts :: "WalletAccount list"
  wallet_transactions :: "WalletTransaction list"
  wallet_entries :: "WalletEntry list"
  recharge_requests :: "RechargeRow list"
  gift_orders :: "GiftOrder list"
  outbox_events :: "OutboxEvent list"
  consumer_dedupe :: "ConsumerDedupe list"
  fan_point_ledger :: "FanPointLedger list"
  campaign_point_ledger :: "CampaignPointLedger list"
  stream_settlements :: "StreamSettlement list"
  reconciliation_results :: "ReconciliationResult list"
  next_tx_id :: nat
  next_gift_order_id :: nat
  next_event_id :: nat

text \<open>
  AUTO_INCREMENT counters are not rolled back with a transaction: a request left the data
  \<open>untouched\<close> when every table is as it was and the counters have at most moved on.
\<close>

definition untouched :: "db \<Rightarrow> db \<Rightarrow> bool" where
  "untouched d d' \<longleftrightarrow>
     d' = d\<lparr>next_tx_id := next_tx_id d', next_gift_order_id := next_gift_order_id d',
            next_event_id := next_event_id d'\<rparr> \<and>
     next_tx_id d \<le> next_tx_id d' \<and> next_gift_order_id d \<le> next_gift_order_id d' \<and>
     next_event_id d \<le> next_event_id d'"

lemma untouched_refl [simp, intro]: "untouched d d"
  by (simp add: untouched_def)

lemma untouched_iff:
  "untouched d d' \<longleftrightarrow>
     users d' = users d \<and> live_sessions d' = live_sessions d \<and> live_matches d' = live_matches d \<and>
     gift_catalog d' = gift_catalog d \<and> wallet_accounts d' = wallet_accounts d \<and>
     wallet_transactions d' = wallet_transactions d \<and> wallet_entries d' = wallet_entries d \<and>
     recharge_requests d' = recharge_requests d \<and> gift_orders d' = gift_orders d \<and>
     outbox_events d' = outbox_events d \<and> consumer_dedupe d' = consumer_dedupe d \<and>
     fan_point_ledger d' = fan_point_ledger d \<and>
     campaign_point_ledger d' = campaign_point_ledger d \<and>
     stream_settlements d' = stream_settlements d \<and>
     reconciliation_results d' = reconciliation_results d \<and>
     next_tx_id d \<le> next_tx_id d' \<and> next_gift_order_id d \<le> next_gift_order_id d' \<and>
     next_event_id d \<le> next_event_id d'"
  by (cases d; cases d') (auto simp: untouched_def)

lemma untouched_trans [trans]:
  "untouched a b \<Longrightarrow> untouched b c \<Longrightarrow> untouched a c"
  by (auto simp: untouched_iff)

lemma untouched_bump [simp]:
  assumes "untouched d d'" and "\<And>n. n \<le> f n"
  shows "untouched d (next_tx_id_update f d')"
    and "untouched d (next_gift_order_id_update f d')"
    and "untouched d (next_event_id_update f d')"
  using assms by (simp_all add: untouched_iff order_trans [OF _ assms(2)])

lemma bump_untouched [simp]:
  "untouched (next_tx_id_update Suc d) d' \<longleftrightarrow> untouched d d' \<and> next_tx_id d < next_tx_id d'"
  "untouched (next_gift_order_id_update Suc d) d' \<longleftrightarrow>
     untouched d d' \<and> next_gift_order_id d < next_gift_order_id d'"
  "untouched (next_event_id_update Suc d) d' \<longleftrightarrow> untouched d d' \<and> next_event_id d < next_event_id d'"
  by (auto simp: untouched_iff)

end
