(* ===== verification/Sql.thy ===== *)
theory Sql
  imports Store
begin

text \<open>
  Transactions and SQL statements. \<open>database/sql\<close> and the server are seen by the service
  code as a sequence of calls; the model of one request is a connection:

  \<^item> \<open>cdb\<close> is the committed database, \<open>own\<close> the writes of the open transaction as a
    function on databases, so that \<open>own c (cdb c)\<close> is what a statement of the transaction
    sees under READ COMMITTED, and \<open>calls\<close> counts the calls made;
  \<^item> the environment decides what the code cannot: which call fails for a reason of
    the network or of the server's locks, and whether its effect took place although the
    reply was lost (\<open>fault_at\<close>), what other transactions commit
    just before the n-th call (\<open>others\<close>), the clock (\<open>now\<close>), the collation of the string
    columns (\<open>collate s = collate t\<close> when the server takes \<open>s\<close> and \<open>t\<close> for equal), the case
    folding table of Go's \<open>unicode\<close> package, the text of an error, the text that the server
    makes of a JSON value, what a DATETIME(6) column keeps of a Go time (\<open>column_time\<close>; \<open>None\<close> when
    it is refused), and which member of an ENUM column a text stands for (\<open>enum_member\<close>, the
    position in the list of its texts; \<open>None\<close> when it stands for none); the last two are for the
    parameters of the generated \<open>Queries\<close>.

  Each statement is a function from the database it sees to its result and its write, with
  the constraints of \<open>migrations/00001\<close> (keys, foreign keys, column ranges in strict mode).
\<close>

section \<open>The environment and the connection\<close>

datatype cause = Transport string | Deadlock | LockWaitTimeout

definition cause_error :: "cause \<Rightarrow> go_error" where
  "cause_error x =
     (case x of Transport s \<Rightarrow> DriverError s | Deadlock \<Rightarrow> MySQLError 1213
      | LockWaitTimeout \<Rightarrow> MySQLError 1205)"

datatype fault = Fails cause | Unacked cause

text \<open>A \<open>time.Time\<close> as its instant, in nanoseconds.\<close>

type_synonym go_time = int

record env =
  fault_at :: "nat \<Rightarrow> fault option"
  others :: "nat \<Rightarrow> db \<Rightarrow> db"
  now :: "nat \<Rightarrow> micros"
  collate :: "string \<Rightarrow> string"
  simple_fold :: "nat \<Rightarrow> nat"
  error_text :: "go_error \<Rightarrow> string"
  cast_char :: "json \<Rightarrow> string"
  column_time :: "go_time \<Rightarrow> micros option"
  enum_member :: "string list \<Rightarrow> string \<Rightarrow> nat option"

record conn =
  cdb :: db
  own :: "db \<Rightarrow> db"
  calls :: nat

type_synonym 'r prog = "conn \<Rightarrow> 'r \<times> conn"
type_synonym 'a stm = "(go_error + 'a) prog"
type_synonym 'a sql = "db \<Rightarrow> (go_error + 'a) \<times> (db \<Rightarrow> db)"

definition connect :: "db \<Rightarrow> conn" where
  "connect d = \<lparr>cdb = d, own = id, calls = 0\<rparr>"

definition view :: "conn \<Rightarrow> db" where
  "view c = own c (cdb c)"

text \<open>The clock and the other transactions move on before a call.\<close>

definition arrive :: "env \<Rightarrow> conn \<Rightarrow> conn" where
  "arrive e c = c\<lparr>cdb := others e (calls c) (cdb c), calls := Suc (calls c)\<rparr>"

text \<open>
  One statement. With \<open>alloc\<close> it takes a value of an AUTO_INCREMENT counter, which stays
  taken whatever becomes of the transaction.
\<close>

definition exec_alloc ::
  "env \<Rightarrow> (db \<Rightarrow> nat) \<Rightarrow> (db \<Rightarrow> db) \<Rightarrow> (nat \<Rightarrow> micros \<Rightarrow> 'a sql) \<Rightarrow> 'a stm" where
  "exec_alloc e ctr bump q c =
     (let c1 = arrive e c in
      case fault_at e (calls c) of
        Some (Fails x) \<Rightarrow> (Inl (cause_error x), c1)
      | f \<Rightarrow>
          (case q (ctr (cdb c1)) (now e (calls c)) (view c1) of
            (r, w) \<Rightarrow>
              (case f of Some (Unacked x) \<Rightarrow> Inl (cause_error x) | _ \<Rightarrow> r,
               c1\<lparr>cdb := bump (cdb c1), own := w \<circ> own c1\<rparr>)))"

definition exec :: "env \<Rightarrow> (micros \<Rightarrow> 'a sql) \<Rightarrow> 'a stm" where
  "exec e q = exec_alloc e (\<lambda>_. 0) id (\<lambda>_. q)"

definition BeginTx :: "env \<Rightarrow> unit stm" where
  "BeginTx e c =
     (let c1 = (arrive e c)\<lparr>own := id\<rparr> in
      case fault_at e (calls c) of
        None \<Rightarrow> (Inr (), c1)
      | Some (Fails x) \<Rightarrow> (Inl (cause_error x), c1)
      | Some (Unacked x) \<Rightarrow> (Inl (cause_error x), c1))"

definition Commit :: "env \<Rightarrow> unit stm" where
  "Commit e c =
     (let c1 = arrive e c;
          c2 = c1\<lparr>cdb := own c1 (cdb c1), own := id\<rparr> in
      case fault_at e (calls c) of
        None \<Rightarrow> (Inr (), c2)
      | Some (Fails x) \<Rightarrow> (Inl (cause_error x), c1\<lparr>own := id\<rparr>)
      | Some (Unacked x) \<Rightarrow> (Inl (cause_error x), c2))"

text \<open>The deferred \<open>tx.Rollback()\<close>, whose own error the code ignores.\<close>

definition Rollback :: "conn \<Rightarrow> conn" where
  "Rollback c = c\<lparr>own := id\<rparr>"

text \<open>A statement outside a transaction commits by itself.\<close>

definition auto_exec_alloc ::
  "env \<Rightarrow> (db \<Rightarrow> nat) \<Rightarrow> (db \<Rightarrow> db) \<Rightarrow> (nat \<Rightarrow> micros \<Rightarrow> 'a sql) \<Rightarrow> 'a stm" where
  "auto_exec_alloc e ctr bump q c =
     (case exec_alloc e ctr bump q c of
       (r, c1) \<Rightarrow> (r, c1\<lparr>cdb := own c1 (cdb c1), own := id\<rparr>))"

definition auto_exec :: "env \<Rightarrow> (micros \<Rightarrow> 'a sql) \<Rightarrow> 'a stm" where
  "auto_exec e q = auto_exec_alloc e (\<lambda>_. 0) id (\<lambda>_. q)"

section \<open>Composing calls\<close>

definition ret :: "'r \<Rightarrow> 'r prog" where
  "ret r c = (r, c)"

text \<open>\<open>x, err := call; if err != nil { handle }; rest\<close>.\<close>

definition on_call :: "'a stm \<Rightarrow> (go_error \<Rightarrow> 'r prog) \<Rightarrow> ('a \<Rightarrow> 'r prog) \<Rightarrow> 'r prog" where
  "on_call st handle rest c =
     (case st c of (Inl er, c1) \<Rightarrow> handle er c1 | (Inr x, c1) \<Rightarrow> rest x c1)"

text \<open>
  The common case, \<open>if err != nil { return ..., f(err) }\<close>, and the most common of them, where
  the error itself is returned.
\<close>

definition check_as :: "(go_error \<Rightarrow> 'r) \<Rightarrow> 'a stm \<Rightarrow> ('a \<Rightarrow> 'r prog) \<Rightarrow> 'r prog" where
  "check_as f st rest = on_call st (\<lambda>er. ret (f er)) rest"

abbreviation check :: "'a stm \<Rightarrow> ('a \<Rightarrow> 'b outcome prog) \<Rightarrow> 'b outcome prog" where
  "check \<equiv> check_as Err"

text \<open>A whole transaction: begin, the body, and the deferred rollback.\<close>

definition in_tx :: "env \<Rightarrow> 'r prog \<Rightarrow> (go_error \<Rightarrow> 'r) \<Rightarrow> db \<Rightarrow> 'r \<times> db" where
  "in_tx e body fail d =
     (case on_call (BeginTx e) (\<lambda>er. ret (fail er)) (\<lambda>_. body) (connect d) of
       (r, c) \<Rightarrow> (r, cdb (Rollback c)))"

section \<open>Statements on the wallet tables\<close>

text \<open>
  \<open>LastInsertId\<close> is an \<open>int64\<close>; a counter past the range of BIGINT UNSIGNED makes the insert
  fail.
\<close>

definition last_insert_id :: "nat \<Rightarrow> i64" where
  "last_insert_id n = wrap64 (int n)"

definition id_exhausted :: "nat \<Rightarrow> bool" where
  "id_exhausted n \<longleftrightarrow> 2 ^ 64 \<le> n"

definition too_long :: "nat \<Rightarrow> string \<Rightarrow> bool" where
  "too_long n s \<longleftrightarrow> n < length (runes s)"

definition user_exists :: "u64 \<Rightarrow> db \<Rightarrow> bool" where
  "user_exists uid d \<longleftrightarrow> list_ex (\<lambda>u. us_UserID u = uid) (users d)"

text \<open>\<open>INSERT INTO wallet_accounts ... ON DUPLICATE KEY UPDATE user_id = VALUES(user_id)\<close>.\<close>

definition ensure_account :: "u64 \<Rightarrow> micros \<Rightarrow> WalletAccount list \<Rightarrow> WalletAccount list" where
  "ensure_account uid t as =
     (if list_ex (\<lambda>a. wa_UserID a = uid) as then as
      else as @ [\<lparr>wa_UserID = uid, wa_Currency = COIN, wa_AvailableBalance = 0, wa_UpdatedAt = t\<rparr>])"

definition upsert_wallet_account :: "u64 \<Rightarrow> micros \<Rightarrow> unit sql" where
  "upsert_wallet_account uid t d =
     (if \<not> list_ex (\<lambda>a. wa_UserID a = uid) (wallet_accounts d) \<and> \<not> user_exists uid d
        then (Inl (MySQLError mysql_no_parent), id)
      else (Inr (), wallet_accounts_update (ensure_account uid t)))"

definition GetWalletAccountForUpdate :: "u64 \<Rightarrow> micros \<Rightarrow> i64 sql" where
  "GetWalletAccountForUpdate uid t d =
     (case find (\<lambda>a. wa_UserID a = uid) (wallet_accounts d) of
       None \<Rightarrow> (Inl ErrNoRows, id)
     | Some a \<Rightarrow> (Inr (wa_AvailableBalance a), id))"

definition set_balance :: "i64 \<Rightarrow> u64 \<Rightarrow> micros \<Rightarrow> WalletAccount list \<Rightarrow> WalletAccount list" where
  "set_balance bal uid t as = map (\<lambda>a.
     if wa_UserID a = uid \<and> wa_AvailableBalance a \<noteq> bal
     then a\<lparr>wa_AvailableBalance := bal, wa_UpdatedAt := t\<rparr> else a) as"

definition UpdateWalletBalance :: "i64 \<Rightarrow> u64 \<Rightarrow> micros \<Rightarrow> unit sql" where
  "UpdateWalletBalance bal uid t d = (Inr (), wallet_accounts_update (set_balance bal uid t))"

definition InsertWalletTransaction ::
  "(string \<Rightarrow> string) \<Rightarrow> WalletTransactionsTxType \<Rightarrow> u64 \<Rightarrow> string \<Rightarrow> byte list
     \<Rightarrow> nat \<Rightarrow> micros \<Rightarrow> i64 sql" where
  "InsertWalletTransaction coll ty actor rid h n t d =
     (if id_exhausted n then (Inl (MySQLError mysql_autoinc_failed), id)
      else if too_long 64 rid then (Inl (MySQLError mysql_too_long), id)
      else if list_ex (\<lambda>w. wt_ActorUserID w = actor \<and> wt_TxType w = ty \<and>
                           coll (wt_RequestID w) = coll rid) (wallet_transactions d)
        then (Inl (MySQLError mysql_dup_entry), id)
      else if \<not> user_exists actor d then (Inl (MySQLError mysql_no_parent), id)
      else (Inr (last_insert_id n), wallet_transactions_update (\<lambda>ws. ws @
        [\<lparr>wt_TxID = of_nat n, wt_TxType = ty, wt_ActorUserID = actor, wt_RequestID = rid,
          wt_BodyHash = Some h, wt_CreatedAt = t\<rparr>])))"

definition InsertWalletEntry ::
  "(string \<Rightarrow> string) \<Rightarrow> u64 \<Rightarrow> string \<Rightarrow> i64 \<Rightarrow> micros \<Rightarrow> unit sql" where
  "InsertWalletEntry coll txid code amount t d =
     (if too_long 64 code then (Inl (MySQLError mysql_too_long), id)
      else if list_ex (\<lambda>w. we_TxID w = txid \<and> coll (we_AccountCode w) = coll code)
                (wallet_entries d)
        then (Inl (MySQLError mysql_dup_entry), id)
      else if \<not> list_ex (\<lambda>w. wt_TxID w = txid) (wallet_transactions d)
        then (Inl (MySQLError mysql_no_parent), id)
      else (Inr (), wallet_entries_update (\<lambda>ws. ws @
        [\<lparr>we_TxID = txid, we_AccountCode = code, we_Amount = amount\<rparr>])))"

definition GetRechargeRequest ::
  "(string \<Rightarrow> string) \<Rightarrow> u64 \<Rightarrow> string \<Rightarrow> micros \<Rightarrow> RechargeRow sql" where
  "GetRechargeRequest coll viewer rid t d =
     (case find (\<lambda>r. rr_ViewerID r = viewer \<and> coll (rr_RequestID r) = coll rid)
             (recharge_requests d) of
       None \<Rightarrow> (Inl ErrNoRows, id)
     | Some r \<Rightarrow> (Inr r, id))"

definition InsertRechargeRequest ::
  "(string \<Rightarrow> string) \<Rightarrow> RechargeRow \<Rightarrow> micros \<Rightarrow> unit sql" where
  "InsertRechargeRequest coll row t d =
     (if too_long 64 (rr_RequestID row) \<or> too_long 128 (rr_PaymentRef row)
        then (Inl (MySQLError mysql_too_long), id)
      else if list_ex (\<lambda>r. rr_ViewerID r = rr_ViewerID row \<and>
                           coll (rr_RequestID r) = coll (rr_RequestID row)) (recharge_requests d)
        then (Inl (MySQLError mysql_dup_entry), id)
      else if \<not> list_ex (\<lambda>w. wt_TxID w = rr_TxID row) (wallet_transactions d) \<or>
              \<not> user_exists (rr_ViewerID row) d
        then (Inl (MySQLError mysql_no_parent), id)
      else (Inr (), recharge_requests_update (\<lambda>rs. rs @ [row\<lparr>rr_CreatedAt := t\<rparr>])))"

definition InsertOutboxEvent ::
  "string \<Rightarrow> string \<Rightarrow> json \<Rightarrow> nat \<Rightarrow> micros \<Rightarrow> unit sql" where
  "InsertOutboxEvent topic key payload n t d =
     (if id_exhausted n then (Inl (MySQLError mysql_autoinc_failed), id)
      else if too_long 128 topic \<or> too_long 128 key then (Inl (MySQLError mysql_too_long), id)
      else (Inr (), outbox_events_update (\<lambda>os. os @
        [\<lparr>oe_EventID = of_nat n, oe_Topic = topic, oe_EventKey = key, oe_PayloadJson = payload,
          oe_PublishedAt = None, oe_CreatedAt = t\<rparr>])))"

text \<open>The three tables with an AUTO_INCREMENT key.\<close>

definition exec_tx_insert :: "env \<Rightarrow> (nat \<Rightarrow> micros \<Rightarrow> 'a sql) \<Rightarrow> 'a stm" where
  "exec_tx_insert e = exec_alloc e next_tx_id (next_tx_id_update Suc)"

definition exec_order_insert :: "env \<Rightarrow> (nat \<Rightarrow> micros \<Rightarrow> 'a sql) \<Rightarrow> 'a stm" where
  "exec_order_insert e = exec_alloc e next_gift_order_id (next_gift_order_id_update Suc)"

definition exec_outbox_insert :: "env \<Rightarrow> (nat \<Rightarrow> micros \<Rightarrow> 'a sql) \<Rightarrow> 'a stm" where
  "exec_outbox_insert e = exec_alloc e next_event_id (next_event_id_update Suc)"

section \<open>Statements on sessions, matches, gifts, users and orders\<close>

definition GetLiveSession :: "u64 \<Rightarrow> micros \<Rightarrow> LiveSession sql" where
  "GetLiveSession sid t d =
     (case find (\<lambda>s. ls_LiveSessionID s = sid) (live_sessions d) of
       None \<Rightarrow> (Inl ErrNoRows, id)
     | Some s \<Rightarrow> (Inr s, id))"

definition GetLiveMatch :: "u64 \<Rightarrow> micros \<Rightarrow> LiveMatch sql" where
  "GetLiveMatch mid t d =
     (case find (\<lambda>m. lm_MatchID m = mid) (live_matches d) of
       None \<Rightarrow> (Inl ErrNoRows, id)
     | Some m \<Rightarrow> (Inr m, id))"

definition GetGiftCatalogItem :: "(string \<Rightarrow> string) \<Rightarrow> string \<Rightarrow> micros \<Rightarrow> GiftCatalog sql" where
  "GetGiftCatalogItem coll gid t d =
     (case find (\<lambda>g. coll (gc_GiftID g) = coll gid) (gift_catalog d) of
       None \<Rightarrow> (Inl ErrNoRows, id)
     | Some g \<Rightarrow> (Inr g, id))"

definition GetUser :: "u64 \<Rightarrow> micros \<Rightarrow> User sql" where
  "GetUser uid t d =
     (case find (\<lambda>u. us_UserID u = uid) (users d) of
       None \<Rightarrow> (Inl ErrNoRows, id)
     | Some u \<Rightarrow> (Inr u, id))"

definition GetGiftOrderByRequest ::
  "(string \<Rightarrow> string) \<Rightarrow> u64 \<Rightarrow> string \<Rightarrow> micros \<Rightarrow> GiftOrder sql" where
  "GetGiftOrderByRequest coll viewer rid t d =
     (case find (\<lambda>g. go_ViewerID g = viewer \<and> coll (go_RequestID g) = coll rid) (gift_orders d) of
       None \<Rightarrow> (Inl ErrNoRows, id)
     | Some g \<Rightarrow> (Inr g, id))"

text \<open>
  The amounts arrive as \<open>int64\<close> and the columns are INT UNSIGNED; the identifier and the time
  of the row are the statement's.
\<close>

definition InsertGiftOrder ::
  "(string \<Rightarrow> string) \<Rightarrow> GiftOrder \<Rightarrow> i64 \<Rightarrow> i64 \<Rightarrow> i64 \<Rightarrow> nat \<Rightarrow> micros \<Rightarrow> i64 sql" where
  "InsertGiftOrder coll row charged points diamonds n t d =
     (if id_exhausted n then (Inl (MySQLError mysql_autoinc_failed), id)
      else if too_long 32 (go_GiftID row) \<or> too_long 64 (go_RequestID row) \<or>
              (case go_RejectCode row of None \<Rightarrow> False | Some rc \<Rightarrow> too_long 64 rc)
        then (Inl (MySQLError mysql_too_long), id)
      else if list_ex (\<lambda>x. x < 0 \<or> 2 ^ 32 \<le> x) [charged, points, diamonds]
        then (Inl (MySQLError mysql_out_of_range), id)
      else if list_ex (\<lambda>g. go_ViewerID g = go_ViewerID row \<and>
                           coll (go_RequestID g) = coll (go_RequestID row)) (gift_orders d)
        then (Inl (MySQLError mysql_dup_entry), id)
      else (Inr (last_insert_id n), gift_orders_update (\<lambda>gs. gs @
        [row\<lparr>go_GiftOrderID := of_nat n, go_ChargedCoins := of_int charged,
             go_MatchPointsAdded := of_int points, go_DiamondReward := of_int diamonds,
             go_CreatedAt := t\<rparr>])))"

end
