(* ===== verification/Tx.thy ===== *)
theory Tx
  imports Sql
begin

text \<open>
  A small program logic for transactions: what a handler guarantees for every pattern of
  faults. \<open>wp m Q c\<close> says that running \<open>m\<close> from the connection \<open>c\<close> ends in \<open>Q\<close>; there is one
  rule per way of calling the database. The rules are stated for a \<open>quiet\<close> environment, in
  which no other transaction commits while the request runs; faults stay arbitrary.
\<close>

named_theorems sql_spec \<open>what a successful statement returned and wrote\<close>

definition quiet :: "env \<Rightarrow> bool" where
  "quiet e \<longleftrightarrow> (\<forall>n d. others e n d = d)"

lemma quietD [simp]: "quiet e \<Longrightarrow> others e n d = d"
  by (simp add: quiet_def)

definition wp :: "'r prog \<Rightarrow> ('r \<Rightarrow> conn \<Rightarrow> bool) \<Rightarrow> conn \<Rightarrow> bool" where
  "wp m Q c \<longleftrightarrow> (case m c of (r, c') \<Rightarrow> Q r c')"

lemma wpD: "wp m Q c \<Longrightarrow> m c = (r, c') \<Longrightarrow> Q r c'"
  by (simp add: wp_def)

lemma wp_ret [simp]: "wp (ret r) Q c \<longleftrightarrow> Q r c"
  by (simp add: wp_def ret_def)

lemma wp_on_call:
  "wp (on_call st h k) Q c \<longleftrightarrow>
     wp st (\<lambda>x c'. case x of Inl er \<Rightarrow> wp (h er) Q c' | Inr v \<Rightarrow> wp (k v) Q c') c"
  by (auto simp: wp_def on_call_def split: prod.splits sum.splits)

lemma arrive_quiet [simp]:
  "quiet e \<Longrightarrow> arrive e c = \<lparr>cdb = cdb c, own = own c, calls = Suc (calls c)\<rparr>"
  by (cases c) (simp add: arrive_def)

lemma wp_if [simp]: "wp (if b then m else m') Q c \<longleftrightarrow> (if b then wp m Q c else wp m' Q c)"
  by simp

section \<open>Statements\<close>

text \<open>
  After a statement either an error was returned, the tables of the committed database being
  what they were, or the statement's own result and write are there.
\<close>

lemma cause_error_unlike [simp]:
  "cause_error x \<noteq> ErrNoRows" "cause_error x \<noteq> MySQLError mysql_dup_entry"
  "cause_error x \<noteq> ErrorsNew s"
  by (simp_all add: cause_error_def split: cause.splits)

text \<open>
  The connection is kept in the form \<open>at D W n\<close>: \<open>D\<close> is the committed database, \<open>W\<close> the
  writes of the open transaction, \<open>n\<close> the calls made.
\<close>

abbreviation at :: "db \<Rightarrow> (db \<Rightarrow> db) \<Rightarrow> nat \<Rightarrow> conn" where
  "at D W n \<equiv> \<lparr>cdb = D, own = W, calls = n\<rparr>"

lemma vc_on_exec_alloc:
  assumes quiet: "quiet e"
    and bump: "\<And>d. untouched d (bump d)"
    and fault: "\<And>er c'. untouched D (cdb c') \<Longrightarrow> er \<noteq> ErrNoRows \<Longrightarrow>
                  er \<noteq> MySQLError mysql_dup_entry \<Longrightarrow> \<forall>s. er \<noteq> ErrorsNew s \<Longrightarrow>
                  wp (h er) Q c'"
    and fail: "\<And>er w. q (ctr D) (now e n) (W D) = (Inl er, w) \<Longrightarrow>
                 wp (h er) Q (at (bump D) (w \<circ> W) (Suc n))"
    and ok: "\<And>x w. q (ctr D) (now e n) (W D) = (Inr x, w) \<Longrightarrow>
               wp (k x) Q (at (bump D) (w \<circ> W) (Suc n))"
  shows "wp (on_call (exec_alloc e ctr bump q) h k) Q (at D W n)"
proof (cases "q (ctr D) (now e n) (W D)")
  case res: (Pair r w)
  note unf = wp_on_call wp_def [of "exec_alloc e ctr bump q"] exec_alloc_def view_def Let_def
  show ?thesis
  proof (cases "fault_at e n")
    case None
    with res quiet fail ok show ?thesis by (cases r) (simp_all add: unf)
  next
    case (Some f)
    with res quiet fault bump show ?thesis by (cases f) (simp_all add: unf)
  qed
qed

section \<open>Errors that a caller passes on\<close>

text \<open>
  A postcondition is \<open>abortable\<close> over \<open>d\<close> when it holds of every error returned with the
  tables of \<open>d\<close> unchanged; the rules below discharge the error branches of such a
  postcondition once and for all.
\<close>

definition abortable :: "(go_error \<Rightarrow> 'r) \<Rightarrow> db \<Rightarrow> ('r \<Rightarrow> conn \<Rightarrow> bool) \<Rightarrow> bool" where
  "abortable f d Q \<longleftrightarrow> (\<forall>er c. untouched d (cdb c) \<longrightarrow> Q (f er) c)"

text \<open>The n-th call of a handler, as an offset.\<close>

lemma call_offset:
  fixes n :: nat
  shows
  "n + 3 = Suc (Suc (Suc n))"
  "n + 4 = Suc (Suc (Suc (Suc n)))"
  "n + 5 = Suc (Suc (Suc (Suc (Suc n))))"
  "n + 6 = Suc (Suc (Suc (Suc (Suc (Suc n)))))"
  "n + 7 = Suc (Suc (Suc (Suc (Suc (Suc (Suc n))))))"
  "n + 8 = Suc (Suc (Suc (Suc (Suc (Suc (Suc (Suc n)))))))"
  "n + 9 = Suc (Suc (Suc (Suc (Suc (Suc (Suc (Suc (Suc n))))))))"
  "n + 10 = Suc (Suc (Suc (Suc (Suc (Suc (Suc (Suc (Suc (Suc n)))))))))"
  "n + 11 = Suc (Suc (Suc (Suc (Suc (Suc (Suc (Suc (Suc (Suc (Suc n))))))))))"
  "n + 12 = Suc (Suc (Suc (Suc (Suc (Suc (Suc (Suc (Suc (Suc (Suc (Suc n)))))))))))"
  "n + 13 = Suc (Suc (Suc (Suc (Suc (Suc (Suc (Suc (Suc (Suc (Suc (Suc (Suc n))))))))))))"
  "n + 14 = Suc (Suc (Suc (Suc (Suc (Suc (Suc (Suc (Suc (Suc (Suc (Suc (Suc (Suc n)))))))))))))"
  "n + 15 = Suc (Suc (Suc (Suc (Suc (Suc (Suc (Suc (Suc (Suc (Suc (Suc (Suc (Suc (Suc n))))))))))))))"
  "n + 16 = Suc (Suc (Suc (Suc (Suc (Suc (Suc (Suc (Suc (Suc (Suc (Suc (Suc (Suc (Suc (Suc n)))))))))))))))"
  by simp_all

lemma vc_on_exec:
  assumes "quiet e"
    and "\<And>er c'. untouched D (cdb c') \<Longrightarrow> er \<noteq> ErrNoRows \<Longrightarrow>
           er \<noteq> MySQLError mysql_dup_entry \<Longrightarrow> \<forall>s. er \<noteq> ErrorsNew s \<Longrightarrow>
                  wp (h er) Q c'"
    and "\<And>er w. q (now e n) (W D) = (Inl er, w) \<Longrightarrow> wp (h er) Q (at D (w \<circ> W) (Suc n))"
    and "\<And>x w. q (now e n) (W D) = (Inr x, w) \<Longrightarrow> wp (k x) Q (at D (w \<circ> W) (Suc n))"
  shows "wp (on_call (exec e q) h k) Q (at D W n)"
  unfolding exec_def
  by (rule vc_on_exec_alloc [OF assms(1)]) (use assms(2-) in auto)

lemma vc_exec_alloc:
  assumes "quiet e" and "abortable f d Q" and "untouched d D"
    and "\<And>d. untouched d (bump d)"
    and "\<And>x w. q (ctr D) (now e n) (W D) = (Inr x, w) \<Longrightarrow>
           wp (k x) Q (at (bump D) (w \<circ> W) (Suc n))"
  shows "wp (check_as f (exec_alloc e ctr bump q) k) Q (at D W n)"
proof -
  have err: "Q (f er) c'" if "untouched D (cdb c')" for er c'
    using assms(2) untouched_trans [OF assms(3) that] by (simp add: abortable_def)
  show ?thesis
    unfolding check_as_def
    by (rule vc_on_exec_alloc [OF assms(1,4)]) (simp_all add: err assms(4,5))
qed

lemma vc_exec:
  assumes "quiet e" and "abortable f d Q" and "untouched d D"
    and "\<And>x w. q (now e n) (W D) = (Inr x, w) \<Longrightarrow> wp (k x) Q (at D (w \<circ> W) (Suc n))"
  shows "wp (check_as f (exec e q) k) Q (at D W n)"
  unfolding exec_def
  by (rule vc_exec_alloc [OF assms(1-3)]) (use assms(4) in auto)

lemma vc_guard:
  assumes "abortable f d Q" and "untouched d D" and "\<not> b \<Longrightarrow> wp m Q (at D W n)"
  shows "wp (if b then ret (f er) else m) Q (at D W n)"
  using assms by (simp add: abortable_def)

text \<open>
  The commit is the one call whose lost acknowledgement leaves its effect behind.
\<close>

lemma vc_commit:
  assumes "quiet e" and "abortable f d Q" and "untouched d D"
    and "\<And>er. Q (f er) (at (W D) id (Suc n))"
    and "wp (k ()) Q (at (W D) id (Suc n))"
  shows "wp (check_as f (Commit e) k) Q (at D W n)"
  using assms
  by (auto simp: check_as_def wp_on_call wp_def [of "Commit e"] Commit_def Let_def
      abortable_def split: option.splits fault.splits)

text \<open>A query outside a transaction.\<close>

lemma vc_on_read:
  assumes quiet: "quiet e" and reads: "\<And>t d. snd (q t d) = id"
    and fault: "\<And>er. er \<noteq> ErrNoRows \<Longrightarrow> er \<noteq> MySQLError mysql_dup_entry \<Longrightarrow>
                  wp (h er) Q (at D id (Suc n))"
    and fail: "\<And>er. fst (q (now e n) D) = Inl er \<Longrightarrow> wp (h er) Q (at D id (Suc n))"
    and ok: "\<And>x. fst (q (now e n) D) = Inr x \<Longrightarrow> wp (k x) Q (at D id (Suc n))"
  shows "wp (on_call (auto_exec e q) h k) Q (at D id n)"
proof (cases "q (now e n) D")
  case res: (Pair r w)
  have w: "w = id" using reads [of "now e n" D] res by simp
  note unf = wp_on_call wp_def [of "auto_exec_alloc _ _ _ _"] auto_exec_def auto_exec_alloc_def
    exec_alloc_def view_def Let_def
  show ?thesis
  proof (cases "fault_at e n")
    case None
    with res w quiet fail ok show ?thesis by (cases r) (simp_all add: unf)
  next
    case (Some f)
    with res w quiet fault show ?thesis by (cases f) (simp_all add: unf)
  qed
qed

lemma in_tx_wp:
  assumes run: "in_tx e body fail d = (r, d')"
    and fail: "\<And>er. P (fail er) d"
    and body: "wp body (\<lambda>r c. P r (cdb c)) (at d id 1)"
    and quiet: "quiet e"
  shows "P r d'"
  using assms
  by (auto simp: in_tx_def wp_def Rollback_def on_call_def BeginTx_def Let_def arrive_def
      connect_def ret_def split: option.splits fault.splits prod.splits)

section \<open>Runs without faults\<close>

text \<open>Without faults a transaction is computed statement by statement.\<close>

definition calm :: "env \<Rightarrow> bool" where
  "calm e \<longleftrightarrow> quiet e \<and> (\<forall>n. fault_at e n = None)"

lemma calm_quiet [simp]: "calm e \<Longrightarrow> quiet e"
  by (simp add: calm_def)

lemma run_exec_alloc:
  "calm e \<Longrightarrow> on_call (exec_alloc e ctr bump q) h k (at D W n) =
     (case q (ctr D) (now e n) (W D) of
       (Inl er, w) \<Rightarrow> h er (at (bump D) (w \<circ> W) (Suc n))
     | (Inr x, w) \<Rightarrow> k x (at (bump D) (w \<circ> W) (Suc n)))"
  by (auto simp: calm_def on_call_def exec_alloc_def Let_def view_def
      split: prod.splits sum.splits)

lemma run_exec:
  "calm e \<Longrightarrow> on_call (exec e q) h k (at D W n) =
     (case q (now e n) (W D) of
       (Inl er, w) \<Rightarrow> h er (at D (w \<circ> W) (Suc n))
     | (Inr x, w) \<Rightarrow> k x (at D (w \<circ> W) (Suc n)))"
  by (simp add: exec_def run_exec_alloc split: prod.splits sum.splits)

lemma run_auto_exec:
  "calm e \<Longrightarrow> on_call (auto_exec e q) h k (at D W n) =
     (case q (now e n) (W D) of
       (Inl er, w) \<Rightarrow> h er (at (w (W D)) id (Suc n))
     | (Inr x, w) \<Rightarrow> k x (at (w (W D)) id (Suc n)))"
  by (auto simp: calm_def on_call_def auto_exec_def auto_exec_alloc_def exec_alloc_def Let_def
      view_def split: prod.splits sum.splits)

lemma run_commit:
  "calm e \<Longrightarrow> on_call (Commit e) h k (at D W n) = k () (at (W D) id (Suc n))"
  by (simp add: calm_def on_call_def Commit_def Let_def)

lemma run_in_tx:
  "calm e \<Longrightarrow> in_tx e body fail d = (case body (at d id 1) of (r, c) \<Rightarrow> (r, cdb c))"
  by (simp add: calm_def in_tx_def on_call_def BeginTx_def connect_def arrive_def Rollback_def
      split: prod.splits)

lemma on_call_nested:
  "on_call (on_call st h k) h' k' =
     on_call st (\<lambda>er. on_call (h er) h' k') (\<lambda>x. on_call (k x) h' k')"
  by (rule ext) (simp add: on_call_def split: prod.splits sum.splits)

lemma on_call_ret [simp]:
  "on_call (ret (Inr x)) h k = k x" "on_call (ret (Inl er)) h k = h er"
  by (rule ext, simp add: on_call_def ret_def)+

lemmas run_simps = check_as_def run_exec_alloc run_exec run_auto_exec run_commit on_call_nested

section \<open>Balances\<close>

definition balance_of :: "u64 \<Rightarrow> db \<Rightarrow> i64" where
  "balance_of uid d =
     (case find (\<lambda>a. wa_UserID a = uid) (wallet_accounts d) of
       None \<Rightarrow> 0 | Some a \<Rightarrow> wa_AvailableBalance a)"

lemma find_ensure_account:
  "\<exists>a. find (\<lambda>a. wa_UserID a = uid) (ensure_account uid t as) = Some a \<and>
       wa_AvailableBalance a =
         (case find (\<lambda>a. wa_UserID a = uid) as of None \<Rightarrow> 0 | Some a \<Rightarrow> wa_AvailableBalance a)"
  by (auto simp: ensure_account_def find_append list_ex_iff find_None_iff
      split: option.splits dest: find_SomeD)

lemma find_other_ensure:
  "u \<noteq> uid \<Longrightarrow> find (\<lambda>a. wa_UserID a = u) (ensure_account uid t as) = find (\<lambda>a. wa_UserID a = u) as"
  by (auto simp: ensure_account_def find_append split: option.splits)

lemma find_set_balance:
  "find (\<lambda>a. wa_UserID a = u) (set_balance bal uid t as) =
     map_option (\<lambda>a. if wa_UserID a = uid \<and> wa_AvailableBalance a \<noteq> bal
                    then a\<lparr>wa_AvailableBalance := bal, wa_UpdatedAt := t\<rparr> else a)
       (find (\<lambda>a. wa_UserID a = u) as)"
  by (induction as) (auto simp: set_balance_def)

lemma balance_of_posted:
  assumes "wallet_accounts d' = set_balance bal uid t' (ensure_account uid t (wallet_accounts d))"
  shows "balance_of u d' = (if u = uid then bal else balance_of u d)"
proof (cases "u = uid")
  case True
  with find_ensure_account [of uid t "wallet_accounts d"] assms show ?thesis
    by (auto simp: balance_of_def find_set_balance dest: find_SomeD)
next
  case False
  with assms show ?thesis
    by (auto simp: balance_of_def find_set_balance find_other_ensure split: option.splits
        dest: find_SomeD)
qed

lemma find_ensure_balance:
  "find (\<lambda>a. wa_UserID a = uid) (ensure_account uid t (wallet_accounts d)) = Some a \<Longrightarrow>
     wa_AvailableBalance a = balance_of uid d"
  using find_ensure_account [of uid t "wallet_accounts d"] by (auto simp: balance_of_def)

section \<open>Identifiers\<close>

lemma last_insert_id_pos:
  assumes "n < 2 ^ 64"
  shows "\<not> last_insert_id n < 1 \<longleftrightarrow> 0 < n \<and> n < 2 ^ 63"
proof (cases "n < 2 ^ 63")
  case True
  then have "in_i64 (int n)" by (simp add: in_i64_def)
  with True show ?thesis by (auto simp: last_insert_id_def wrap64_id)
next
  case False
  have "(int n + 2 ^ 63) mod 2 ^ 64 = ((int n - 2 ^ 63) + 2 ^ 64) mod 2 ^ 64"
    by (simp add: algebra_simps)
  also have "\<dots> = int n - 2 ^ 63" using False assms by (simp only: mod_add_self2) simp
  finally show ?thesis using False assms by (auto simp: last_insert_id_def wrap64_def)
qed

lemma of_int_last_insert_id [simp]: "(of_int (last_insert_id n) :: u64) = of_nat n"
proof -
  have z: "(of_int (2 ^ 64) :: u64) = 0" by (simp only: of_int_power) simp
  have "last_insert_id n = int n - 2 ^ 64 * ((int n + 2 ^ 63) div 2 ^ 64)"
    by (simp add: last_insert_id_def wrap64_def minus_mult_div_eq_mod [symmetric])
  then have "(of_int (last_insert_id n) :: u64) =
      of_int (int n) - of_int (2 ^ 64) * of_int ((int n + 2 ^ 63) div 2 ^ 64)"
    by (simp only: of_int_diff of_int_mult)
  then show ?thesis by (simp only: z) simp
qed

lemma not_too_long: "length s \<le> n \<Longrightarrow> \<not> too_long n s"
  using length_runes [of s] by (simp add: too_long_def)

lemma FormatUint_fits [simp]: "20 \<le> n \<Longrightarrow> \<not> too_long n (FormatUint v)"
  using length_FormatUint [of v] by (simp add: not_too_long)

section \<open>What the statements did\<close>

lemma upsert_wallet_account_ok [sql_spec]:
  "upsert_wallet_account uid t d = (Inr x, w) \<longleftrightarrow>
     (list_ex (\<lambda>a. wa_UserID a = uid) (wallet_accounts d) \<or> user_exists uid d) \<and>
     w = wallet_accounts_update (ensure_account uid t)"
  by (auto simp: upsert_wallet_account_def)

lemma GetWalletAccountForUpdate_ok [sql_spec]:
  "GetWalletAccountForUpdate uid t d = (Inr b, w) \<longleftrightarrow>
     w = id \<and> (\<exists>a. find (\<lambda>a. wa_UserID a = uid) (wallet_accounts d) = Some a \<and>
                    b = wa_AvailableBalance a)"
  by (auto simp: GetWalletAccountForUpdate_def split: option.splits)

lemma UpdateWalletBalance_ok [sql_spec]:
  "UpdateWalletBalance bal uid t d = (Inr x, w) \<longleftrightarrow>
     w = wallet_accounts_update (set_balance bal uid t)"
  by (auto simp: UpdateWalletBalance_def)

lemma InsertWalletTransaction_ok [sql_spec]:
  "InsertWalletTransaction coll ty actor rid h n t d = (Inr x, w) \<longleftrightarrow>
     n < 2 ^ 64 \<and> \<not> too_long 64 rid \<and> user_exists actor d \<and>
     \<not> list_ex (\<lambda>w. wt_ActorUserID w = actor \<and> wt_TxType w = ty \<and>
                    coll (wt_RequestID w) = coll rid) (wallet_transactions d) \<and>
     x = last_insert_id n \<and>
     w = wallet_transactions_update (\<lambda>ws. ws @
        [\<lparr>wt_TxID = of_nat n, wt_TxType = ty, wt_ActorUserID = actor, wt_RequestID = rid,
          wt_BodyHash = Some h, wt_CreatedAt = t\<rparr>])"
  by (auto simp: InsertWalletTransaction_def id_exhausted_def)

lemma InsertWalletEntry_ok [sql_spec]:
  "InsertWalletEntry coll txid code amount t d = (Inr x, w) \<longleftrightarrow>
     \<not> too_long 64 code \<and>
     \<not> list_ex (\<lambda>w. we_TxID w = txid \<and> coll (we_AccountCode w) = coll code) (wallet_entries d) \<and>
     list_ex (\<lambda>w. wt_TxID w = txid) (wallet_transactions d) \<and>
     w = wallet_entries_update (\<lambda>ws. ws @
        [\<lparr>we_TxID = txid, we_AccountCode = code, we_Amount = amount\<rparr>])"
  by (auto simp: InsertWalletEntry_def)

lemma InsertRechargeRequest_ok [sql_spec]:
  "InsertRechargeRequest coll row t d = (Inr x, w) \<longleftrightarrow>
     \<not> too_long 64 (rr_RequestID row) \<and> \<not> too_long 128 (rr_PaymentRef row) \<and>
     \<not> list_ex (\<lambda>r. rr_ViewerID r = rr_ViewerID row \<and>
                    coll (rr_RequestID r) = coll (rr_RequestID row)) (recharge_requests d) \<and>
     list_ex (\<lambda>w. wt_TxID w = rr_TxID row) (wallet_transactions d) \<and>
     user_exists (rr_ViewerID row) d \<and>
     w = recharge_requests_update (\<lambda>rs. rs @ [row\<lparr>rr_CreatedAt := t\<rparr>])"
  by (auto simp: InsertRechargeRequest_def)

lemma InsertOutboxEvent_ok [sql_spec]:
  "InsertOutboxEvent topic key payload n t d = (Inr x, w) \<longleftrightarrow>
     n < 2 ^ 64 \<and> \<not> too_long 128 topic \<and> \<not> too_long 128 key \<and>
     w = outbox_events_update (\<lambda>os. os @
        [\<lparr>oe_EventID = of_nat n, oe_Topic = topic, oe_EventKey = key, oe_PayloadJson = payload,
          oe_PublishedAt = None, oe_CreatedAt = t\<rparr>])"
  by (auto simp: InsertOutboxEvent_def id_exhausted_def)

lemma InsertGiftOrder_ok [sql_spec]:
  "InsertGiftOrder coll row charged points diamonds n t d = (Inr x, w) \<longleftrightarrow>
     n < 2 ^ 64 \<and> \<not> too_long 32 (go_GiftID row) \<and> \<not> too_long 64 (go_RequestID row) \<and>
     (case go_RejectCode row of None \<Rightarrow> True | Some rc \<Rightarrow> \<not> too_long 64 rc) \<and>
     \<not> list_ex (\<lambda>x. x < 0 \<or> 2 ^ 32 \<le> x) [charged, points, diamonds] \<and>
     \<not> list_ex (\<lambda>g. go_ViewerID g = go_ViewerID row \<and>
                    coll (go_RequestID g) = coll (go_RequestID row)) (gift_orders d) \<and>
     x = last_insert_id n \<and>
     w = gift_orders_update (\<lambda>gs. gs @
        [row\<lparr>go_GiftOrderID := of_nat n, go_ChargedCoins := of_int charged,
             go_MatchPointsAdded := of_int points, go_DiamondReward := of_int diamonds,
             go_CreatedAt := t\<rparr>])"
  by (auto simp: InsertGiftOrder_def id_exhausted_def split: option.splits)

text \<open>A statement that fails writes nothing.\<close>

lemma insert_failed:
  "InsertGiftOrder coll row charged points diamonds n t d = (Inl er, w) \<Longrightarrow> w = id"
  "InsertWalletTransaction coll ty actor rid h n t d = (Inl er, w) \<Longrightarrow> w = id"
  by (auto simp: InsertGiftOrder_def InsertWalletTransaction_def split: if_splits)

text \<open>Point queries.\<close>

lemma GetRechargeRequest_query [sql_spec]:
  "GetRechargeRequest coll viewer rid t d = (Inr x, w) \<longleftrightarrow>
     w = id \<and> find (\<lambda>r. rr_ViewerID r = viewer \<and> coll (rr_RequestID r) = coll rid) (recharge_requests d) = Some x"
  "GetRechargeRequest coll viewer rid t d = (Inl er, w) \<longleftrightarrow>
     w = id \<and> er = ErrNoRows \<and> find (\<lambda>r. rr_ViewerID r = viewer \<and> coll (rr_RequestID r) = coll rid) (recharge_requests d) = None"
  by (auto simp: GetRechargeRequest_def split: option.splits)

lemma GetLiveSession_query [sql_spec]:
  "GetLiveSession sid t d = (Inr x, w) \<longleftrightarrow>
     w = id \<and> find (\<lambda>s. ls_LiveSessionID s = sid) (live_sessions d) = Some x"
  "GetLiveSession sid t d = (Inl er, w) \<longleftrightarrow>
     w = id \<and> er = ErrNoRows \<and> find (\<lambda>s. ls_LiveSessionID s = sid) (live_sessions d) = None"
  by (auto simp: GetLiveSession_def split: option.splits)

lemma GetLiveMatch_query [sql_spec]:
  "GetLiveMatch mid t d = (Inr x, w) \<longleftrightarrow>
     w = id \<and> find (\<lambda>m. lm_MatchID m = mid) (live_matches d) = Some x"
  "GetLiveMatch mid t d = (Inl er, w) \<longleftrightarrow>
     w = id \<and> er = ErrNoRows \<and> find (\<lambda>m. lm_MatchID m = mid) (live_matches d) = None"
  by (auto simp: GetLiveMatch_def split: option.splits)

lemma GetGiftCatalogItem_query [sql_spec]:
  "GetGiftCatalogItem coll gid t d = (Inr x, w) \<longleftrightarrow>
     w = id \<and> find (\<lambda>g. coll (gc_GiftID g) = coll gid) (gift_catalog d) = Some x"
  "GetGiftCatalogItem coll gid t d = (Inl er, w) \<longleftrightarrow>
     w = id \<and> er = ErrNoRows \<and> find (\<lambda>g. coll (gc_GiftID g) = coll gid) (gift_catalog d) = None"
  by (auto simp: GetGiftCatalogItem_def split: option.splits)

lemma GetUser_query [sql_spec]:
  "GetUser uid t d = (Inr x, w) \<longleftrightarrow>
     w = id \<and> find (\<lambda>u. us_UserID u = uid) (users d) = Some x"
  "GetUser uid t d = (Inl er, w) \<longleftrightarrow>
     w = id \<and> er = ErrNoRows \<and> find (\<lambda>u. us_UserID u = uid) (users d) = None"
  by (auto simp: GetUser_def split: option.splits)

lemma GetGiftOrderByRequest_query [sql_spec]:
  "GetGiftOrderByRequest coll viewer rid t d = (Inr x, w) \<longleftrightarrow>
     w = id \<and> find (\<lambda>g. go_ViewerID g = viewer \<and> coll (go_RequestID g) = coll rid) (gift_orders d) = Some x"
  "GetGiftOrderByRequest coll viewer rid t d = (Inl er, w) \<longleftrightarrow>
     w = id \<and> er = ErrNoRows \<and> find (\<lambda>g. go_ViewerID g = viewer \<and> coll (go_RequestID g) = coll rid) (gift_orders d) = None"
  by (auto simp: GetGiftOrderByRequest_def split: option.splits)

lemmas statement_defs =
  upsert_wallet_account_def GetWalletAccountForUpdate_def UpdateWalletBalance_def
  InsertWalletTransaction_def InsertWalletEntry_def GetRechargeRequest_def
  InsertRechargeRequest_def InsertOutboxEvent_def GetLiveSession_def GetLiveMatch_def
  GetGiftCatalogItem_def GetUser_def GetGiftOrderByRequest_def InsertGiftOrder_def
  id_exhausted_def

lemma user_exists_updates [simp]:
  "user_exists v (wallet_accounts_update f d) = user_exists v d"
  "user_exists v (wallet_entries_update g d) = user_exists v d"
  "user_exists v (wallet_transactions_update h d) = user_exists v d"
  "user_exists v (next_tx_id_update k d) = user_exists v d"
  "user_exists v (gift_orders_update l d) = user_exists v d"
  by (simp_all add: user_exists_def)

end
