(* ===== verification/Retry.thy ===== *)
theory Retry
  imports Tx
begin

text \<open>
  The contract of a handler that deduplicates its requests, and what a client that retries may
  rely on. A handler either leaves the tables untouched or commits the effect of the request;
  it commits only a request it does not know, and knows it from then on. Retrying such a
  request any number of times, under any faults, a lost acknowledgement of the commit among
  them, applies its effect at most once.
\<close>

text \<open>A client that sends the same request again and again, one environment per attempt.\<close>

primrec retries :: "(env \<Rightarrow> 'q \<Rightarrow> db \<Rightarrow> 'r \<times> db) \<Rightarrow> env list \<Rightarrow> 'q \<Rightarrow> db \<Rightarrow> db" where
  "retries run [] q d = d"
| "retries run (e # es) q d = retries run es q (snd (run e q d))"

locale deduplicating =
  fixes run :: "env \<Rightarrow> 'q \<Rightarrow> db \<Rightarrow> 'r \<times> db"
    and effect :: "env \<Rightarrow> 'q \<Rightarrow> db \<Rightarrow> db \<Rightarrow> bool"
    and known :: "(string \<Rightarrow> string) \<Rightarrow> 'q \<Rightarrow> db \<Rightarrow> bool"
  assumes atomic: "quiet e \<Longrightarrow> run e q d = (r, d') \<Longrightarrow> untouched d d' \<or> effect e q d d'"
    and effect_new: "effect e q d d' \<Longrightarrow> \<not> known (collate e) q d"
    and effect_known: "effect e q d d' \<Longrightarrow> known (collate e) q d'"
    and known_untouched: "untouched d d' \<Longrightarrow> known coll q d' = known coll q d"
begin

lemma known_run:
  assumes "quiet e" and "known (collate e) q d"
  shows "untouched d (snd (run e q d))"
  using assms atomic [OF assms(1), of q d] effect_new by (metis prod.collapse)

lemma known_retries:
  assumes "\<forall>e \<in> set es. quiet e \<and> collate e = coll" and "known coll q d"
  shows "untouched d (retries run es q d)"
  using assms
proof (induction es arbitrary: d)
  case (Cons e es)
  have u: "untouched d (snd (run e q d))" using known_run [of e q d] Cons.prems by simp
  then have "untouched (snd (run e q d)) (retries run es q (snd (run e q d)))"
    using Cons known_untouched by simp
  with u show ?case by (simp add: untouched_trans)
qed simp

lemma at_most_once:
  assumes "\<forall>e \<in> set es. quiet e \<and> collate e = coll"
  shows "untouched d (retries run es q d) \<or>
         (\<exists>e \<in> set es. \<exists>d1 d2. untouched d d1 \<and> effect e q d1 d2 \<and> untouched d2 (retries run es q d))"
  using assms
proof (induction es arbitrary: d)
  case (Cons e es)
  obtain r d' where run: "run e q d = (r, d')" by force
  have e: "quiet e" "collate e = coll" and es: "\<forall>e \<in> set es. quiet e \<and> collate e = coll"
    using Cons.prems by simp_all
  from atomic [OF e(1) run] show ?case
  proof
    assume u: "untouched d d'"
    from Cons.IH [OF es, of d'] show ?case
    proof
      assume "untouched d' (retries run es q d')"
      with u have "untouched d (retries run es q d')" by (rule untouched_trans)
      then show ?case by (simp add: run)
    next
      assume "\<exists>e \<in> set es. \<exists>d1 d2. untouched d' d1 \<and> effect e q d1 d2 \<and>
                untouched d2 (retries run es q d')"
      then obtain e' d1 d2 where "e' \<in> set es" "untouched d' d1" "effect e' q d1 d2"
        "untouched d2 (retries run es q d')" by blast
      with untouched_trans [OF u this(2)] show ?case by (auto simp: run)
    qed
  next
    assume eff: "effect e q d d'"
    then have "untouched d' (retries run es q d')"
      using known_retries [OF es, of q d'] effect_known e(2) by metis
    with eff show ?case by (auto simp: run intro!: bexI [of _ e])
  qed
qed simp

end

end
