(* ===== verification/Events.thy ===== *)
theory Events
  imports Digest
begin

text \<open>
  The event payloads of \<open>internal/events/events.go\<close>, their JSON as \<open>json.Marshal\<close> builds it
  from the struct tags, and what \<open>json.Unmarshal\<close> reads back into the structs that a
  consumer of the repository decodes. The payload column is a MySQL JSON column, which
  keeps the value and not the text, so a payload is a JSON value.
\<close>

section \<open>The payload structs\<close>

record WalletTransactionPostedV1 =
  wtp_TxID :: u64
  wtp_TxType :: string
  wtp_ActorUserID :: u64
  wtp_RequestID :: string
  wtp_DeltaCoins :: i64
  wtp_BalanceAfter :: i64

record LiveGiftAcceptedV1 =
  lga_EventType :: string
  lga_GiftOrderID :: u64
  lga_ViewerID :: u64
  lga_CreatorID :: u64
  lga_LiveSessionID :: u64
  lga_CampaignID :: "u64 option"
  lga_MatchID :: "u64 option"
  lga_GiftID :: string
  lga_Quantity :: u16
  lga_ChargedCoins :: u32
  lga_MatchPoints :: u32
  lga_DiamondReward :: u32
  lga_RequestID :: string

record LiveGiftRejectedV1 =
  lgr_EventType :: string
  lgr_ViewerID :: u64
  lgr_CreatorID :: u64
  lgr_LiveSessionID :: u64
  lgr_MatchID :: "u64 option"
  lgr_GiftID :: string
  lgr_Quantity :: u16
  lgr_RequestID :: string
  lgr_RejectCode :: string

record LiveCommentCreatedV1 =
  lcc_EventID :: string
  lcc_ViewerID :: u64
  lcc_CreatorID :: u64
  lcc_LiveSessionID :: u64

record LiveWatchMinuteV1 =
  lwm_EventID :: string
  lwm_ViewerID :: u64
  lwm_CreatorID :: u64
  lwm_LiveSessionID :: u64

record LiveSessionClosedV1 =
  lsc_LiveSessionID :: u64
  lsc_ClosedAtMs :: i64

section \<open>Marshalling\<close>

definition json_word :: "'a::len word \<Rightarrow> json" where
  "json_word w = JNum (uint w)"

text \<open>A pointer field: \<open>null\<close> when nil, or left out with \<open>omitempty\<close>.\<close>

definition json_ptr :: "u64 option \<Rightarrow> json" where
  "json_ptr p = (case p of None \<Rightarrow> JNull | Some v \<Rightarrow> json_word v)"

definition omitempty :: "string \<Rightarrow> u64 option \<Rightarrow> (string \<times> json) list" where
  "omitempty k p = (case p of None \<Rightarrow> [] | Some v \<Rightarrow> [(k, json_word v)])"

definition marshal_wallet_posted :: "WalletTransactionPostedV1 \<Rightarrow> json" where
  "marshal_wallet_posted v = JObj
     [(''tx_id'', json_word (wtp_TxID v)), (''tx_type'', JStr (wtp_TxType v)),
      (''actor_user_id'', json_word (wtp_ActorUserID v)), (''request_id'', JStr (wtp_RequestID v)),
      (''delta_coins'', JNum (wtp_DeltaCoins v)), (''balance_after'', JNum (wtp_BalanceAfter v))]"

definition marshal_gift_accepted :: "LiveGiftAcceptedV1 \<Rightarrow> json" where
  "marshal_gift_accepted v = JObj
     ([(''event_type'', JStr (lga_EventType v)), (''gift_order_id'', json_word (lga_GiftOrderID v)),
       (''viewer_id'', json_word (lga_ViewerID v)), (''creator_id'', json_word (lga_CreatorID v)),
       (''live_session_id'', json_word (lga_LiveSessionID v))]
      @ omitempty ''campaign_id'' (lga_CampaignID v) @ omitempty ''match_id'' (lga_MatchID v) @
      [(''gift_id'', JStr (lga_GiftID v)), (''quantity'', json_word (lga_Quantity v)),
       (''charged_coins'', json_word (lga_ChargedCoins v)),
       (''match_points_added'', json_word (lga_MatchPoints v)),
       (''diamond_reward'', json_word (lga_DiamondReward v)),
       (''request_id'', JStr (lga_RequestID v))])"

definition marshal_gift_rejected :: "LiveGiftRejectedV1 \<Rightarrow> json" where
  "marshal_gift_rejected v = JObj
     ([(''event_type'', JStr (lgr_EventType v)), (''viewer_id'', json_word (lgr_ViewerID v)),
       (''creator_id'', json_word (lgr_CreatorID v)),
       (''live_session_id'', json_word (lgr_LiveSessionID v))]
      @ omitempty ''match_id'' (lgr_MatchID v) @
      [(''gift_id'', JStr (lgr_GiftID v)), (''quantity'', json_word (lgr_Quantity v)),
       (''request_id'', JStr (lgr_RequestID v)), (''reject_code'', JStr (lgr_RejectCode v))])"

definition marshal_comment :: "LiveCommentCreatedV1 \<Rightarrow> json" where
  "marshal_comment v = JObj
     [(''event_id'', JStr (lcc_EventID v)), (''viewer_id'', json_word (lcc_ViewerID v)),
      (''creator_id'', json_word (lcc_CreatorID v)),
      (''live_session_id'', json_word (lcc_LiveSessionID v))]"

definition marshal_watch_minute :: "LiveWatchMinuteV1 \<Rightarrow> json" where
  "marshal_watch_minute v = JObj
     [(''event_id'', JStr (lwm_EventID v)), (''viewer_id'', json_word (lwm_ViewerID v)),
      (''creator_id'', json_word (lwm_CreatorID v)),
      (''live_session_id'', json_word (lwm_LiveSessionID v))]"

definition marshal_session_closed :: "LiveSessionClosedV1 \<Rightarrow> json" where
  "marshal_session_closed v = JObj
     [(''live_session_id'', json_word (lsc_LiveSessionID v)),
      (''closed_at_ms'', JNum (lsc_ClosedAtMs v))]"

text \<open>
  \<open>MarshalJSONString\<close>: the payload's JSON and no error, since none of the structs holds a
  value that \<open>json.Marshal\<close> refuses.
\<close>

definition MarshalJSONString :: "json \<Rightarrow> go_error + json" where
  "MarshalJSONString v = Inr v"

end
