(* ===== verification/Wallet.thy ===== *)
theory Wallet
  imports Retry Events
begin

text \<open>
  Recharges (\<open>internal/service/service.go\<close>, \<open>internal/service/errors.go\<close>): the double-entry
  postings of a recharge, their zero-sum guard, and the transaction that credits the wallet
  once per \<open>(viewer, request id)\<close>.
\<close>

section \<open>Data\<close>

definition walletTopic :: string where
  "walletTopic = ''wallet.transaction.posted.v1''"

definition txTypeRecharge :: string where
  "txTypeRecharge = ''RECHARGE''"

record RechargeRequest =
  rq_RequestID :: string
  rq_ViewerID :: u64
  rq_Coins :: u32
  rq_PaymentRef :: string

record RechargeResponse =
  rs_TxID :: u64
  rs_ViewerID :: u64
  rs_CoinsAdded :: u32
  rs_NewBalance :: i64
  rs_Idempotency :: string

record LedgerEntry =
  AccountCode :: string
  Amount :: i64

definition errValidation :: AppError where
  "errValidation =
     \<lparr>HTTPStatus = 400, Code = ''VALIDATION_ERROR'', Message = ''invalid request payload''\<rparr>"

definition errPayloadMismatch :: AppError where
  "errPayloadMismatch =
     \<lparr>HTTPStatus = 409, Code = ''IDEMPOTENCY_PAYLOAD_MISMATCH'',
      Message = ''same request_id with different payload''\<rparr>"

definition AppError_Error :: "AppError \<Rightarrow> string" where
  "AppError_Error a = Code a @ '': '' @ Message a"

definition RechargeRequest_json :: "RechargeRequest \<Rightarrow> json" where
  "RechargeRequest_json req = JObj
     [(''request_id'', JStr (rq_RequestID req)), (''viewer_id'', json_word (rq_ViewerID req)),
      (''coins'', json_word (rq_Coins req)), (''payment_ref'', JStr (rq_PaymentRef req))]"

section \<open>Postings\<close>

definition user_coins :: "u64 \<Rightarrow> string" where
  "user_coins v = ''USER_COINS:'' @ FormatUint v"

definition BuildRechargeEntries :: "u64 \<Rightarrow> u32 \<Rightarrow> LedgerEntry list" where
  "BuildRechargeEntries viewerID coins =
     (let amount = uint coins in
      [\<lparr>AccountCode = user_coins viewerID, Amount = amount\<rparr>,
       \<lparr>AccountCode = ''SYSTEM_TOPUP_SOURCE'', Amount = wrap64 (- amount)\<rparr>])"

definition SumLedgerEntries :: "LedgerEntry list \<Rightarrow> i64" where
  "SumLedgerEntries entries = foldl (\<lambda>sum e. wrap64 (sum + Amount e)) 0 entries"

fun bytes_loop :: "'a list \<Rightarrow> 'a list \<Rightarrow> bool" where
  "bytes_loop (x # xs) (y # ys) = (if x \<noteq> y then False else bytes_loop xs ys)"
| "bytes_loop _ _ = True"

definition bytesEqual :: "byte list \<Rightarrow> byte list \<Rightarrow> bool" where
  "bytesEqual a b = (if length a \<noteq> length b then False else bytes_loop a b)"

text \<open>The loop that inserts the postings one by one.\<close>

fun insert_entries ::
  "env \<Rightarrow> u64 \<Rightarrow> LedgerEntry list \<Rightarrow> 'b outcome prog \<Rightarrow> 'b outcome prog" where
  "insert_entries e txID [] rest = rest"
| "insert_entries e txID (x # xs) rest =
     check (exec e (InsertWalletEntry (collate e) txID (AccountCode x) (Amount x)))
       (\<lambda>_. insert_entries e txID xs rest)"

section \<open>Recharge\<close>

definition recharge_replayed :: "RechargeRequest \<Rightarrow> RechargeRow \<Rightarrow> RechargeResponse" where
  "recharge_replayed req ex =
     \<lparr>rs_TxID = rr_TxID ex, rs_ViewerID = rq_ViewerID req, rs_CoinsAdded = rr_Coins ex,
      rs_NewBalance = rr_ResultingBalance ex, rs_Idempotency = ''replayed''\<rparr>"

text \<open>The part of the transaction after the idempotency check found no earlier request.\<close>

definition recharge_post ::
  "env \<Rightarrow> RechargeRequest \<Rightarrow> byte list \<Rightarrow> RechargeResponse outcome prog" where
  "recharge_post e req bodyHash =
     check (exec e (upsert_wallet_account (rq_ViewerID req))) (\<lambda>_.
     check (exec e (GetWalletAccountForUpdate (rq_ViewerID req))) (\<lambda>currentBalance.
     check (exec_tx_insert e (InsertWalletTransaction (collate e) RECHARGE (rq_ViewerID req)
              (rq_RequestID req) bodyHash)) (\<lambda>txID64.
     if txID64 < 1 then ret (Err (Errorf (''invalid tx id generated: '' @ FormatInt txID64)))
     else
       let txID = (of_int txID64 :: u64);
           entries = BuildRechargeEntries (rq_ViewerID req) (rq_Coins req)
       in
       if SumLedgerEntries entries \<noteq> 0
         then ret (Err (Errorf ''ledger imbalance: recharge entries do not sum to zero''))
       else insert_entries e txID entries (
         let newBalance = wrap64 (currentBalance + uint (rq_Coins req)) in
         check (exec e (UpdateWalletBalance newBalance (rq_ViewerID req))) (\<lambda>_.
         check (exec e (InsertRechargeRequest (collate e)
           \<lparr>rr_ViewerID = rq_ViewerID req, rr_RequestID = rq_RequestID req,
            rr_BodyHash = bodyHash, rr_Coins = rq_Coins req, rr_PaymentRef = rq_PaymentRef req,
            rr_ResultingBalance = newBalance, rr_TxID = txID, rr_CreatedAt = 0\<rparr>)) (\<lambda>_.
         (case MarshalJSONString (marshal_wallet_posted
             \<lparr>wtp_TxID = txID, wtp_TxType = txTypeRecharge, wtp_ActorUserID = rq_ViewerID req,
              wtp_RequestID = rq_RequestID req, wtp_DeltaCoins = uint (rq_Coins req),
              wtp_BalanceAfter = newBalance\<rparr>) of
           Inl er \<Rightarrow> ret (Err er)
         | Inr payload \<Rightarrow>
             check (exec_outbox_insert e (InsertOutboxEvent walletTopic
                      (FormatUint (rq_ViewerID req)) payload)) (\<lambda>_.
             check (Commit e) (\<lambda>_.
             ret (Ok \<lparr>rs_TxID = txID, rs_ViewerID = rq_ViewerID req,
                       rs_CoinsAdded = rq_Coins req, rs_NewBalance = newBalance,
                       rs_Idempotency = ''created''\<rparr>))))))))))"

definition recharge_tx ::
  "env \<Rightarrow> RechargeRequest \<Rightarrow> byte list \<Rightarrow> RechargeResponse outcome prog" where
  "recharge_tx e req bodyHash =
     on_call (exec e (GetRechargeRequest (collate e) (rq_ViewerID req) (rq_RequestID req)))
       (\<lambda>er. if er \<noteq> ErrNoRows then ret (Err er) else recharge_post e req bodyHash)
       (\<lambda>existing.
          if \<not> bytesEqual (rr_BodyHash existing) bodyHash then ret (App errPayloadMismatch)
          else check (Commit e) (\<lambda>_. ret (Ok (recharge_replayed req existing))))"

definition Recharge ::
  "env \<Rightarrow> RechargeRequest \<Rightarrow> db \<Rightarrow> RechargeResponse outcome \<times> db" where
  "Recharge e req d =
     (if blank (rq_RequestID req) \<or> rq_ViewerID req = 0 \<or> blank (rq_PaymentRef req)
        then (App errValidation, d)
      else if rq_Coins req < 1 \<or> rq_Coins req > 100000
        then (App \<lparr>HTTPStatus = 400, Code = ''VALIDATION_ERROR'',
                   Message = ''coins must be in [1,100000]''\<rparr>, d)
      else case BodyHashHex (RechargeRequest_json req) of
        Inl er \<Rightarrow> (Err er, d)
      | Inr (_, bodyHash) \<Rightarrow> in_tx e (recharge_tx e req bodyHash) Err d)"

section \<open>Postings and hashes\<close>

lemma bytes_loop_eq: "length a = length b \<Longrightarrow> bytes_loop a b \<longleftrightarrow> a = b"
  by (induction a b rule: list_induct2) auto

lemma bytesEqual_iff [simp]: "bytesEqual a b \<longleftrightarrow> a = b"
  by (auto simp: bytesEqual_def bytes_loop_eq)

lemma SumLedgerEntries_wraps:
  "SumLedgerEntries es = wrap64 (sum_list (map Amount es))"
proof -
  have "foldl (\<lambda>sum e. wrap64 (sum + Amount e)) (wrap64 a) es = wrap64 (a + sum_list (map Amount es))"
    for a by (induction es arbitrary: a) (simp_all add: add.assoc)
  from this [of 0] show ?thesis by (simp add: SumLedgerEntries_def)
qed

lemma in_i64_uint_u32 [simp]: "in_i64 (uint (w :: u32))" "in_i64 (- uint (w :: u32))"
proof -
  have "uint w < 2 ^ 32" "0 \<le> uint w" using uint_bounded [of w] by simp_all
  then show "in_i64 (uint w)" "in_i64 (- uint w)" by (auto simp: in_i64_def intro: order_trans [of _ 0] le_less_trans [of _ 0])
qed

lemma BuildRechargeEntries_eq:
  "BuildRechargeEntries v n =
     [\<lparr>AccountCode = user_coins v, Amount = uint n\<rparr>,
      \<lparr>AccountCode = ''SYSTEM_TOPUP_SOURCE'', Amount = - uint n\<rparr>]"
  by (simp add: BuildRechargeEntries_def wrap64_id Let_def)

lemma recharge_entries_balanced: "SumLedgerEntries (BuildRechargeEntries v n) = 0"
  by (simp add: SumLedgerEntries_wraps BuildRechargeEntries_eq)

section \<open>The effect of a committed recharge\<close>

definition request_hash :: "json \<Rightarrow> byte list" where
  "request_hash v = sha256 (bytes_of (json_text v))"

lemma BodyHashHex_eq: "BodyHashHex v = Inr (hex_of_bytes (request_hash v), request_hash v)"
  by (simp add: BodyHashHex_def request_hash_def Let_def)

text \<open>\<open>ts\<close> are the times of the transaction's statements, in their order.\<close>

definition recharged :: "RechargeRequest \<Rightarrow> (nat \<Rightarrow> micros) \<Rightarrow> db \<Rightarrow> db" where
  "recharged req ts d =
     (let v = rq_ViewerID req; rid = rq_RequestID req; txID = (of_nat (next_tx_id d) :: u64);
          h = request_hash (RechargeRequest_json req);
          bal = wrap64 (balance_of v d + uint (rq_Coins req))
      in d\<lparr>
        wallet_accounts := set_balance bal v (ts 5) (ensure_account v (ts 0) (wallet_accounts d)),
        wallet_transactions := wallet_transactions d @
          [\<lparr>wt_TxID = txID, wt_TxType = RECHARGE, wt_ActorUserID = v, wt_RequestID = rid,
            wt_BodyHash = Some h, wt_CreatedAt = ts 2\<rparr>],
        wallet_entries := wallet_entries d @
          [\<lparr>we_TxID = txID, we_AccountCode = user_coins v, we_Amount = uint (rq_Coins req)\<rparr>,
           \<lparr>we_TxID = txID, we_AccountCode = ''SYSTEM_TOPUP_SOURCE'',
            we_Amount = - uint (rq_Coins req)\<rparr>],
        recharge_requests := recharge_requests d @
          [\<lparr>rr_ViewerID = v, rr_RequestID = rid, rr_BodyHash = h, rr_Coins = rq_Coins req,
            rr_PaymentRef = rq_PaymentRef req, rr_ResultingBalance = bal, rr_TxID = txID,
            rr_CreatedAt = ts 6\<rparr>],
        outbox_events := outbox_events d @
          [\<lparr>oe_EventID = of_nat (next_event_id d), oe_Topic = walletTopic,
            oe_EventKey = FormatUint v,
            oe_PayloadJson = marshal_wallet_posted
              \<lparr>wtp_TxID = txID, wtp_TxType = txTypeRecharge, wtp_ActorUserID = v,
               wtp_RequestID = rid, wtp_DeltaCoins = uint (rq_Coins req),
               wtp_BalanceAfter = bal\<rparr>,
            oe_PublishedAt = None, oe_CreatedAt = ts 7\<rparr>],
        next_tx_id := Suc (next_tx_id d),
        next_event_id := Suc (next_event_id d)\<rparr>)"

definition recharge_created :: "RechargeRequest \<Rightarrow> db \<Rightarrow> RechargeResponse" where
  "recharge_created req d =
     \<lparr>rs_TxID = of_nat (next_tx_id d), rs_ViewerID = rq_ViewerID req,
      rs_CoinsAdded = rq_Coins req,
      rs_NewBalance = wrap64 (balance_of (rq_ViewerID req) d + uint (rq_Coins req)),
      rs_Idempotency = ''created''\<rparr>"

definition recharge_known :: "env \<Rightarrow> RechargeRequest \<Rightarrow> db \<Rightarrow> RechargeRow option" where
  "recharge_known e req d =
     find (\<lambda>r. rr_ViewerID r = rq_ViewerID req \<and>
               collate e (rr_RequestID r) = collate e (rq_RequestID req)) (recharge_requests d)"

text \<open>What a request that posts the recharge found.\<close>

definition recharge_enabled :: "env \<Rightarrow> RechargeRequest \<Rightarrow> db \<Rightarrow> bool" where
  "recharge_enabled e req d \<longleftrightarrow>
     recharge_known e req d = None \<and> user_exists (rq_ViewerID req) d \<and>
     \<not> list_ex (\<lambda>w. wt_ActorUserID w = rq_ViewerID req \<and> wt_TxType w = RECHARGE \<and>
          collate e (wt_RequestID w) = collate e (rq_RequestID req)) (wallet_transactions d) \<and>
     0 < next_tx_id d \<and> next_tx_id d < 2 ^ 63 \<and> next_event_id d < 2 ^ 64"

text \<open>A validated request, and what \<open>Recharge\<close> may do, whatever calls fail.\<close>

definition recharge_valid :: "RechargeRequest \<Rightarrow> bool" where
  "recharge_valid req \<longleftrightarrow>
     \<not> blank (rq_RequestID req) \<and> rq_ViewerID req \<noteq> 0 \<and> \<not> blank (rq_PaymentRef req) \<and>
     1 \<le> rq_Coins req \<and> rq_Coins req \<le> 100000"

definition recharge_kept ::
  "env \<Rightarrow> RechargeRequest \<Rightarrow> db \<Rightarrow> RechargeResponse outcome \<Rightarrow> bool" where
  "recharge_kept e req d r \<longleftrightarrow>
     (case r of
       Err er \<Rightarrow> recharge_valid req
     | App a \<Rightarrow> if recharge_valid req
         then a = errPayloadMismatch \<and> (\<exists>ex. recharge_known e req d = Some ex \<and>
                rr_BodyHash ex \<noteq> request_hash (RechargeRequest_json req))
         else HTTPStatus a = 400
     | Ok rs \<Rightarrow> recharge_valid req \<and> (\<exists>ex. recharge_known e req d = Some ex \<and>
         rr_BodyHash ex = request_hash (RechargeRequest_json req) \<and> rs = recharge_replayed req ex))"

definition recharge_result ::
  "env \<Rightarrow> RechargeRequest \<Rightarrow> db \<Rightarrow> RechargeResponse outcome \<Rightarrow> db \<Rightarrow> bool" where
  "recharge_result e req d r d' \<longleftrightarrow>
     untouched d d' \<and> recharge_kept e req d r \<or>
     (\<exists>ts. d' = recharged req ts d) \<and> recharge_valid req \<and> recharge_enabled e req d \<and>
       (r = Ok (recharge_created req d) \<or> (\<exists>er. r = Err er))"

lemma abortable_recharge:
  "recharge_valid req \<Longrightarrow> abortable Err d (\<lambda>r c. recharge_result e req d r (cdb c))"
  by (simp add: abortable_def recharge_result_def recharge_kept_def)

lemma recharge_committed:
  assumes "recharge_valid req" and "D = recharged req ts d" and "recharge_enabled e req d"
    and "r = Ok (recharge_created req d) \<or> (\<exists>er. r = Err er)"
  shows "recharge_result e req d r D"
  using assms by (auto simp: recharge_result_def)

lemma recharge_post_wp:
  assumes q: "quiet e" and v: "recharge_valid req" and new: "recharge_known e req d = None"
  shows "wp (recharge_post e req (request_hash (RechargeRequest_json req)))
           (\<lambda>r c. recharge_result e req d r (cdb c)) (at d id n)"
proof -
  note ab = abortable_recharge [OF v]
  note com = recharge_committed [OF v, of _ "\<lambda>i. now e (n + i)"]
  show ?thesis
    unfolding recharge_post_def Let_def recharge_entries_balanced exec_tx_insert_def
      exec_outbox_insert_def MarshalJSONString_def sum.case
    apply (rule vc_exec [OF q ab], simp)
    apply (rule vc_exec [OF q ab], simp)
    apply (rule vc_exec_alloc [OF q ab], simp, simp)
    apply (rule vc_guard [OF ab], simp)
    apply (simp only: if_False simp_thms BuildRechargeEntries_eq insert_entries.simps)
    apply (rule vc_exec [OF q ab], simp)+
    apply (rule vc_exec_alloc [OF q ab], simp, simp)
    apply (rule vc_commit [OF q ab], simp)
     apply (simp_all add: sql_spec)
     apply (elim exE conjE, drule find_ensure_balance,
        rule com; simp add: recharge_enabled_def recharge_created_def recharged_def Let_def new
          last_insert_id_pos call_offset)+
    done
qed

lemma recharge_valid_guards:
  "recharge_valid req \<longleftrightarrow>
     \<not> (blank (rq_RequestID req) \<or> rq_ViewerID req = 0 \<or> blank (rq_PaymentRef req)) \<and>
     \<not> (rq_Coins req < 1 \<or> rq_Coins req > 100000)"
  by (auto simp: recharge_valid_def not_less word_less_1 word_le_less_eq)

lemma Recharge_valid:
  "recharge_valid req \<Longrightarrow>
     Recharge e req d =
       in_tx e (recharge_tx e req (request_hash (RechargeRequest_json req))) Err d"
  by (simp add: Recharge_def recharge_valid_guards BodyHashHex_eq)

lemma Recharge_invalid:
  "\<not> recharge_valid req \<Longrightarrow> \<exists>a. Recharge e req d = (App a, d) \<and> HTTPStatus a = 400"
  by (auto simp: Recharge_def recharge_valid_guards errValidation_def)

lemma recharge_tx_wp:
  assumes q: "quiet e" and v: "recharge_valid req"
  shows "wp (recharge_tx e req (request_hash (RechargeRequest_json req)))
           (\<lambda>r c. recharge_result e req d r (cdb c)) (at d id n)"
  unfolding recharge_tx_def
proof (rule vc_on_exec [OF q], goal_cases)
  case (1 er c')
  then show ?case using v by (simp add: recharge_result_def recharge_kept_def)
next
  case (2 er w)
  then have "recharge_known e req d = None" "w = id" "er = ErrNoRows"
    by (simp_all add: sql_spec recharge_known_def)
  then show ?case using recharge_post_wp [OF q v] by simp
next
  case (3 ex w)
  then have ex: "recharge_known e req d = Some ex" "w = id"
    by (simp_all add: sql_spec recharge_known_def)
  have kept: "recharge_result e req d (App errPayloadMismatch) d"
    if "rr_BodyHash ex \<noteq> request_hash (RechargeRequest_json req)"
    using ex v that by (simp add: recharge_result_def recharge_kept_def)
  have replay: "recharge_result e req d (Ok (recharge_replayed req ex)) d"
    "recharge_result e req d (Err er) d"
    if "rr_BodyHash ex = request_hash (RechargeRequest_json req)" for er
    using ex v that by (simp_all add: recharge_result_def recharge_kept_def)
  show ?case
    using kept replay ex by (auto intro!: vc_commit [OF q abortable_recharge [OF v]])
qed

lemma Recharge_cases:
  assumes q: "quiet e" and run: "Recharge e req d = (r, d')"
  shows "recharge_result e req d r d'"
proof (cases "recharge_valid req")
  case True
  show ?thesis
    by (rule in_tx_wp [OF run [unfolded Recharge_valid [OF True]], of "recharge_result e req d"])
      (use q True recharge_tx_wp in \<open>auto simp: recharge_result_def recharge_kept_def\<close>)
next
  case False
  with Recharge_invalid [OF False, of e d] run show ?thesis
    by (auto simp: recharge_result_def recharge_kept_def)
qed

text \<open>Without faults an enabled request is carried out.\<close>

definition recharge_fits :: "env \<Rightarrow> RechargeRequest \<Rightarrow> db \<Rightarrow> bool" where
  "recharge_fits e req d \<longleftrightarrow>
     \<not> too_long 64 (rq_RequestID req) \<and> \<not> too_long 128 (rq_PaymentRef req) \<and>
     collate e (user_coins (rq_ViewerID req)) \<noteq> collate e ''SYSTEM_TOPUP_SOURCE'' \<and>
     \<not> list_ex (\<lambda>x. we_TxID x = of_nat (next_tx_id d)) (wallet_entries d)"

lemma user_coins_fits: "\<not> too_long 64 (user_coins v)"
  using length_FormatUint [of v] by (intro not_too_long) (simp add: user_coins_def)

lemma Recharge_runs:
  assumes "calm e" and "recharge_valid req" and en: "recharge_enabled e req d"
    and fits: "recharge_fits e req d"
  shows "\<exists>ts. Recharge e req d = (Ok (recharge_created req d), recharged req ts d)"
proof -
  let ?n = "next_tx_id d" and ?v = "rq_ViewerID req"
  have new: "find (\<lambda>r. rr_ViewerID r = ?v \<and>
      collate e (rr_RequestID r) = collate e (rq_RequestID req)) (recharge_requests d) = None"
    and n: "\<not> last_insert_id ?n < 1" "?n < 2 ^ 64"
    using en last_insert_id_pos [of ?n] by (simp_all add: recharge_enabled_def recharge_known_def)
  have dup: "\<not> list_ex (\<lambda>x. we_TxID x = of_nat ?n \<and> P x) (wallet_entries d)"
    "\<not> list_ex (\<lambda>r. rr_ViewerID r = ?v \<and>
      collate e (rr_RequestID r) = collate e (rq_RequestID req)) (recharge_requests d)" for P
    using fits new by (auto simp: recharge_fits_def list_ex_iff find_None_iff)
  obtain a where a: "find (\<lambda>a. wa_UserID a = ?v)
      (ensure_account ?v (now e (Suc (Suc 0))) (wallet_accounts d)) = Some a"
      "wa_AvailableBalance a = balance_of ?v d"
    using find_ensure_account find_ensure_balance by blast
  have "fst (Recharge e req d) = Ok (recharge_created req d)"
    using assms(1,2) en fits new n dup a
    by (simp add: Recharge_valid run_in_tx recharge_tx_def recharge_post_def run_simps
        exec_tx_insert_def exec_outbox_insert_def statement_defs recharge_fits_def
        recharge_enabled_def BuildRechargeEntries_eq SumLedgerEntries_wraps Let_def not_too_long
        user_coins_fits MarshalJSONString_def walletTopic_def ret_def recharge_created_def)
  then obtain d' where run: "Recharge e req d = (Ok (recharge_created req d), d')"
    by (metis prod.collapse)
  with Recharge_cases [OF _ this] en assms(1) show ?thesis
    by (auto simp: recharge_result_def recharge_kept_def recharge_enabled_def)
qed

section \<open>Retries\<close>

definition recharge_seen :: "(string \<Rightarrow> string) \<Rightarrow> RechargeRequest \<Rightarrow> db \<Rightarrow> bool" where
  "recharge_seen coll req d \<longleftrightarrow>
     list_ex (\<lambda>r. rr_ViewerID r = rq_ViewerID req \<and> coll (rr_RequestID r) = coll (rq_RequestID req))
       (recharge_requests d)"

definition recharge_effect :: "env \<Rightarrow> RechargeRequest \<Rightarrow> db \<Rightarrow> db \<Rightarrow> bool" where
  "recharge_effect e req d d' \<longleftrightarrow>
     recharge_valid req \<and> recharge_enabled e req d \<and> (\<exists>ts. d' = recharged req ts d)"

lemma recharge_seen_known: "recharge_seen (collate e) req d \<longleftrightarrow> recharge_known e req d \<noteq> None"
  by (auto simp: recharge_seen_def recharge_known_def find_None_iff list_ex_iff)

interpretation recharge_requests: deduplicating Recharge recharge_effect recharge_seen
proof
  fix e q d r d'
  show "quiet e \<Longrightarrow> Recharge e q d = (r, d') \<Longrightarrow> untouched d d' \<or> recharge_effect e q d d'"
    by (auto dest: Recharge_cases simp: recharge_result_def recharge_effect_def)
  show "recharge_effect e q d d' \<Longrightarrow> \<not> recharge_seen (collate e) q d"
    by (simp add: recharge_effect_def recharge_seen_known recharge_enabled_def)
  show "recharge_effect e q d d' \<Longrightarrow> recharge_seen (collate e) q d'"
    by (auto simp: recharge_effect_def recharge_seen_def recharged_def Let_def)
next
  fix d d' coll and q :: RechargeRequest
  show "untouched d d' \<Longrightarrow> recharge_seen coll q d' = recharge_seen coll q d"
    by (simp add: recharge_seen_def untouched_iff)
qed

text \<open>A retry without faults of a request that is known is answered from its row.\<close>

lemma Recharge_known:
  assumes "calm e" and "recharge_valid req" and "recharge_known e req d = Some ex"
  shows "Recharge e req d =
           (if rr_BodyHash ex = request_hash (RechargeRequest_json req)
            then Ok (recharge_replayed req ex) else App errPayloadMismatch, d)"
proof -
  have "find (\<lambda>r. rr_ViewerID r = rq_ViewerID req \<and>
      collate e (rr_RequestID r) = collate e (rq_RequestID req)) (recharge_requests d) = Some ex"
    using assms(3) by (simp add: recharge_known_def)
  then show ?thesis
    using assms(1) by (simp add: Recharge_valid [OF assms(2)] run_in_tx recharge_tx_def run_simps
        GetRechargeRequest_def ret_def)
qed

lemma recharged_known:
  assumes "recharge_known e req d = None" and "collate e' = collate e"
  obtains ex where "recharge_known e' req (recharged req ts d) = Some ex"
    "rr_BodyHash ex = request_hash (RechargeRequest_json req)"
    "recharge_replayed req ex = (recharge_created req d)\<lparr>rs_Idempotency := ''replayed''\<rparr>"
  using assms by (auto simp: recharge_known_def recharged_def Let_def find_append
      recharge_replayed_def recharge_created_def)

lemma recharge_retry:
  assumes eff: "recharge_effect e req d d1" and "calm e'" and coll: "collate e' = collate e"
  shows "Recharge e' req d1 = (Ok ((recharge_created req d)\<lparr>rs_Idempotency := ''replayed''\<rparr>), d1)"
proof -
  obtain ts where d1: "d1 = recharged req ts d" and v: "recharge_valid req"
    and new: "recharge_known e req d = None"
    using eff by (auto simp: recharge_effect_def recharge_enabled_def)
  obtain ex where "recharge_known e' req d1 = Some ex"
      "rr_BodyHash ex = request_hash (RechargeRequest_json req)"
      "recharge_replayed req ex = (recharge_created req d)\<lparr>rs_Idempotency := ''replayed''\<rparr>"
    unfolding d1 by (rule recharged_known [OF new coll])
  with Recharge_known [OF assms(2) v] show ?thesis by simp
qed

end
