(* ===== verification/Gift.thy ===== *)
theory Gift
  imports Wallet
begin

text \<open>
  Gifts (\<open>internal/service/gift.go\<close>): the policy checks, the charge, the double-entry debit,
  the gift order and the two outbox events of one transaction; rejected gifts, which leave an
  order and an event of their own; and the replay of a known \<open>(viewer, request id)\<close>.
\<close>

section \<open>Data\<close>

definition txTypeGiftDebit :: string where
  "txTypeGiftDebit = ''GIFT_DEBIT''"

definition giftAcceptedTopic :: string where
  "giftAcceptedTopic = ''live.gift.accepted.v1''"

definition giftRejectedTopic :: string where
  "giftRejectedTopic = ''live.gift.rejected.v1''"

record GiftRequest =
  gq_RequestID :: string
  gq_ViewerID :: u64
  gq_CreatorID :: u64
  gq_LiveSessionID :: u64
  gq_MatchID :: "u64 option"
  gq_GiftID :: string
  gq_Quantity :: u16
  gq_SentAtMS :: i64

record GiftResponse =
  gs_GiftOrderID :: u64
  gs_Accepted :: bool
  gs_ChargedCoins :: u32
  gs_MatchPointsAdded :: u32
  gs_DiamondReward :: u32
  gs_NewBalance :: i64
  gs_Idempotency :: string

definition GiftRequest_json :: "GiftRequest \<Rightarrow> json" where
  "GiftRequest_json req = JObj
     [(''request_id'', JStr (gq_RequestID req)), (''viewer_id'', json_word (gq_ViewerID req)),
      (''creator_id'', json_word (gq_CreatorID req)),
      (''live_session_id'', json_word (gq_LiveSessionID req)),
      (''match_id'', json_ptr (gq_MatchID req)), (''gift_id'', JStr (gq_GiftID req)),
      (''quantity'', json_word (gq_Quantity req)), (''sent_at_ms'', JNum (gq_SentAtMS req))]"

section \<open>Helpers\<close>

definition isDupKey :: "go_error \<Rightarrow> bool" where
  "isDupKey er = (case er of MySQLError n \<Rightarrow> n = mysql_dup_entry | _ \<Rightarrow> False)"

definition nullableUint64 :: "u64 option \<Rightarrow> u64 option" where
  "nullableUint64 v = (case v of None \<Rightarrow> None | Some x \<Rightarrow> Some x)"

definition int64ToUint32 :: "i64 \<Rightarrow> string \<Rightarrow> go_error + u32" where
  "int64ToUint32 v name =
     (if v < 0 \<or> v > 4294967295
        then Inl (Errorf (name @ '' overflow uint32: '' @ FormatInt v))
      else Inr (of_int v))"

definition int64ToUint64 :: "i64 \<Rightarrow> string \<Rightarrow> go_error + u64" where
  "int64ToUint64 v name =
     (if v < 0 then Inl (Errorf (name @ '' overflow uint64: '' @ FormatInt v))
      else Inr (of_int v))"

definition mapRejectCodeToAppError :: "string \<Rightarrow> AppError" where
  "mapRejectCodeToAppError code =
     (if code = ''CREATOR_NOT_ELIGIBLE''
        then \<lparr>HTTPStatus = 403, Code = code, Message = ''creator is not eligible''\<rparr>
      else if code = ''LIVE_SESSION_NOT_FOUND''
        then \<lparr>HTTPStatus = 404, Code = code, Message = ''live session not found''\<rparr>
      else if code = ''GIFT_NOT_FOUND''
        then \<lparr>HTTPStatus = 404, Code = code, Message = ''gift not found''\<rparr>
      else if code = ''LIVE_SESSION_CLOSED''
        then \<lparr>HTTPStatus = 409, Code = code, Message = ''live session closed''\<rparr>
      else if code = ''MATCH_CLOSED''
        then \<lparr>HTTPStatus = 409, Code = code, Message = ''match closed''\<rparr>
      else if code = ''INSUFFICIENT_BALANCE''
        then \<lparr>HTTPStatus = 409, Code = code, Message = ''insufficient balance''\<rparr>
      else \<lparr>HTTPStatus = 409, Code = code, Message = ''gift rejected''\<rparr>)"

text \<open>
  \<open>SELECT status, campaign_id\<close>: the campaign is scanned into a \<open>sql.NullInt64\<close>, which a
  value of the upper half of BIGINT UNSIGNED does not fit.
\<close>

definition select_session :: "u64 \<Rightarrow> micros \<Rightarrow> (LiveSessionsStatus \<times> i64 option) sql" where
  "select_session sid t d =
     (case find (\<lambda>s. ls_LiveSessionID s = sid) (live_sessions d) of
       None \<Rightarrow> (Inl ErrNoRows, id)
     | Some s \<Rightarrow>
         (case ls_CampaignID s of
           None \<Rightarrow> (Inr (ls_Status s, None), id)
         | Some cid \<Rightarrow>
             if 2 ^ 63 \<le> uint cid
               then (Inl (Errorf ''converting driver.Value type uint64 to a int64: value out of range''), id)
             else (Inr (ls_Status s, Some (uint cid)), id)))"

section \<open>Replay\<close>

definition gift_replayed :: "GiftOrder \<Rightarrow> GiftResponse" where
  "gift_replayed ex =
     \<lparr>gs_GiftOrderID = go_GiftOrderID ex, gs_Accepted = True,
      gs_ChargedCoins = go_ChargedCoins ex, gs_MatchPointsAdded = go_MatchPointsAdded ex,
      gs_DiamondReward = go_DiamondReward ex,
      gs_NewBalance = (case go_PostBalance ex of None \<Rightarrow> 0 | Some b \<Rightarrow> b),
      gs_Idempotency = ''replayed''\<rparr>"

definition replay_answer ::
  "GiftOrder \<Rightarrow> byte list \<Rightarrow> GiftResponse option \<times> AppError option" where
  "replay_answer ex bodyHash =
     (if \<not> bytesEqual (go_BodyHash ex) bodyHash then (None, Some errPayloadMismatch)
      else if go_Status ex = ACCEPTED then (Some (gift_replayed ex), None)
      else (None, Some (mapRejectCodeToAppError
             (case go_RejectCode ex of None \<Rightarrow> ''REJECTED'' | Some code \<Rightarrow> code))))"

definition replayGiftIfExists ::
  "env \<Rightarrow> GiftRequest \<Rightarrow> byte list \<Rightarrow> (GiftResponse option \<times> AppError option) stm" where
  "replayGiftIfExists e req bodyHash =
     on_call (exec e (GetGiftOrderByRequest (collate e) (gq_ViewerID req) (gq_RequestID req)))
       (\<lambda>er. if er = ErrNoRows then ret (Inr (None, None)) else ret (Inl er))
       (\<lambda>ex. ret (Inr (replay_answer ex bodyHash)))"

text \<open>Answering from a replay, as \<open>SendGift\<close> does in three places.\<close>

definition answer_replay ::
  "env \<Rightarrow> GiftRequest \<Rightarrow> byte list \<Rightarrow> GiftResponse outcome prog \<Rightarrow> GiftResponse outcome prog" where
  "answer_replay e req bodyHash otherwise =
     check (replayGiftIfExists e req bodyHash) (\<lambda>(replayed, appErr).
       case appErr of
         Some a \<Rightarrow> ret (App a)
       | None \<Rightarrow>
           (case replayed of
             Some rs \<Rightarrow> check (Commit e) (\<lambda>_. ret (Ok rs))
           | None \<Rightarrow> otherwise))"

section \<open>Rejection\<close>

definition order_row ::
  "GiftRequest \<Rightarrow> byte list \<Rightarrow> GiftOrdersStatus \<Rightarrow> string option \<Rightarrow> i64 option \<Rightarrow> GiftOrder" where
  "order_row req bodyHash st code post =
     \<lparr>go_GiftOrderID = 0, go_ViewerID = gq_ViewerID req, go_CreatorID = gq_CreatorID req,
      go_LiveSessionID = gq_LiveSessionID req, go_MatchID = nullableUint64 (gq_MatchID req),
      go_GiftID = gq_GiftID req, go_Quantity = gq_Quantity req, go_ChargedCoins = 0,
      go_MatchPointsAdded = 0, go_DiamondReward = 0, go_PostBalance = post, go_Status = st,
      go_RejectCode = code, go_RequestID = gq_RequestID req, go_BodyHash = bodyHash,
      go_CreatedAt = 0\<rparr>"

definition gift_rejected_event :: "GiftRequest \<Rightarrow> string \<Rightarrow> json" where
  "gift_rejected_event req rejectCode = marshal_gift_rejected
     \<lparr>lgr_EventType = giftRejectedTopic, lgr_ViewerID = gq_ViewerID req,
      lgr_CreatorID = gq_CreatorID req, lgr_LiveSessionID = gq_LiveSessionID req,
      lgr_MatchID = gq_MatchID req, lgr_GiftID = gq_GiftID req, lgr_Quantity = gq_Quantity req,
      lgr_RequestID = gq_RequestID req, lgr_RejectCode = rejectCode\<rparr>"

definition rejection :: "string \<Rightarrow> int \<Rightarrow> AppError" where
  "rejection rejectCode httpStatus =
     \<lparr>HTTPStatus = httpStatus, Code = rejectCode,
      Message = ToLower (ReplaceAll_char rejectCode (CHR ''_'') (CHR '' ''))\<rparr>"

definition rejectGift ::
  "env \<Rightarrow> GiftRequest \<Rightarrow> byte list \<Rightarrow> string \<Rightarrow> int \<Rightarrow> GiftResponse outcome prog" where
  "rejectGift e req bodyHash rejectCode httpStatus =
     on_call (exec_order_insert e (InsertGiftOrder (collate e)
                (order_row req bodyHash REJECTED (Some rejectCode) None) 0 0 0))
       (\<lambda>er. if isDupKey er
         then check (replayGiftIfExists e req bodyHash) (\<lambda>(replayed, appErr).
           case replayed of
             Some rs \<Rightarrow> ret (Ok rs)
           | None \<Rightarrow>
               (case appErr of
                 Some a \<Rightarrow> check (Commit e) (\<lambda>_. ret (App a))
               | None \<Rightarrow> ret (Err er)))
         else ret (Err er))
       (\<lambda>_. case MarshalJSONString (gift_rejected_event req rejectCode) of
           Inl er \<Rightarrow> ret (Err er)
         | Inr rejectedPayload \<Rightarrow>
             check (exec_outbox_insert e (InsertOutboxEvent giftRejectedTopic
                      (FormatUint (gq_LiveSessionID req)) rejectedPayload)) (\<lambda>_.
             check (Commit e) (\<lambda>_. ret (App (rejection rejectCode httpStatus)))))"

section \<open>Eligibility of the creator\<close>

definition creator_policy :: "env \<Rightarrow> User \<Rightarrow> bool" where
  "creator_policy e u =
     (if us_AccountStanding u \<noteq> GOOD \<or> \<not> us_CanGoLive u \<or> \<not> us_LiveGiftsEnabled u then False
      else if us_AccountType u \<noteq> NORMAL then False
      else if EqualFold (simple_fold e) (us_RegionCode u) ''KR'' then us_AgeYears u \<ge> 19
      else us_AgeYears u \<ge> 18)"

definition isCreatorEligible :: "env \<Rightarrow> u64 \<Rightarrow> bool stm" where
  "isCreatorEligible e creatorID =
     on_call (exec e (GetUser creatorID))
       (\<lambda>er. if er = ErrNoRows then ret (Inr False) else ret (Inl er))
       (\<lambda>u. ret (Inr (creator_policy e u)))"

section \<open>Charging\<close>

definition gift_entries :: "u64 \<Rightarrow> i64 \<Rightarrow> LedgerEntry list" where
  "gift_entries viewerID charged =
     [\<lparr>AccountCode = user_coins viewerID, Amount = wrap64 (- charged)\<rparr>,
      \<lparr>AccountCode = ''PLATFORM_RESERVED_COINS'', Amount = charged\<rparr>]"

definition gift_accepted_event ::
  "GiftRequest \<Rightarrow> u64 \<Rightarrow> u64 option \<Rightarrow> u32 \<Rightarrow> u32 \<Rightarrow> u32 \<Rightarrow> json" where
  "gift_accepted_event req giftOrderID campaignIDPtr charged points diamonds =
     marshal_gift_accepted
     \<lparr>lga_EventType = giftAcceptedTopic, lga_GiftOrderID = giftOrderID,
      lga_ViewerID = gq_ViewerID req, lga_CreatorID = gq_CreatorID req,
      lga_LiveSessionID = gq_LiveSessionID req, lga_CampaignID = campaignIDPtr,
      lga_MatchID = gq_MatchID req, lga_GiftID = gq_GiftID req, lga_Quantity = gq_Quantity req,
      lga_ChargedCoins = charged, lga_MatchPoints = points, lga_DiamondReward = diamonds,
      lga_RequestID = gq_RequestID req\<rparr>"

definition gift_debit_event :: "GiftRequest \<Rightarrow> u64 \<Rightarrow> i64 \<Rightarrow> i64 \<Rightarrow> json" where
  "gift_debit_event req walletTxID charged newBalance = marshal_wallet_posted
     \<lparr>wtp_TxID = walletTxID, wtp_TxType = txTypeGiftDebit, wtp_ActorUserID = gq_ViewerID req,
      wtp_RequestID = gq_RequestID req, wtp_DeltaCoins = wrap64 (- charged),
      wtp_BalanceAfter = newBalance\<rparr>"

text \<open>The campaign of the session as the event carries it.\<close>

definition campaign_ptr :: "i64 option \<Rightarrow> go_error + u64 option" where
  "campaign_ptr campaignID =
     (case campaignID of
       None \<Rightarrow> Inr None
     | Some c \<Rightarrow>
         (case int64ToUint64 c ''campaign_id'' of
           Inl er \<Rightarrow> Inl er
         | Inr v \<Rightarrow> Inr (Some v)))"

text \<open>The statements after the order is in: the two events and the commit.\<close>

definition gift_publish ::
  "env \<Rightarrow> GiftRequest \<Rightarrow> i64 option \<Rightarrow> u64 \<Rightarrow> u64 \<Rightarrow> i64 \<Rightarrow> i64 \<Rightarrow> u32 \<Rightarrow> u32 \<Rightarrow> u32
     \<Rightarrow> GiftResponse outcome prog" where
  "gift_publish e req campaignID walletTxID giftOrderID charged newBalance cu pu du =
     (case MarshalJSONString (gift_debit_event req walletTxID charged newBalance) of
       Inl er \<Rightarrow> ret (Err er)
     | Inr walletPayload \<Rightarrow>
     check (exec_outbox_insert e (InsertOutboxEvent walletTopic (FormatUint (gq_ViewerID req))
              walletPayload)) (\<lambda>_.
     (case campaign_ptr campaignID of
       Inl er \<Rightarrow> ret (Err er)
     | Inr campaignIDPtr \<Rightarrow>
     (case MarshalJSONString (gift_accepted_event req giftOrderID campaignIDPtr cu pu du) of
       Inl er \<Rightarrow> ret (Err er)
     | Inr acceptedPayload \<Rightarrow>
     check (exec_outbox_insert e (InsertOutboxEvent giftAcceptedTopic
              (FormatUint (gq_LiveSessionID req)) acceptedPayload)) (\<lambda>_.
     check (Commit e) (\<lambda>_.
     ret (Ok \<lparr>gs_GiftOrderID = giftOrderID, gs_Accepted = True, gs_ChargedCoins = cu,
               gs_MatchPointsAdded = pu, gs_DiamondReward = du, gs_NewBalance = newBalance,
               gs_Idempotency = ''created''\<rparr>)))))))"

text \<open>The debit and the order.\<close>

definition gift_post ::
  "env \<Rightarrow> GiftRequest \<Rightarrow> byte list \<Rightarrow> i64 option \<Rightarrow> i64 \<Rightarrow> i64 \<Rightarrow> i64 \<Rightarrow> i64 \<Rightarrow> u32 \<Rightarrow> u32 \<Rightarrow> u32
     \<Rightarrow> GiftResponse outcome prog" where
  "gift_post e req bodyHash campaignID balance charged matchPoints diamondReward cu pu du =
     on_call (exec_tx_insert e (InsertWalletTransaction (collate e) GIFT_DEBIT (gq_ViewerID req)
                (gq_RequestID req) bodyHash))
       (\<lambda>er. if isDupKey er then answer_replay e req bodyHash (ret (Err er)) else ret (Err er))
       (\<lambda>walletTxID64.
     if walletTxID64 < 1
       then ret (Err (Errorf (''invalid wallet tx id: '' @ FormatInt walletTxID64)))
     else
       let walletTxID = (of_int walletTxID64 :: u64);
           entries = gift_entries (gq_ViewerID req) charged
       in
       if SumLedgerEntries entries \<noteq> 0 then ret (Err (Errorf ''ledger imbalance for gift''))
       else insert_entries e walletTxID entries (
         let newBalance = wrap64 (balance - charged) in
         check (exec e (UpdateWalletBalance newBalance (gq_ViewerID req))) (\<lambda>_.
         on_call (exec_order_insert e (InsertGiftOrder (collate e)
                    (order_row req bodyHash ACCEPTED None (Some newBalance))
                    charged matchPoints diamondReward))
           (\<lambda>er. if isDupKey er then answer_replay e req bodyHash (ret (Err er))
                 else ret (Err er))
           (\<lambda>giftOrderID64.
         if giftOrderID64 < 1
           then ret (Err (Errorf (''invalid gift order id: '' @ FormatInt giftOrderID64)))
         else gift_publish e req campaignID walletTxID (of_int giftOrderID64) charged newBalance
                cu pu du))))"

definition match_points_for :: "env \<Rightarrow> GiftRequest \<Rightarrow> LiveMatch option \<Rightarrow> i64 \<Rightarrow> i64" where
  "match_points_for e req match points =
     (case match of
       None \<Rightarrow> points
     | Some m \<Rightarrow>
         if lm_Mode m = SPECIFIC_GIFT \<and>
            (case lm_SpecificGiftID m of None \<Rightarrow> True
             | Some g \<Rightarrow> \<not> EqualFold (simple_fold e) g (gq_GiftID req))
         then 0 else points)"

definition gift_charge ::
  "env \<Rightarrow> GiftRequest \<Rightarrow> byte list \<Rightarrow> i64 option \<Rightarrow> GiftCatalog \<Rightarrow> LiveMatch option
     \<Rightarrow> GiftResponse outcome prog" where
  "gift_charge e req bodyHash campaignID gift match =
     check (exec e (upsert_wallet_account (gq_ViewerID req))) (\<lambda>_.
     check (exec e (GetWalletAccountForUpdate (gq_ViewerID req))) (\<lambda>balance.
     let charged = wrap64 (uint (gc_CoinPrice gift) * uint (gq_Quantity req)) in
     if charged \<le> 0 then ret (Err (Errorf (''invalid charged coins: '' @ FormatInt charged)))
     else
     (case int64ToUint32 charged ''charged coins'' of
       Inl er \<Rightarrow> ret (Err er)
     | Inr cu \<Rightarrow>
     if balance < charged then rejectGift e req bodyHash ''INSUFFICIENT_BALANCE'' 409
     else
     let matchPoints = match_points_for e req match
           (wrap64 (uint (gc_MatchPoints gift) * uint (gq_Quantity req))) in
     (case int64ToUint32 matchPoints ''match points'' of
       Inl er \<Rightarrow> ret (Err er)
     | Inr pu \<Rightarrow>
     let diamondReward = wrap64 (uint (gc_DiamondReward gift) * uint (gq_Quantity req)) in
     (case int64ToUint32 diamondReward ''diamond reward'' of
       Inl er \<Rightarrow> ret (Err er)
     | Inr du \<Rightarrow>
         gift_post e req bodyHash campaignID balance charged matchPoints diamondReward
           cu pu du)))))"

section \<open>The handler\<close>

definition gift_match ::
  "env \<Rightarrow> GiftRequest \<Rightarrow> byte list \<Rightarrow> i64 option \<Rightarrow> GiftCatalog \<Rightarrow> GiftResponse outcome prog" where
  "gift_match e req bodyHash campaignID gift =
     (case gq_MatchID req of
       None \<Rightarrow> gift_charge e req bodyHash campaignID gift None
     | Some mid \<Rightarrow>
         on_call (exec e (GetLiveMatch mid))
           (\<lambda>er. if er = ErrNoRows then rejectGift e req bodyHash ''MATCH_CLOSED'' 409
                 else ret (Err er))
           (\<lambda>m. if lm_LiveSessionID m \<noteq> gq_LiveSessionID req \<or> lm_Status m \<noteq> MATCH_OPEN
                  then rejectGift e req bodyHash ''MATCH_CLOSED'' 409
                else gift_charge e req bodyHash campaignID gift (Some m)))"

definition gift_checks ::
  "env \<Rightarrow> GiftRequest \<Rightarrow> byte list \<Rightarrow> GiftResponse outcome prog" where
  "gift_checks e req bodyHash =
     on_call (exec e (select_session (gq_LiveSessionID req)))
       (\<lambda>er. if er = ErrNoRows then rejectGift e req bodyHash ''LIVE_SESSION_NOT_FOUND'' 404
             else ret (Err er))
       (\<lambda>(liveStatus, campaignID).
     if liveStatus \<noteq> SESSION_OPEN then rejectGift e req bodyHash ''LIVE_SESSION_CLOSED'' 409
     else
       on_call (exec e (GetGiftCatalogItem (collate e) (gq_GiftID req)))
         (\<lambda>er. if er = ErrNoRows then rejectGift e req bodyHash ''GIFT_NOT_FOUND'' 404
               else ret (Err er))
         (\<lambda>gift.
       if \<not> gc_Enabled gift then rejectGift e req bodyHash ''GIFT_NOT_FOUND'' 404
       else
         check (isCreatorEligible e (gq_CreatorID req)) (\<lambda>eligible.
         if \<not> eligible then rejectGift e req bodyHash ''CREATOR_NOT_ELIGIBLE'' 403
         else gift_match e req bodyHash campaignID gift)))"

definition SendGift :: "env \<Rightarrow> GiftRequest \<Rightarrow> db \<Rightarrow> GiftResponse outcome \<times> db" where
  "SendGift e req d =
     (if blank (gq_RequestID req) \<or> gq_ViewerID req = 0 \<or> gq_CreatorID req = 0 \<or>
         gq_LiveSessionID req = 0 \<or> blank (gq_GiftID req)
        then (App errValidation, d)
      else if gq_Quantity req < 1 \<or> gq_Quantity req > 99
        then (App \<lparr>HTTPStatus = 400, Code = ''VALIDATION_ERROR'',
                   Message = ''quantity must be in [1,99]''\<rparr>, d)
      else if gq_ViewerID req = gq_CreatorID req
        then (App \<lparr>HTTPStatus = 400, Code = ''VALIDATION_ERROR'',
                   Message = ''viewer and creator cannot be the same''\<rparr>, d)
      else case BodyHashHex (GiftRequest_json req) of
        Inl er \<Rightarrow> (Err er, d)
      | Inr (_, bodyHash) \<Rightarrow>
          in_tx e (answer_replay e req bodyHash (gift_checks e req bodyHash)) Err d)"

section \<open>What a gift request should come to\<close>

text \<open>
  The policy as one function of the database: the checks in the order the handler makes
  them, and the exact amounts, over the integers.
\<close>

datatype verdict =
    Reject string int
  | Charge "u64 option" int int int
  | Broken

definition gift_valid :: "GiftRequest \<Rightarrow> bool" where
  "gift_valid req \<longleftrightarrow>
     \<not> blank (gq_RequestID req) \<and> gq_ViewerID req \<noteq> 0 \<and> gq_CreatorID req \<noteq> 0 \<and>
     gq_LiveSessionID req \<noteq> 0 \<and> \<not> blank (gq_GiftID req) \<and>
     1 \<le> gq_Quantity req \<and> gq_Quantity req \<le> 99 \<and> gq_ViewerID req \<noteq> gq_CreatorID req"

definition eligible :: "env \<Rightarrow> u64 \<Rightarrow> db \<Rightarrow> bool" where
  "eligible e cid d =
     (case find (\<lambda>u. us_UserID u = cid) (users d) of None \<Rightarrow> False | Some u \<Rightarrow> creator_policy e u)"

text \<open>The match a request names: \<open>None\<close> when it cannot take the gift.\<close>

definition open_match :: "GiftRequest \<Rightarrow> db \<Rightarrow> LiveMatch option option" where
  "open_match req d =
     (case gq_MatchID req of
       None \<Rightarrow> Some None
     | Some mid \<Rightarrow>
         (case find (\<lambda>m. lm_MatchID m = mid) (live_matches d) of
           None \<Rightarrow> None
         | Some m \<Rightarrow>
             if lm_LiveSessionID m = gq_LiveSessionID req \<and> lm_Status m = MATCH_OPEN
             then Some (Some m) else None))"

definition fits_u32 :: "int \<Rightarrow> bool" where
  "fits_u32 x \<longleftrightarrow> 0 \<le> x \<and> x < 2 ^ 32"

definition charge_verdict ::
  "env \<Rightarrow> GiftRequest \<Rightarrow> u64 option \<Rightarrow> GiftCatalog \<Rightarrow> LiveMatch option \<Rightarrow> int \<Rightarrow> verdict" where
  "charge_verdict e req campaign g match balance =
     (let q = uint (gq_Quantity req);
          charged = uint (gc_CoinPrice g) * q;
          points = match_points_for e req match (uint (gc_MatchPoints g) * q);
          diamonds = uint (gc_DiamondReward g) * q
      in if charged \<le> 0 \<or> \<not> fits_u32 charged then Broken
         else if balance < charged then Reject ''INSUFFICIENT_BALANCE'' 409
         else if \<not> fits_u32 points \<or> \<not> fits_u32 diamonds then Broken
         else Charge campaign charged points diamonds)"

definition gift_decision :: "env \<Rightarrow> GiftRequest \<Rightarrow> db \<Rightarrow> verdict" where
  "gift_decision e req d =
     (case find (\<lambda>s. ls_LiveSessionID s = gq_LiveSessionID req) (live_sessions d) of
       None \<Rightarrow> Reject ''LIVE_SESSION_NOT_FOUND'' 404
     | Some s \<Rightarrow>
         if (case ls_CampaignID s of None \<Rightarrow> False | Some c \<Rightarrow> 2 ^ 63 \<le> uint c) then Broken
         else if ls_Status s \<noteq> SESSION_OPEN then Reject ''LIVE_SESSION_CLOSED'' 409
         else
           (case find (\<lambda>g. collate e (gc_GiftID g) = collate e (gq_GiftID req)) (gift_catalog d) of
             None \<Rightarrow> Reject ''GIFT_NOT_FOUND'' 404
           | Some g \<Rightarrow>
               if \<not> gc_Enabled g then Reject ''GIFT_NOT_FOUND'' 404
               else if \<not> eligible e (gq_CreatorID req) d then Reject ''CREATOR_NOT_ELIGIBLE'' 403
               else
                 (case open_match req d of
                   None \<Rightarrow> Reject ''MATCH_CLOSED'' 409
                 | Some match \<Rightarrow>
                     charge_verdict e req (ls_CampaignID s) g match
                       (balance_of (gq_ViewerID req) d))))"

section \<open>Effects\<close>

definition gift_hash :: "GiftRequest \<Rightarrow> byte list" where
  "gift_hash req = request_hash (GiftRequest_json req)"

definition rejected_order :: "GiftRequest \<Rightarrow> string \<Rightarrow> nat \<Rightarrow> micros \<Rightarrow> GiftOrder" where
  "rejected_order req code n t =
     (order_row req (gift_hash req) REJECTED (Some code) None)
       \<lparr>go_GiftOrderID := of_nat n, go_CreatedAt := t\<rparr>"

definition accepted_order ::
  "GiftRequest \<Rightarrow> int \<Rightarrow> int \<Rightarrow> int \<Rightarrow> i64 \<Rightarrow> nat \<Rightarrow> micros \<Rightarrow> GiftOrder" where
  "accepted_order req charged points diamonds post n t =
     (order_row req (gift_hash req) ACCEPTED None (Some post))
       \<lparr>go_GiftOrderID := of_nat n, go_ChargedCoins := of_int charged,
        go_MatchPointsAdded := of_int points, go_DiamondReward := of_int diamonds,
        go_CreatedAt := t\<rparr>"

definition outbox_row :: "nat \<Rightarrow> string \<Rightarrow> string \<Rightarrow> json \<Rightarrow> micros \<Rightarrow> OutboxEvent" where
  "outbox_row n topic key payload t =
     \<lparr>oe_EventID = of_nat n, oe_Topic = topic, oe_EventKey = key, oe_PayloadJson = payload,
      oe_PublishedAt = None, oe_CreatedAt = t\<rparr>"

definition reject_accounts ::
  "GiftRequest \<Rightarrow> string \<Rightarrow> micros \<Rightarrow> WalletAccount list \<Rightarrow> WalletAccount list" where
  "reject_accounts req code t =
     (if code = ''INSUFFICIENT_BALANCE'' then ensure_account (gq_ViewerID req) t else id)"

definition gift_rejected :: "GiftRequest \<Rightarrow> string \<Rightarrow> (nat \<Rightarrow> micros) \<Rightarrow> db \<Rightarrow> db" where
  "gift_rejected req code ts d = d\<lparr>
     wallet_accounts := reject_accounts req code (ts 0) (wallet_accounts d),
     gift_orders := gift_orders d @ [rejected_order req code (next_gift_order_id d) (ts 1)],
     outbox_events := outbox_events d @
       [outbox_row (next_event_id d) giftRejectedTopic (FormatUint (gq_LiveSessionID req))
          (gift_rejected_event req code) (ts 2)],
     next_gift_order_id := Suc (next_gift_order_id d),
     next_event_id := Suc (next_event_id d)\<rparr>"

definition gift_accepted ::
  "GiftRequest \<Rightarrow> u64 option \<Rightarrow> int \<Rightarrow> int \<Rightarrow> int \<Rightarrow> (nat \<Rightarrow> micros) \<Rightarrow> db \<Rightarrow> db" where
  "gift_accepted req campaign charged points diamonds ts d =
     (let v = gq_ViewerID req; txID = (of_nat (next_tx_id d) :: u64);
          bal = wrap64 (balance_of v d - charged)
      in d\<lparr>
        wallet_accounts := set_balance bal v (ts 2) (ensure_account v (ts 0) (wallet_accounts d)),
        wallet_transactions := wallet_transactions d @
          [\<lparr>wt_TxID = txID, wt_TxType = GIFT_DEBIT, wt_ActorUserID = v,
            wt_RequestID = gq_RequestID req, wt_BodyHash = Some (gift_hash req),
            wt_CreatedAt = ts 1\<rparr>],
        wallet_entries := wallet_entries d @
          [\<lparr>we_TxID = txID, we_AccountCode = user_coins v, we_Amount = - charged\<rparr>,
           \<lparr>we_TxID = txID, we_AccountCode = ''PLATFORM_RESERVED_COINS'', we_Amount = charged\<rparr>],
        gift_orders := gift_orders d @
          [accepted_order req charged points diamonds bal (next_gift_order_id d) (ts 3)],
        outbox_events := outbox_events d @
          [outbox_row (next_event_id d) walletTopic (FormatUint v)
             (gift_debit_event req txID charged bal) (ts 4),
           outbox_row (Suc (next_event_id d)) giftAcceptedTopic
             (FormatUint (gq_LiveSessionID req))
             (gift_accepted_event req (of_nat (next_gift_order_id d)) campaign
                (of_int charged) (of_int points) (of_int diamonds)) (ts 5)],
        next_tx_id := Suc (next_tx_id d),
        next_gift_order_id := Suc (next_gift_order_id d),
        next_event_id := Suc (Suc (next_event_id d))\<rparr>)"

definition gift_created :: "GiftRequest \<Rightarrow> int \<Rightarrow> int \<Rightarrow> int \<Rightarrow> db \<Rightarrow> GiftResponse" where
  "gift_created req charged points diamonds d =
     \<lparr>gs_GiftOrderID = of_nat (next_gift_order_id d), gs_Accepted = True,
      gs_ChargedCoins = of_int charged, gs_MatchPointsAdded = of_int points,
      gs_DiamondReward = of_int diamonds,
      gs_NewBalance = wrap64 (balance_of (gq_ViewerID req) d - charged), gs_Idempotency = ''created''\<rparr>"

section \<open>The outcome of a request\<close>

definition gift_known :: "env \<Rightarrow> GiftRequest \<Rightarrow> db \<Rightarrow> GiftOrder option" where
  "gift_known e req d =
     find (\<lambda>g. go_ViewerID g = gq_ViewerID req \<and>
               collate e (go_RequestID g) = collate e (gq_RequestID req)) (gift_orders d)"

definition gift_enabled :: "env \<Rightarrow> GiftRequest \<Rightarrow> db \<Rightarrow> bool" where
  "gift_enabled e req d \<longleftrightarrow>
     gift_known e req d = None \<and> user_exists (gq_ViewerID req) d \<and>
     \<not> list_ex (\<lambda>w. wt_ActorUserID w = gq_ViewerID req \<and> wt_TxType w = GIFT_DEBIT \<and>
          collate e (wt_RequestID w) = collate e (gq_RequestID req)) (wallet_transactions d) \<and>
     0 < next_tx_id d \<and> next_tx_id d < 2 ^ 63 \<and>
     0 < next_gift_order_id d \<and> next_gift_order_id d < 2 ^ 63 \<and> Suc (next_event_id d) < 2 ^ 64"

text \<open>The answers that leave the tables alone.\<close>

definition gift_kept :: "env \<Rightarrow> GiftRequest \<Rightarrow> db \<Rightarrow> GiftResponse outcome \<Rightarrow> bool" where
  "gift_kept e req d r \<longleftrightarrow>
     (case r of
       Err er \<Rightarrow> gift_valid req
     | App a \<Rightarrow> if gift_valid req
         then \<exists>ex. gift_known e req d = Some ex \<and> replay_answer ex (gift_hash req) = (None, Some a)
         else HTTPStatus a = 400
     | Ok rs \<Rightarrow> gift_valid req \<and> (\<exists>ex. gift_known e req d = Some ex \<and>
         replay_answer ex (gift_hash req) = (Some rs, None)))"

definition gift_result ::
  "env \<Rightarrow> GiftRequest \<Rightarrow> db \<Rightarrow> GiftResponse outcome \<Rightarrow> db \<Rightarrow> bool" where
  "gift_result e req d r d' \<longleftrightarrow>
     untouched d d' \<and> gift_kept e req d r \<or>
     gift_valid req \<and> gift_known e req d = None \<and> next_gift_order_id d < 2 ^ 64 \<and>
       next_event_id d < 2 ^ 64 \<and>
       (\<exists>code st ts. gift_decision e req d = Reject code st \<and> d' = gift_rejected req code ts d \<and>
          (r = App (rejection code st) \<or> (\<exists>er. r = Err er))) \<or>
     gift_valid req \<and> gift_enabled e req d \<and>
       (\<exists>campaign charged points diamonds ts.
          gift_decision e req d = Charge campaign charged points diamonds \<and>
          d' = gift_accepted req campaign charged points diamonds ts d \<and>
          (r = Ok (gift_created req charged points diamonds d) \<or> (\<exists>er. r = Err er)))"

lemma abortable_gift:
  "gift_valid req \<Longrightarrow> abortable Err d (\<lambda>r c. gift_result e req d r (cdb c))"
  by (simp add: abortable_def gift_result_def gift_kept_def)

lemma gift_aborts:
  "gift_valid req \<Longrightarrow> untouched d D \<Longrightarrow> gift_result e req d (Err er) D"
  by (simp add: gift_result_def gift_kept_def)

lemma isDupKey_iff [simp]: "isDupKey er \<longleftrightarrow> er = MySQLError mysql_dup_entry"
  by (simp add: isDupKey_def split: go_error.splits)

lemma nullableUint64_id [simp]: "nullableUint64 v = v"
  by (simp add: nullableUint64_def split: option.splits)

text \<open>Looking for the order again after a duplicate key finds nothing new.\<close>

lemma replay_again_wp:
  assumes q: "quiet e" and v: "gift_valid req" and D: "untouched d D"
    and W: "gift_orders (W D) = gift_orders d" and new: "gift_known e req d = None"
  shows "wp (answer_replay e req h (ret (Err er))) (\<lambda>r c. gift_result e req d r (cdb c)) (at D W n)"
    and "wp (check (replayGiftIfExists e req h) (\<lambda>(replayed, appErr).
           case replayed of
             Some rs \<Rightarrow> ret (Ok rs)
           | None \<Rightarrow>
               (case appErr of
                 Some a \<Rightarrow> check (Commit e) (\<lambda>_. ret (App a))
               | None \<Rightarrow> ret (Err er)))) (\<lambda>r c. gift_result e req d r (cdb c)) (at D W n)"
  unfolding answer_replay_def replayGiftIfExists_def check_as_def wp_on_call [of "on_call _ _ _"]
  by (rule vc_on_exec [OF q];
      use D W new in \<open>auto simp: sql_spec gift_known_def intro!: gift_aborts [OF v] intro: untouched_trans\<close>)+


lemma gift_rejected_result:
  assumes "gift_valid req" and "gift_known e req d = None" and "next_gift_order_id d < 2 ^ 64"
    and "next_event_id d < 2 ^ 64" and "gift_decision e req d = Reject code st"
    and "D = gift_rejected req code ts d" and "r = App (rejection code st) \<or> (\<exists>er. r = Err er)"
  shows "gift_result e req d r D"
  using assms unfolding gift_result_def by blast

lemma rejectGift_wp:
  assumes q: "quiet e" and v: "gift_valid req" and new: "gift_known e req d = None"
    and dec: "gift_decision e req d = Reject code st"
    and W: "\<And>D. W D = wallet_accounts_update (reject_accounts req code t) D"
  shows "wp (rejectGift e req (gift_hash req) code st) (\<lambda>r c. gift_result e req d r (cdb c))
           (at d W n)"
proof -
  note ab = abortable_gift [OF v]
  note com = gift_rejected_result [OF v new _ _ dec,
      of _ "(!) [t, now e n, now e (Suc n)]"]
  show ?thesis
    unfolding rejectGift_def exec_order_insert_def exec_outbox_insert_def MarshalJSONString_def sum.case
    apply (rule vc_on_exec_alloc [OF q], simp)
      apply (simp add: gift_aborts v)
     apply (drule insert_failed, simp add: gift_aborts v W, intro impI,
        rule replay_again_wp [OF q v _ _ new]; simp add: W)
    apply (rule vc_exec_alloc [OF q ab], simp, simp)
    apply (rule vc_commit [OF q ab], simp)
     apply (rule com; simp add: sql_spec W gift_rejected_def rejected_order_def outbox_row_def order_row_def)
    apply (simp, rule com; simp add: sql_spec W gift_rejected_def rejected_order_def outbox_row_def order_row_def)
    done
qed


lemma gift_accepted_result:
  assumes "gift_valid req" and "gift_enabled e req d"
    and "gift_decision e req d = Charge campaign charged points diamonds"
    and "D = gift_accepted req campaign charged points diamonds ts d"
    and "r = Ok (gift_created req charged points diamonds d) \<or> (\<exists>er. r = Err er)"
  shows "gift_result e req d r D"
  using assms unfolding gift_result_def by blast

lemma campaign_ptr_scanned:
  "(case campaign of None \<Rightarrow> True | Some c \<Rightarrow> uint c < 2 ^ 63) \<Longrightarrow>
     campaign_ptr (map_option uint campaign) = Inr campaign"
  by (auto simp: campaign_ptr_def int64ToUint64_def split: option.splits)

lemma gift_entries_eq:
  "in_i64 (- charged) \<Longrightarrow> gift_entries v charged =
     [\<lparr>AccountCode = user_coins v, Amount = - charged\<rparr>,
      \<lparr>AccountCode = ''PLATFORM_RESERVED_COINS'', Amount = charged\<rparr>]"
  by (simp add: gift_entries_def wrap64_id)

lemma gift_entries_balanced: "SumLedgerEntries (gift_entries v charged) = 0"
  by (simp add: SumLedgerEntries_wraps gift_entries_def)

lemma fits_u32_in_i64: "fits_u32 x \<Longrightarrow> in_i64 x \<and> in_i64 (- x)"
  by (auto simp: fits_u32_def in_i64_def)

lemma gift_post_wp:
  assumes q: "quiet e" and v: "gift_valid req" and new: "gift_known e req d = None"
    and dec: "gift_decision e req d = Charge campaign charged points diamonds"
    and fits: "fits_u32 charged" "fits_u32 points" "fits_u32 diamonds"
    and camp: "case campaign of None \<Rightarrow> True | Some c \<Rightarrow> uint c < 2 ^ 63"
    and W: "\<And>D. W D = wallet_accounts_update (ensure_account (gq_ViewerID req) t) D"
  shows "wp (gift_post e req (gift_hash req) (map_option uint campaign)
               (balance_of (gq_ViewerID req) d) charged points diamonds
               (of_int charged) (of_int points) (of_int diamonds))
           (\<lambda>r c. gift_result e req d r (cdb c)) (at d W n)"
proof -
  note ab = abortable_gift [OF v]
  note com = gift_accepted_result [OF v _ dec,
      of _ "(!) [t, now e n, now e (n + 3), now e (n + 4), now e (n + 5), now e (n + 6)]"]
  note ent = gift_entries_eq [OF fits_u32_in_i64 [OF fits(1), THEN conjunct2]]
  note eff = sql_spec W gift_enabled_def new gift_created_def gift_accepted_def accepted_order_def
    outbox_row_def order_row_def Let_def last_insert_id_pos call_offset
  have i: "wrap64 (- charged) = - charged"
    using fits_u32_in_i64 [OF fits(1)] by (simp add: wrap64_id)
  show ?thesis
    unfolding gift_post_def gift_publish_def exec_tx_insert_def exec_order_insert_def
      exec_outbox_insert_def MarshalJSONString_def sum.case gift_entries_balanced Let_def
      campaign_ptr_scanned [OF camp]
    apply (rule vc_on_exec_alloc [OF q], simp)
      apply (simp add: gift_aborts v)
     apply (drule insert_failed, simp add: gift_aborts v W, intro impI,
        rule replay_again_wp [OF q v _ _ new]; simp add: W)
    apply (rule vc_guard [OF ab], simp)
    apply (simp only: if_False simp_thms ent insert_entries.simps)
    apply (rule vc_exec [OF q ab], simp)+
    apply (rule vc_on_exec_alloc [OF q], simp)
      apply (simp add: gift_aborts v)
     apply (drule insert_failed, simp add: gift_aborts v, intro impI,
        rule replay_again_wp [OF q v _ _ new]; simp add: sql_spec W)
    apply (rule vc_guard [OF ab], simp)
    apply (rule vc_exec_alloc [OF q ab], simp, simp)
    apply (rule vc_exec_alloc [OF q ab], simp, simp)
    apply (rule vc_commit [OF q ab], simp)
     apply (rule com; simp add: eff)
    apply (simp, rule com; simp add: eff)
    done
qed


lemma int64ToUint32_eq:
  "int64ToUint32 x name =
     (if fits_u32 x then Inr (of_int x) else Inl (Errorf (name @ '' overflow uint32: '' @ FormatInt x)))"
  by (auto simp: int64ToUint32_def fits_u32_def)

text \<open>Products of two column values stay far inside \<open>int64\<close>.\<close>

lemma product_no_wrap [simp]:
  "wrap64 (uint (p :: u32) * uint (q :: u16)) = uint p * uint q"
proof -
  have p: "0 \<le> uint p" "uint p < 2 ^ 32" and q: "0 \<le> uint q" "uint q < 2 ^ 16"
    using uint_bounded [of p] uint_bounded [of q] by simp_all
  then have "uint p * uint q < 2 ^ 32 * 2 ^ 16" by (intro mult_strict_mono) simp_all
  moreover have "- (2 ^ 63) \<le> uint p * uint q" by (rule order_trans [of _ 0]) simp_all
  ultimately have "in_i64 (uint p * uint q)" by (simp add: in_i64_def)
  then show ?thesis by (rule wrap64_id)
qed

lemma gift_charge_wp:
  assumes q: "quiet e" and v: "gift_valid req" and new: "gift_known e req d = None"
    and dec: "gift_decision e req d =
                charge_verdict e req campaign g match (balance_of (gq_ViewerID req) d)"
    and camp: "case campaign of None \<Rightarrow> True | Some c \<Rightarrow> uint c < 2 ^ 63"
  shows "wp (gift_charge e req (gift_hash req) (map_option uint campaign) g match)
           (\<lambda>r c. gift_result e req d r (cdb c)) (at d id n)"
  unfolding gift_charge_def
proof (rule vc_exec [OF q abortable_gift [OF v]], simp, rule vc_exec [OF q abortable_gift [OF v]],
    simp, goal_cases)
  case (1 x w bal w')
  let ?W = "w' \<circ> (w \<circ> id)"
  have W: "?W D = wallet_accounts_update (ensure_account (gq_ViewerID req) (now e n)) D" for D
    using 1 by (simp add: sql_spec)
  have bal: "bal = balance_of (gq_ViewerID req) d"
    using 1 by (auto simp: sql_spec dest: find_ensure_balance)
  note rej = rejectGift_wp [OF q v new, of "''INSUFFICIENT_BALANCE''" 409 ?W "now e n"]
  note post = gift_post_wp [OF q v new _ _ _ _ camp, of _ _ _ ?W "now e n"]
  define ch pts dia where amounts:
    "ch = uint (gc_CoinPrice g) * uint (gq_Quantity req)"
    "pts = match_points_for e req match (uint (gc_MatchPoints g) * uint (gq_Quantity req))"
    "dia = uint (gc_DiamondReward g) * uint (gq_Quantity req)"
  have dec: "gift_decision e req d =
      (if ch \<le> 0 \<or> \<not> fits_u32 ch then Broken
       else if bal < ch then Reject ''INSUFFICIENT_BALANCE'' 409
       else if \<not> fits_u32 pts \<or> \<not> fits_u32 dia then Broken else Charge campaign ch pts dia)"
    by (simp add: dec charge_verdict_def Let_def amounts bal)
  have nw: "wrap64 ch = ch" "wrap64 dia = dia" by (simp_all add: amounts)
  show ?case
    unfolding Let_def product_no_wrap [of "gc_MatchPoints g"] amounts [symmetric] nw
      int64ToUint32_eq
    using dec W rej post [of ch pts dia] gift_aborts [OF v untouched_refl]
    by (auto simp: reject_accounts_def bal)
qed

lemma gift_match_wp:
  assumes q: "quiet e" and v: "gift_valid req" and new: "gift_known e req d = None"
    and dec: "gift_decision e req d =
       (case open_match req d of None \<Rightarrow> Reject ''MATCH_CLOSED'' 409
        | Some match \<Rightarrow> charge_verdict e req campaign g match (balance_of (gq_ViewerID req) d))"
    and camp: "case campaign of None \<Rightarrow> True | Some c \<Rightarrow> uint c < 2 ^ 63"
  shows "wp (gift_match e req (gift_hash req) (map_option uint campaign) g)
           (\<lambda>r c. gift_result e req d r (cdb c)) (at d id n)"
proof -
  have rej: "wp (rejectGift e req (gift_hash req) ''MATCH_CLOSED'' 409)
      (\<lambda>r c. gift_result e req d r (cdb c)) (at d id m)"
    if "open_match req d = None" for m
    by (rule rejectGift_wp [OF q v new]) (simp_all add: dec that reject_accounts_def)
  have go: "wp (gift_charge e req (gift_hash req) (map_option uint campaign) g match)
      (\<lambda>r c. gift_result e req d r (cdb c)) (at d id m)"
    if "open_match req d = Some match" for m match
    by (rule gift_charge_wp [OF q v new _ camp]) (simp add: dec that)
  show ?thesis
  proof (cases "gq_MatchID req")
    case None
    then show ?thesis using go by (simp add: gift_match_def open_match_def)
  next
    case (Some mid)
    then show ?thesis
      unfolding gift_match_def using rej go gift_aborts [OF v]
      by (auto intro!: vc_on_exec [OF q] simp: sql_spec open_match_def)
  qed
qed


lemma select_session_query [sql_spec]:
  "select_session sid t d = (Inr x, w) \<longleftrightarrow>
     w = id \<and> (\<exists>s. find (\<lambda>s. ls_LiveSessionID s = sid) (live_sessions d) = Some s \<and>
        (case ls_CampaignID s of None \<Rightarrow> True | Some c \<Rightarrow> uint c < 2 ^ 63) \<and>
        x = (ls_Status s, map_option uint (ls_CampaignID s)))"
  "select_session sid t d = (Inl ErrNoRows, w) \<longleftrightarrow>
     w = id \<and> find (\<lambda>s. ls_LiveSessionID s = sid) (live_sessions d) = None"
  by (auto simp: select_session_def split: option.splits)

lemma isCreatorEligible_wp:
  assumes q: "quiet e" and v: "gift_valid req"
    and k: "wp (k (eligible e cid d)) (\<lambda>r c. gift_result e req d r (cdb c)) (at d id (Suc n))"
  shows "wp (check (isCreatorEligible e cid) k) (\<lambda>r c. gift_result e req d r (cdb c)) (at d id n)"
  unfolding isCreatorEligible_def check_as_def wp_on_call [of "on_call _ _ _"]
  by (rule vc_on_exec [OF q]) (use k in \<open>auto simp: sql_spec eligible_def gift_aborts [OF v]\<close>)

lemma gift_checks_wp:
  assumes q: "quiet e" and v: "gift_valid req" and new: "gift_known e req d = None"
  shows "wp (gift_checks e req (gift_hash req)) (\<lambda>r c. gift_result e req d r (cdb c)) (at d id n)"
proof -
  have rej: "wp (rejectGift e req (gift_hash req) code st)
      (\<lambda>r c. gift_result e req d r (cdb c)) (at d id m)"
    if "gift_decision e req d = Reject code st" "code \<noteq> ''INSUFFICIENT_BALANCE''" for m code st
    by (rule rejectGift_wp [OF q v new that(1)]) (simp add: that reject_accounts_def)
  note m = gift_match_wp [OF q v new] isCreatorEligible_wp [OF q v]
  show ?thesis
    unfolding gift_checks_def
    apply (rule vc_on_exec [OF q])
      apply (simp add: gift_aborts v)
     apply (auto simp: sql_spec gift_aborts v gift_decision_def intro!: rej)[1]
     apply (clarsimp simp: sql_spec)
    apply (intro conjI impI)
     apply (rule rej; auto simp: gift_decision_def split: option.splits)
    apply (rule vc_on_exec [OF q])
      apply (simp add: gift_aborts v)
     apply (auto simp: sql_spec gift_decision_def intro!: rej split: option.splits)[1]
    apply (clarsimp simp: sql_spec)
    apply (intro conjI impI)
     apply (rule rej; auto simp: gift_decision_def split: option.splits)
    apply (rule m(2), simp, intro conjI impI)
     apply (rule rej; auto simp: gift_decision_def split: option.splits)
    apply (rule m(1); auto simp: gift_decision_def split: option.splits)
    done
qed

lemma gift_valid_guards:
  "gift_valid req \<longleftrightarrow>
     \<not> (blank (gq_RequestID req) \<or> gq_ViewerID req = 0 \<or> gq_CreatorID req = 0 \<or>
        gq_LiveSessionID req = 0 \<or> blank (gq_GiftID req)) \<and>
     \<not> (gq_Quantity req < 1 \<or> gq_Quantity req > 99) \<and> gq_ViewerID req \<noteq> gq_CreatorID req"
  by (auto simp: gift_valid_def not_less word_less_1 word_le_less_eq)

lemma SendGift_valid:
  "gift_valid req \<Longrightarrow>
     SendGift e req d =
       in_tx e (answer_replay e req (gift_hash req) (gift_checks e req (gift_hash req))) Err d"
  by (simp add: SendGift_def gift_valid_guards BodyHashHex_eq gift_hash_def)

lemma SendGift_invalid:
  "\<not> gift_valid req \<Longrightarrow> \<exists>a. SendGift e req d = (App a, d) \<and> HTTPStatus a = 400"
  by (auto simp: SendGift_def gift_valid_guards errValidation_def)

lemma gift_tx_wp:
  assumes q: "quiet e" and v: "gift_valid req"
  shows "wp (answer_replay e req (gift_hash req) (gift_checks e req (gift_hash req)))
           (\<lambda>r c. gift_result e req d r (cdb c)) (at d id n)"
  unfolding answer_replay_def replayGiftIfExists_def check_as_def [of Err "on_call _ _ _"]
    wp_on_call [of "on_call _ _ _"]
proof (rule vc_on_exec [OF q], goal_cases)
  case (1 er c')
  then show ?case by (simp add: gift_aborts v)
next
  case (2 er w)
  then show ?case using gift_checks_wp [OF q v] by (simp add: sql_spec gift_known_def)
next
  case (3 ex w)
  then have ex: "gift_known e req d = Some ex" "w = id" by (simp_all add: sql_spec gift_known_def)
  have kept: "gift_result e req d (App a) d" if "replay_answer ex (gift_hash req) = (None, Some a)" for a
    using ex v that by (simp add: gift_result_def gift_kept_def)
  have ok: "gift_result e req d (Ok rs) d" if "replay_answer ex (gift_hash req) = (Some rs, None)" for rs
    using ex v that by (simp add: gift_result_def gift_kept_def)
  consider (a) a where "replay_answer ex (gift_hash req) = (None, Some a)"
    | (rs) rs where "replay_answer ex (gift_hash req) = (Some rs, None)"
    by (cases "go_BodyHash ex = gift_hash req"; cases "go_Status ex")
      (simp_all add: replay_answer_def)
  then show ?case
    by cases (use ex kept ok gift_aborts [OF v] in
        \<open>auto intro!: vc_commit [OF q abortable_gift [OF v]]\<close>)
qed

lemma SendGift_cases:
  assumes q: "quiet e" and run: "SendGift e req d = (r, d')"
  shows "gift_result e req d r d'"
proof (cases "gift_valid req")
  case True
  show ?thesis
    by (rule in_tx_wp [OF run [unfolded SendGift_valid [OF True]], of "gift_result e req d"])
      (use q True gift_tx_wp gift_aborts in auto)
next
  case False
  with SendGift_invalid [OF False, of e d] run show ?thesis
    by (auto simp: gift_result_def gift_kept_def)
qed

section \<open>Requests without faults\<close>

text \<open>What the columns and the ledger can take.\<close>

definition gift_fits :: "env \<Rightarrow> GiftRequest \<Rightarrow> db \<Rightarrow> bool" where
  "gift_fits e req d \<longleftrightarrow>
     \<not> too_long 32 (gq_GiftID req) \<and> \<not> too_long 64 (gq_RequestID req) \<and>
     user_exists (gq_ViewerID req) d \<and>
     collate e (user_coins (gq_ViewerID req)) \<noteq> collate e ''PLATFORM_RESERVED_COINS'' \<and>
     \<not> list_ex (\<lambda>x. we_TxID x = of_nat (next_tx_id d)) (wallet_entries d) \<and>
     next_gift_order_id d < 2 ^ 64 \<and> next_event_id d < 2 ^ 64"

lemma not_known:
  "gift_known e req d = None \<Longrightarrow>
     \<not> list_ex (\<lambda>g. go_ViewerID g = gq_ViewerID req \<and>
        collate e (go_RequestID g) = collate e (gq_RequestID req)) (gift_orders d)"
  by (auto simp: gift_known_def find_None_iff list_ex_iff)

lemma run_rejectGift:
  assumes "calm e" and new: "gift_known e req d = None" and "gift_fits e req d"
    and "length code \<le> 64" and "gift_orders (W d) = gift_orders d"
  shows "fst (rejectGift e req h code st (at d W n)) = App (rejection code st)"
  using assms(1,3-) not_known [OF new]
  by (simp add: rejectGift_def run_simps exec_order_insert_def exec_outbox_insert_def
      InsertGiftOrder_def InsertOutboxEvent_def id_exhausted_def order_row_def gift_fits_def
      MarshalJSONString_def ret_def giftRejectedTopic_def not_too_long)

lemma run_gift_post:
  assumes "calm e" and en: "gift_enabled e req d" and "gift_fits e req d"
    and fits: "fits_u32 charged" "fits_u32 points" "fits_u32 diamonds"
    and camp: "case (campaign :: u64 option) of None \<Rightarrow> True | Some c \<Rightarrow> uint c < 2 ^ 63"
    and W: "\<And>D. W D = wallet_accounts_update (ensure_account (gq_ViewerID req) t) D"
  shows "fst (gift_post e req h (map_option uint campaign) (balance_of (gq_ViewerID req) d)
               charged points diamonds (of_int charged) (of_int points) (of_int diamonds)
               (at d W n)) = Ok (gift_created req charged points diamonds d)"
proof -
  have ids: "\<not> last_insert_id (next_tx_id d) < 1" "\<not> last_insert_id (next_gift_order_id d) < 1"
    using en last_insert_id_pos by (simp_all add: gift_enabled_def)
  have dup: "\<not> list_ex (\<lambda>x. we_TxID x = of_nat (next_tx_id d) \<and> P x) (wallet_entries d)" for P
    using assms(3) by (auto simp: gift_fits_def list_ex_iff)
  have rng: "\<not> list_ex (\<lambda>x. x < 0 \<or> 2 ^ 32 \<le> x) [charged, points, diamonds]"
    using fits by (auto simp: fits_u32_def)
  have known: "gift_known e req d = None" using en by (simp add: gift_enabled_def)
  note ent = gift_entries_eq [OF fits_u32_in_i64 [OF fits(1), THEN conjunct2]]
  show ?thesis
    using assms(1,3) en ids dup rng not_known [OF known]
    by (simp add: gift_post_def gift_publish_def run_simps exec_tx_insert_def W
        exec_order_insert_def exec_outbox_insert_def InsertWalletTransaction_def
        InsertGiftOrder_def InsertOutboxEvent_def InsertWalletEntry_def UpdateWalletBalance_def
        id_exhausted_def order_row_def gift_fits_def gift_enabled_def MarshalJSONString_def ret_def
        giftAcceptedTopic_def walletTopic_def not_too_long SumLedgerEntries_wraps ent Let_def
        campaign_ptr_scanned [OF camp] user_coins_fits gift_created_def)
qed


text \<open>Only a verdict other than \<open>Broken\<close> is carried out.\<close>

definition verdict_answer :: "GiftRequest \<Rightarrow> db \<Rightarrow> verdict \<Rightarrow> GiftResponse outcome \<Rightarrow> bool" where
  "verdict_answer req d v r \<longleftrightarrow>
     (case v of
       Reject code st \<Rightarrow> r = App (rejection code st)
     | Charge _ charged points diamonds \<Rightarrow> r = Ok (gift_created req charged points diamonds d)
     | Broken \<Rightarrow> \<exists>er. r = Err er)"

lemma run_gift_charge:
  assumes "calm e" and en: "gift_enabled e req d" and fits: "gift_fits e req d"
    and camp: "case (campaign :: u64 option) of None \<Rightarrow> True | Some c \<Rightarrow> uint c < 2 ^ 63"
  shows "verdict_answer req d
           (charge_verdict e req campaign g match (balance_of (gq_ViewerID req) d))
           (fst (gift_charge e req h (map_option uint campaign) g match (at d id n)))"
proof -
  let ?v = "gq_ViewerID req" and ?W = "wallet_accounts_update (ensure_account (gq_ViewerID req) (now e n))"
  obtain a where a: "find (\<lambda>a. wa_UserID a = ?v)
      (ensure_account ?v (now e n) (wallet_accounts d)) = Some a"
      "wa_AvailableBalance a = balance_of ?v d"
    using find_ensure_account find_ensure_balance by blast
  have new: "gift_known e req d = None" using en by (simp add: gift_enabled_def)
  define ch pts dia where amounts:
    "ch = uint (gc_CoinPrice g) * uint (gq_Quantity req)"
    "pts = match_points_for e req match (uint (gc_MatchPoints g) * uint (gq_Quantity req))"
    "dia = uint (gc_DiamondReward g) * uint (gq_Quantity req)"
  have nw: "wrap64 ch = ch" "wrap64 dia = dia" by (simp_all add: amounts)
  note rej = run_rejectGift [OF assms(1) new fits, of "''INSUFFICIENT_BALANCE''" ?W]
  note post = run_gift_post [OF assms(1) en fits _ _ _ camp, of ch pts dia ?W "now e n"]
  show ?thesis
    using a assms(1) fits rej post
    unfolding gift_charge_def charge_verdict_def Let_def product_no_wrap [of "gc_MatchPoints g"]
      amounts [symmetric] nw int64ToUint32_eq
    by (auto simp: run_simps upsert_wallet_account_def GetWalletAccountForUpdate_def
        gift_fits_def verdict_answer_def ret_def)
qed

lemma run_gift_match:
  assumes "calm e" and en: "gift_enabled e req d" and fits: "gift_fits e req d"
    and camp: "case (campaign :: u64 option) of None \<Rightarrow> True | Some c \<Rightarrow> uint c < 2 ^ 63"
  shows "verdict_answer req d
       (case open_match req d of None \<Rightarrow> Reject ''MATCH_CLOSED'' 409
        | Some match \<Rightarrow> charge_verdict e req campaign g match (balance_of (gq_ViewerID req) d))
       (fst (gift_match e req h (map_option uint campaign) g (at d id n)))"
proof -
  have new: "gift_known e req d = None" using en by (simp add: gift_enabled_def)
  have rej: "verdict_answer req d (Reject ''MATCH_CLOSED'' 409)
      (fst (rejectGift e req h ''MATCH_CLOSED'' 409 (at d id m)))" for m
    using run_rejectGift [OF assms(1) new fits, of "''MATCH_CLOSED''" id]
    by (simp add: verdict_answer_def)
  note go = run_gift_charge [OF assms]
  show ?thesis
  proof (cases "gq_MatchID req")
    case None
    then show ?thesis using go by (simp add: gift_match_def open_match_def)
  next
    case (Some mid)
    with assms(1) rej go show ?thesis
      by (cases "find (\<lambda>m. lm_MatchID m = mid) (live_matches d)")
        (auto simp: gift_match_def open_match_def run_simps GetLiveMatch_def)
  qed
qed

lemma run_gift_checks:
  assumes "calm e" and en: "gift_enabled e req d" and fits: "gift_fits e req d"
  shows "verdict_answer req d (gift_decision e req d) (fst (gift_checks e req h (at d id n)))"
proof -
  have new: "gift_known e req d = None" using en by (simp add: gift_enabled_def)
  have rej: "verdict_answer req d (Reject code st) (fst (rejectGift e req h code st (at d id m)))"
    if "length code \<le> 64" for m code st
    using run_rejectGift [OF assms(1) new fits that, of id] by (simp add: verdict_answer_def)
  note go = run_gift_match [OF assms]
  let ?s = "find (\<lambda>s. ls_LiveSessionID s = gq_LiveSessionID req) (live_sessions d)"
  let ?g = "find (\<lambda>g. collate e (gc_GiftID g) = collate e (gq_GiftID req)) (gift_catalog d)"
  let ?u = "find (\<lambda>u. us_UserID u = gq_CreatorID req) (users d)"
  note unf = gift_checks_def gift_decision_def run_simps select_session_def GetGiftCatalogItem_def
    isCreatorEligible_def GetUser_def eligible_def
  show ?thesis
  proof (cases ?s)
    case None
    then show ?thesis using assms(1) rej by (simp add: unf)
  next
    case s: (Some s)
    show ?thesis
    proof (cases "(case ls_CampaignID s of None \<Rightarrow> True | Some c \<Rightarrow> uint c < 2 ^ 63) \<and>
                  ls_Status s = SESSION_OPEN")
      case False
      then show ?thesis using assms(1) rej s
        by (auto simp: unf verdict_answer_def ret_def split: option.splits)
    next
      case True
      have sel: "select_session (gq_LiveSessionID req) t d =
          (Inr (SESSION_OPEN, map_option uint (ls_CampaignID s)), id)" for t
        using s True by (auto simp: select_session_def split: option.splits)
      have dec: "\<not> (case ls_CampaignID s of None \<Rightarrow> False | Some c \<Rightarrow> 2 ^ 63 \<le> uint c)"
        using True by (auto split: option.splits)
      show ?thesis using assms(1) rej go s dec True
        by (cases ?g; cases ?u)
          (auto simp: gift_checks_def gift_decision_def run_simps sel GetGiftCatalogItem_def
            isCreatorEligible_def GetUser_def eligible_def)
    qed
  qed
qed

lemma SendGift_decides:
  assumes "calm e" and v: "gift_valid req" and en: "gift_enabled e req d" and fits: "gift_fits e req d"
  shows "verdict_answer req d (gift_decision e req d) (fst (SendGift e req d))"
proof -
  have "find (\<lambda>g. go_ViewerID g = gq_ViewerID req \<and>
      collate e (go_RequestID g) = collate e (gq_RequestID req)) (gift_orders d) = None"
    using en by (simp add: gift_enabled_def gift_known_def)
  then show ?thesis
    using assms(1) run_gift_checks [OF assms(1) en fits]
    by (simp add: SendGift_valid [OF v] run_in_tx answer_replay_def replayGiftIfExists_def
        run_simps GetGiftOrderByRequest_def case_prod_beta)
qed

section \<open>Retries\<close>

definition gift_seen :: "(string \<Rightarrow> string) \<Rightarrow> GiftRequest \<Rightarrow> db \<Rightarrow> bool" where
  "gift_seen coll req d \<longleftrightarrow>
     list_ex (\<lambda>g. go_ViewerID g = gq_ViewerID req \<and> coll (go_RequestID g) = coll (gq_RequestID req))
       (gift_orders d)"

definition gift_effect :: "env \<Rightarrow> GiftRequest \<Rightarrow> db \<Rightarrow> db \<Rightarrow> bool" where
  "gift_effect e req d d' \<longleftrightarrow>
     gift_valid req \<and> gift_known e req d = None \<and>
     (case gift_decision e req d of
       Reject code st \<Rightarrow> next_event_id d < 2 ^ 64 \<and> (\<exists>ts. d' = gift_rejected req code ts d)
     | Charge campaign charged points diamonds \<Rightarrow>
         gift_enabled e req d \<and> (\<exists>ts. d' = gift_accepted req campaign charged points diamonds ts d)
     | Broken \<Rightarrow> False)"

lemma gift_seen_known: "gift_seen (collate e) req d \<longleftrightarrow> gift_known e req d \<noteq> None"
  by (auto simp: gift_seen_def gift_known_def find_None_iff list_ex_iff)

lemma SendGift_atomic:
  assumes "quiet e" and "SendGift e req d = (r, d')"
  shows "untouched d d' \<or> gift_effect e req d d'"
  using SendGift_cases [OF assms]
  by (auto simp: gift_result_def gift_effect_def gift_enabled_def)

interpretation gift_requests: deduplicating SendGift gift_effect gift_seen
proof
  fix e q d r d'
  show "quiet e \<Longrightarrow> SendGift e q d = (r, d') \<Longrightarrow> untouched d d' \<or> gift_effect e q d d'"
    by (rule SendGift_atomic)
  show "gift_effect e q d d' \<Longrightarrow> \<not> gift_seen (collate e) q d"
    by (simp add: gift_effect_def gift_seen_known)
  show "gift_effect e q d d' \<Longrightarrow> gift_seen (collate e) q d'"
    by (auto simp: gift_effect_def gift_seen_def gift_rejected_def gift_accepted_def Let_def
        rejected_order_def accepted_order_def order_row_def split: verdict.splits)
next
  fix d d' coll and q :: GiftRequest
  show "untouched d d' \<Longrightarrow> gift_seen coll q d' = gift_seen coll q d"
    by (simp add: gift_seen_def untouched_iff)
qed

text \<open>A retry without faults of a request that is known is answered from its order.\<close>

definition replay_outcome :: "GiftOrder \<Rightarrow> byte list \<Rightarrow> GiftResponse outcome" where
  "replay_outcome ex h =
     (case replay_answer ex h of (_, Some a) \<Rightarrow> App a | (Some rs, None) \<Rightarrow> Ok rs
      | (None, None) \<Rightarrow> Err ErrNoRows)"

lemma SendGift_known:
  assumes "calm e" and "gift_valid req" and "gift_known e req d = Some ex"
  shows "SendGift e req d = (replay_outcome ex (gift_hash req), d)"
proof -
  have "find (\<lambda>g. go_ViewerID g = gq_ViewerID req \<and>
      collate e (go_RequestID g) = collate e (gq_RequestID req)) (gift_orders d) = Some ex"
    using assms(3) by (simp add: gift_known_def)
  then show ?thesis
    using assms(1)
    by (simp add: SendGift_valid [OF assms(2)] run_in_tx answer_replay_def replayGiftIfExists_def
        run_simps GetGiftOrderByRequest_def ret_def replay_outcome_def replay_answer_def)
qed

text \<open>The codes that the policy rejects with keep their status when they are replayed.\<close>

lemma reject_codes:
  assumes "gift_decision e req d = Reject code st"
  shows "(code, st) \<in> {(''LIVE_SESSION_NOT_FOUND'', 404), (''LIVE_SESSION_CLOSED'', 409),
           (''GIFT_NOT_FOUND'', 404), (''CREATOR_NOT_ELIGIBLE'', 403), (''MATCH_CLOSED'', 409),
           (''INSUFFICIENT_BALANCE'', 409)}"
  using assms
  by (auto simp: gift_decision_def charge_verdict_def Let_def split: option.splits if_splits)

lemma reject_messages:
  "ToLower (ReplaceAll_char ''LIVE_SESSION_NOT_FOUND'' (CHR ''_'') (CHR '' '')) = ''live session not found''"
  "ToLower (ReplaceAll_char ''LIVE_SESSION_CLOSED'' (CHR ''_'') (CHR '' '')) = ''live session closed''"
  "ToLower (ReplaceAll_char ''GIFT_NOT_FOUND'' (CHR ''_'') (CHR '' '')) = ''gift not found''"
  "ToLower (ReplaceAll_char ''CREATOR_NOT_ELIGIBLE'' (CHR ''_'') (CHR '' '')) = ''creator not eligible''"
  "ToLower (ReplaceAll_char ''MATCH_CLOSED'' (CHR ''_'') (CHR '' '')) = ''match closed''"
  "ToLower (ReplaceAll_char ''INSUFFICIENT_BALANCE'' (CHR ''_'') (CHR '' '')) = ''insufficient balance''"
  by (simp_all add: ToLower_def ReplaceAll_char_def char_of_def bit_Suc_0_iff)

lemma replayed_rejection:
  assumes "gift_decision e req d = Reject code st"
  shows "\<exists>msg. mapRejectCodeToAppError code = \<lparr>HTTPStatus = st, Code = code, Message = msg\<rparr>"
  using reject_codes [OF assms] by (auto simp: mapRejectCodeToAppError_def)

lemma gift_retry:
  assumes eff: "gift_effect e req d d1" and c: "calm e'" and coll: "collate e' = collate e"
  shows "\<exists>r. SendGift e' req d1 = (r, d1) \<and>
           (case gift_decision e req d of
              Charge campaign charged points diamonds \<Rightarrow>
                r = Ok ((gift_created req charged points diamonds d)\<lparr>gs_Idempotency := ''replayed''\<rparr>)
            | Reject code st \<Rightarrow> r = App (mapRejectCodeToAppError code)
            | Broken \<Rightarrow> False)"
proof -
  have v: "gift_valid req" and new: "gift_known e req d = None"
    using eff by (simp_all add: gift_effect_def)
  have run: "SendGift e' req d1 = (replay_outcome ex (gift_hash req), d1)"
    if "gift_known e' req d1 = Some ex" for ex
    by (rule SendGift_known [OF c v that])
  show ?thesis
  proof (cases "gift_decision e req d")
    case (Reject code st)
    then obtain ts where d1: "d1 = gift_rejected req code ts d" using eff by (auto simp: gift_effect_def)
    have "gift_known e' req d1 = Some (rejected_order req code (next_gift_order_id d) (ts 1))"
      using new by (simp add: d1 gift_rejected_def gift_known_def coll find_append
          rejected_order_def order_row_def)
    from run [OF this] show ?thesis
      by (auto simp: Reject replay_outcome_def replay_answer_def rejected_order_def order_row_def)
  next
    case (Charge campaign charged points diamonds)
    then obtain ts where d1: "d1 = gift_accepted req campaign charged points diamonds ts d"
      using eff by (auto simp: gift_effect_def)
    let ?g = "accepted_order req charged points diamonds
        (wrap64 (balance_of (gq_ViewerID req) d - charged)) (next_gift_order_id d) (ts 3)"
    have "gift_known e' req d1 = Some ?g"
      using new by (simp add: d1 gift_accepted_def Let_def gift_known_def coll find_append
          accepted_order_def order_row_def)
    from run [OF this] show ?thesis
      by (auto simp: Charge replay_outcome_def replay_answer_def accepted_order_def order_row_def
          gift_replayed_def gift_created_def)
  next
    case Broken
    then show ?thesis using eff by (simp add: gift_effect_def)
  qed
qed

section \<open>What an acceptance implies\<close>

lemma uint_of_fits_u32: "fits_u32 x \<Longrightarrow> uint (of_int x :: u32) = x"
  by (simp add: fits_u32_def uint_word_of_int take_bit_int_eq_self)

text \<open>The two definite answers to a new request, and the decision behind each.\<close>

lemma SendGift_created:
  assumes "quiet e" and "SendGift e req d = (Ok r, d')" and "gs_Idempotency r = ''created''"
  shows "\<exists>campaign charged points diamonds.
           gift_decision e req d = Charge campaign charged points diamonds \<and>
           r = gift_created req charged points diamonds d"
  using SendGift_cases [OF assms(1,2)] assms(3)
  by (auto simp: gift_result_def gift_kept_def replay_answer_def gift_replayed_def split: if_splits)

lemma SendGift_rejected:
  assumes "quiet e" and "gift_valid req" and "gift_known e req d = None"
    and "SendGift e req d = (App a, d')"
  shows "\<exists>code st. gift_decision e req d = Reject code st \<and> a = rejection code st \<and>
           gift_effect e req d d'"
  using SendGift_cases [OF assms(1,4)] assms(2,3)
  by (auto simp: gift_result_def gift_kept_def gift_effect_def)

lemma charge_policy:
  assumes "gift_decision e req d = Charge campaign charged points diamonds"
  shows "\<exists>s g u. s \<in> set (live_sessions d) \<and> ls_LiveSessionID s = gq_LiveSessionID req \<and>
             ls_Status s = SESSION_OPEN \<and> campaign = ls_CampaignID s \<and>
           g \<in> set (gift_catalog d) \<and> collate e (gc_GiftID g) = collate e (gq_GiftID req) \<and>
             gc_Enabled g \<and>
           u \<in> set (users d) \<and> us_UserID u = gq_CreatorID req \<and> creator_policy e u \<and>
           (case gq_MatchID req of None \<Rightarrow> True
            | Some mid \<Rightarrow> \<exists>m \<in> set (live_matches d). lm_MatchID m = mid \<and>
                lm_LiveSessionID m = gq_LiveSessionID req \<and> lm_Status m = MATCH_OPEN) \<and>
           charged = uint (gc_CoinPrice g) * uint (gq_Quantity req) \<and>
           diamonds = uint (gc_DiamondReward g) * uint (gq_Quantity req) \<and>
           0 < charged \<and> charged \<le> balance_of (gq_ViewerID req) d"
proof -
  obtain s where s: "find (\<lambda>s. ls_LiveSessionID s = gq_LiveSessionID req) (live_sessions d) = Some s"
    and st: "ls_Status s = SESSION_OPEN"
    using assms by (auto simp: gift_decision_def split: option.splits if_splits)
  obtain g where g: "find (\<lambda>g. collate e (gc_GiftID g) = collate e (gq_GiftID req)) (gift_catalog d) = Some g"
    and en: "gc_Enabled g" and el: "eligible e (gq_CreatorID req) d"
    using assms s st by (auto simp: gift_decision_def split: option.splits if_splits)
  obtain match where m: "open_match req d = Some match"
    and v: "charge_verdict e req (ls_CampaignID s) g match (balance_of (gq_ViewerID req) d) =
              Charge campaign charged points diamonds"
    using assms s st g en el by (auto simp: gift_decision_def split: option.splits if_splits)
  obtain u where u: "find (\<lambda>u. us_UserID u = gq_CreatorID req) (users d) = Some u" "creator_policy e u"
    using el by (auto simp: eligible_def split: option.splits)
  have "case gq_MatchID req of None \<Rightarrow> True
        | Some mid \<Rightarrow> \<exists>m \<in> set (live_matches d). lm_MatchID m = mid \<and>
            lm_LiveSessionID m = gq_LiveSessionID req \<and> lm_Status m = MATCH_OPEN"
    using m by (auto simp: open_match_def split: option.splits if_splits dest!: find_SomeD sym [of "Some _"])
  with find_SomeD [OF s] st find_SomeD [OF g] en find_SomeD [OF u(1)] u(2) v show ?thesis
    by (auto simp: charge_verdict_def Let_def split: if_splits)
qed

lemma creator_policy_iff:
  "creator_policy e u \<longleftrightarrow>
     us_AccountStanding u = GOOD \<and> us_CanGoLive u \<and> us_LiveGiftsEnabled u \<and>
     us_AccountType u = NORMAL \<and>
     (if EqualFold (simple_fold e) (us_RegionCode u) ''KR'' then 19 else 18) \<le> us_AgeYears u"
  by (auto simp: creator_policy_def)

text \<open>The points of a match in which only one gift counts.\<close>

lemma match_points_specific:
  "match_points_for e req (Some m) points =
     (if lm_Mode m = SPECIFIC_GIFT \<and>
         (\<forall>g. lm_SpecificGiftID m = Some g \<longrightarrow> \<not> EqualFold (simple_fold e) g (gq_GiftID req))
      then 0 else points)"
  by (auto simp: match_points_for_def split: option.splits)

end
