(* ===== verification/Ledger.thy ===== *)
theory Ledger
  imports Gift
begin

text \<open>
  The double-entry ledger that recharges and gifts keep: every transaction has exactly its two
  postings, which cancel; the debits are the accepted gift orders, one for one and in order;
  the credits are the recharge requests; balances are the opening balances plus the postings
  on the owner's account. Each fact is an invariant of the committed effects.
\<close>

section \<open>The invariant\<close>

definition txs_of :: "WalletTransactionsTxType \<Rightarrow> db \<Rightarrow> WalletTransaction list" where
  "txs_of ty d = filter (\<lambda>w. wt_TxType w = ty) (wallet_transactions d)"

definition accepted :: "db \<Rightarrow> GiftOrder list" where
  "accepted d = filter (\<lambda>g. go_Status g = ACCEPTED) (gift_orders d)"

definition entries_of :: "u64 \<Rightarrow> db \<Rightarrow> WalletEntry list" where
  "entries_of t d = filter (\<lambda>x. we_TxID x = t) (wallet_entries d)"

definition posting :: "u64 \<Rightarrow> u64 \<Rightarrow> string \<Rightarrow> int \<Rightarrow> WalletEntry list" where
  "posting t v other amount =
     [\<lparr>we_TxID = t, we_AccountCode = user_coins v, we_Amount = amount\<rparr>,
      \<lparr>we_TxID = t, we_AccountCode = other, we_Amount = - amount\<rparr>]"

definition debit_matches :: "db \<Rightarrow> WalletTransaction \<Rightarrow> GiftOrder \<Rightarrow> bool" where
  "debit_matches d w g \<longleftrightarrow>
     wt_ActorUserID w = go_ViewerID g \<and> wt_RequestID w = go_RequestID g \<and>
     wt_BodyHash w = Some (go_BodyHash g) \<and>
     entries_of (wt_TxID w) d =
       posting (wt_TxID w) (go_ViewerID g) ''PLATFORM_RESERVED_COINS'' (- uint (go_ChargedCoins g))"

definition credit_matches :: "db \<Rightarrow> WalletTransaction \<Rightarrow> RechargeRow \<Rightarrow> bool" where
  "credit_matches d w r \<longleftrightarrow>
     wt_ActorUserID w = rr_ViewerID r \<and> wt_RequestID w = rr_RequestID r \<and>
     wt_BodyHash w = Some (rr_BodyHash r) \<and> wt_TxID w = rr_TxID r \<and>
     entries_of (wt_TxID w) d =
       posting (wt_TxID w) (rr_ViewerID r) ''SYSTEM_TOPUP_SOURCE'' (uint (rr_Coins r))"

definition tx_key :: "(string \<Rightarrow> string) \<Rightarrow> WalletTransaction \<Rightarrow> u64 \<times> WalletTransactionsTxType \<times> string" where
  "tx_key coll w = (wt_ActorUserID w, wt_TxType w, coll (wt_RequestID w))"

definition ids_fresh :: "db \<Rightarrow> bool" where
  "ids_fresh d \<longleftrightarrow>
     (\<forall>w \<in> set (wallet_transactions d). unat (wt_TxID w) < next_tx_id d) \<and>
     (\<forall>x \<in> set (wallet_entries d). \<exists>w \<in> set (wallet_transactions d). wt_TxID w = we_TxID x) \<and>
     distinct (map wt_TxID (wallet_transactions d))"

definition ledger_inv :: "(string \<Rightarrow> string) \<Rightarrow> db \<Rightarrow> bool" where
  "ledger_inv coll d \<longleftrightarrow>
     ids_fresh d \<and> distinct (map (tx_key coll) (wallet_transactions d)) \<and>
     list_all2 (debit_matches d) (txs_of GIFT_DEBIT d) (accepted d) \<and>
     list_all2 (credit_matches d) (txs_of RECHARGE d) (recharge_requests d)"

text \<open>The postings on the account of a user.\<close>

definition user_total :: "u64 \<Rightarrow> db \<Rightarrow> int" where
  "user_total u d =
     sum_list (map we_Amount (filter (\<lambda>x. we_AccountCode x = user_coins u) (wallet_entries d)))"

section \<open>Posting one transaction\<close>

text \<open>
  What both committed effects share: one new transaction under an identifier that no other
  transaction has, taken from the counter earlier, with its two postings.
\<close>

definition posted ::
  "WalletTransaction \<Rightarrow> string \<Rightarrow> int \<Rightarrow> db \<Rightarrow> db \<Rightarrow> bool" where
  "posted w other amount d d' \<longleftrightarrow>
     wt_TxID w \<notin> wt_TxID ` set (wallet_transactions d) \<and> unat (wt_TxID w) < next_tx_id d' \<and>
     next_tx_id d \<le> next_tx_id d' \<and>
     wallet_transactions d' = wallet_transactions d @ [w] \<and>
     wallet_entries d' = wallet_entries d @ posting (wt_TxID w) (wt_ActorUserID w) other amount"

lemma unat_tx_id: "n < 2 ^ 63 \<Longrightarrow> unat (of_nat n :: u64) = n"
  by (simp add: unsigned_of_nat take_bit_nat_eq_self)

lemma next_id_unused:
  assumes "ids_fresh d" and "next_tx_id d < 2 ^ 63"
  shows "of_nat (next_tx_id d) \<notin> wt_TxID ` set (wallet_transactions d)"
  using assms unat_tx_id [OF assms(2)] by (fastforce simp: ids_fresh_def)

lemma posted_fresh:
  assumes p: "posted w other amount d d'" and f: "ids_fresh d"
  shows "\<forall>v \<in> set (wallet_transactions d). wt_TxID v \<noteq> wt_TxID w"
    and "entries_of (wt_TxID w) d = []"
proof -
  show *: "\<forall>v \<in> set (wallet_transactions d). wt_TxID v \<noteq> wt_TxID w"
    using p by (auto simp: posted_def image_iff)
  show "entries_of (wt_TxID w) d = []"
    using f * by (fastforce simp: ids_fresh_def entries_of_def filter_empty_conv)
qed

lemma posted_entries:
  assumes p: "posted w other amount d d'" and f: "ids_fresh d"
  shows "entries_of (wt_TxID w) d' = posting (wt_TxID w) (wt_ActorUserID w) other amount"
    and "t \<noteq> wt_TxID w \<Longrightarrow> entries_of t d' = entries_of t d"
  using posted_fresh (2) [OF p f] p by (auto simp: posted_def entries_of_def posting_def)

lemma ids_fresh_posted:
  assumes p: "posted w other amount d d'" and f: "ids_fresh d"
  shows "ids_fresh d'"
  using f posted_fresh (1) [OF p f] p
  by (fastforce simp: ids_fresh_def posted_def posting_def)

lemma txs_of_append:
  "wallet_transactions d' = wallet_transactions d @ [w] \<Longrightarrow>
     txs_of ty d' = txs_of ty d @ (if wt_TxType w = ty then [w] else [])"
  by (simp add: txs_of_def)

lemma txs_of_subset: "w \<in> set (txs_of ty d) \<Longrightarrow> w \<in> set (wallet_transactions d)"
  by (simp add: txs_of_def)

text \<open>Matches of older transactions survive a posting.\<close>

lemma list_all2_weaken:
  assumes "list_all2 P xs ys" and "\<And>x y. x \<in> set xs \<Longrightarrow> y \<in> set ys \<Longrightarrow> P x y \<Longrightarrow> Q x y"
  shows "list_all2 Q xs ys"
  using assms by (induction rule: list_all2_induct) auto

lemma matches_posted:
  assumes p: "posted w other amount d d'" and f: "ids_fresh d"
  shows "list_all2 (debit_matches d) (txs_of GIFT_DEBIT d) gs \<Longrightarrow>
           list_all2 (debit_matches d') (txs_of GIFT_DEBIT d) gs"
    and "list_all2 (credit_matches d) (txs_of RECHARGE d) rs \<Longrightarrow>
           list_all2 (credit_matches d') (txs_of RECHARGE d) rs"
proof -
  have old: "entries_of (wt_TxID x) d' = entries_of (wt_TxID x) d" if "x \<in> set (txs_of ty d)" for x ty
    using posted_fresh (1) [OF p f] posted_entries (2) [OF p f] txs_of_subset [OF that] by auto
  show "list_all2 (debit_matches d') (txs_of GIFT_DEBIT d) gs"
    if "list_all2 (debit_matches d) (txs_of GIFT_DEBIT d) gs"
    using that by (rule list_all2_weaken) (simp add: debit_matches_def old)
  show "list_all2 (credit_matches d') (txs_of RECHARGE d) rs"
    if "list_all2 (credit_matches d) (txs_of RECHARGE d) rs"
    using that
  proof (rule list_all2_weaken)
    fix x y assume "x \<in> set (txs_of RECHARGE d)" "credit_matches d x y"
    with old [OF this(1)] show "credit_matches d' x y" by (auto simp: credit_matches_def)
  qed
qed

section \<open>Preservation\<close>

lemma matches_cong:
  "wallet_entries d' = wallet_entries d \<Longrightarrow>
     debit_matches d' = debit_matches d \<and> credit_matches d' = credit_matches d"
  by (auto simp: debit_matches_def credit_matches_def entries_of_def fun_eq_iff)

text \<open>Changes that only touch other tables, rejected orders included.\<close>

lemma ledger_inv_other:
  assumes "ledger_inv coll d" and "wallet_transactions d' = wallet_transactions d"
    and "wallet_entries d' = wallet_entries d" and "recharge_requests d' = recharge_requests d"
    and "accepted d' = accepted d" and "next_tx_id d \<le> next_tx_id d'"
  shows "ledger_inv coll d'"
  using assms matches_cong [OF assms(3)]
  by (fastforce simp: ledger_inv_def ids_fresh_def txs_of_def)

lemma ledger_inv_untouched: "ledger_inv coll d \<Longrightarrow> untouched d d' \<Longrightarrow> ledger_inv coll d'"
  by (erule ledger_inv_other) (simp_all add: untouched_iff accepted_def)

lemma ledger_inv_posted:
  assumes inv: "ledger_inv coll d" and p: "posted w other amount d d'"
    and key: "tx_key coll w \<notin> set (map (tx_key coll) (wallet_transactions d))"
    and new: "wt_TxType w = GIFT_DEBIT \<and> recharge_requests d' = recharge_requests d \<and>
                accepted d' = accepted d @ [g] \<and> debit_matches d' w g \<or>
              wt_TxType w = RECHARGE \<and> accepted d' = accepted d \<and>
                recharge_requests d' = recharge_requests d @ [r] \<and> credit_matches d' w r"
  shows "ledger_inv coll d'"
proof -
  have f: "ids_fresh d" using inv by (simp add: ledger_inv_def)
  have tx: "wallet_transactions d' = wallet_transactions d @ [w]" using p by (simp add: posted_def)
  show ?thesis
    using inv key new matches_posted [OF p f] ids_fresh_posted [OF p f]
    by (auto simp: ledger_inv_def txs_of_append [OF tx] tx intro!: list_all2_appendI)
qed

definition tx_row ::
  "WalletTransactionsTxType \<Rightarrow> u64 \<Rightarrow> string \<Rightarrow> byte list \<Rightarrow> nat \<Rightarrow> micros \<Rightarrow> WalletTransaction" where
  "tx_row ty v rid h n t =
     \<lparr>wt_TxID = of_nat n, wt_TxType = ty, wt_ActorUserID = v, wt_RequestID = rid,
      wt_BodyHash = Some h, wt_CreatedAt = t\<rparr>"

lemma recharged_posted:
  "ids_fresh d \<Longrightarrow> next_tx_id d < 2 ^ 63 \<Longrightarrow>
     posted (tx_row RECHARGE (rq_ViewerID req) (rq_RequestID req)
               (request_hash (RechargeRequest_json req)) (next_tx_id d) (ts 2))
       ''SYSTEM_TOPUP_SOURCE'' (uint (rq_Coins req)) d (recharged req ts d)"
  using next_id_unused [of d] unat_tx_id [of "next_tx_id d"]
  by (simp add: recharged_def posted_def posting_def Let_def tx_row_def)

lemma gift_accepted_posted:
  "ids_fresh d \<Longrightarrow> next_tx_id d < 2 ^ 63 \<Longrightarrow>
     posted (tx_row GIFT_DEBIT (gq_ViewerID req) (gq_RequestID req) (gift_hash req)
               (next_tx_id d) (ts 1))
       ''PLATFORM_RESERVED_COINS'' (- charged) d
       (gift_accepted req campaign charged points diamonds ts d)"
  using next_id_unused [of d] unat_tx_id [of "next_tx_id d"]
  by (simp add: gift_accepted_def posted_def posting_def Let_def tx_row_def)

lemma ledger_inv_recharged:
  assumes inv: "ledger_inv (collate e) d" and en: "recharge_enabled e req d"
  shows "ledger_inv (collate e) (recharged req ts d)"
proof -
  let ?d = "recharged req ts d"
  let ?w = "tx_row RECHARGE (rq_ViewerID req) (rq_RequestID req)
              (request_hash (RechargeRequest_json req)) (next_tx_id d) (ts 2)"
  have f: "ids_fresh d" using inv by (simp add: ledger_inv_def)
  have p: "posted ?w ''SYSTEM_TOPUP_SOURCE'' (uint (rq_Coins req)) d ?d"
    by (rule recharged_posted [OF f]) (use en in \<open>simp add: recharge_enabled_def\<close>)
  have acc: "accepted ?d = accepted d" by (simp add: accepted_def recharged_def Let_def)
  have key: "tx_key (collate e) ?w \<notin> set (map (tx_key (collate e)) (wallet_transactions d))"
    using en by (auto simp: recharge_enabled_def tx_key_def list_ex_iff tx_row_def)
  have new: "credit_matches ?d ?w (last (recharge_requests ?d))"
    using posted_entries (1) [OF p f]
    by (simp add: credit_matches_def recharged_def Let_def tx_row_def)
  have "recharge_requests ?d = recharge_requests d @ [last (recharge_requests ?d)]"
    by (simp add: recharged_def Let_def)
  with acc new show ?thesis
    by (intro ledger_inv_posted [OF inv p key]) (simp add: tx_row_def)
qed

lemma ledger_inv_gift_accepted:
  assumes inv: "ledger_inv (collate e) d" and en: "gift_enabled e req d" and ch: "fits_u32 charged"
  shows "ledger_inv (collate e) (gift_accepted req campaign charged points diamonds ts d)"
proof -
  let ?d = "gift_accepted req campaign charged points diamonds ts d"
  let ?w = "tx_row GIFT_DEBIT (gq_ViewerID req) (gq_RequestID req) (gift_hash req)
              (next_tx_id d) (ts 1)"
  have f: "ids_fresh d" using inv by (simp add: ledger_inv_def)
  have p: "posted ?w ''PLATFORM_RESERVED_COINS'' (- charged) d ?d"
    by (rule gift_accepted_posted [OF f]) (use en in \<open>simp add: gift_enabled_def\<close>)
  have rr: "recharge_requests ?d = recharge_requests d" by (simp add: gift_accepted_def Let_def)
  have key: "tx_key (collate e) ?w \<notin> set (map (tx_key (collate e)) (wallet_transactions d))"
    using en by (auto simp: gift_enabled_def tx_key_def list_ex_iff tx_row_def)
  have "uint (of_int charged :: u32) = charged"
    using ch by (simp add: fits_u32_def unsigned_of_int take_bit_int_eq_self)
  then have new: "debit_matches ?d ?w (last (accepted ?d))"
    using posted_entries (1) [OF p f]
    by (simp add: debit_matches_def accepted_def gift_accepted_def Let_def tx_row_def
        accepted_order_def order_row_def)
  have "accepted ?d = accepted d @ [last (accepted ?d)]"
    by (simp add: accepted_def gift_accepted_def Let_def accepted_order_def order_row_def)
  with rr new show ?thesis
    by (intro ledger_inv_posted [OF inv p key]) (simp add: tx_row_def)
qed

lemma ledger_inv_gift_rejected:
  "ledger_inv coll d \<Longrightarrow> ledger_inv coll (gift_rejected req code ts d)"
  by (erule ledger_inv_other)
    (simp_all add: gift_rejected_def accepted_def rejected_order_def order_row_def)

section \<open>Balances follow the postings\<close>

text \<open>The part of a balance that no posting explains: the opening balance.\<close>

definition unposted :: "u64 \<Rightarrow> db \<Rightarrow> int" where
  "unposted u d = wrap64 (balance_of u d - user_total u d)"

lemma user_coins_inject [simp]: "user_coins a = user_coins b \<longleftrightarrow> a = b"
  by (simp add: user_coins_def)

lemma user_coins_accounts [simp]:
  "user_coins v \<noteq> ''SYSTEM_TOPUP_SOURCE''" "user_coins v \<noteq> ''PLATFORM_RESERVED_COINS''"
  "''SYSTEM_TOPUP_SOURCE'' \<noteq> user_coins v" "''PLATFORM_RESERVED_COINS'' \<noteq> user_coins v"
  by (simp_all add: user_coins_def)

lemma user_total_posting:
  assumes "wallet_entries d' = wallet_entries d @ posting t v other amount"
    and "\<And>u. other \<noteq> user_coins u"
  shows "user_total u d' = user_total u d + (if u = v then amount else 0)"
  using assms by (auto simp: user_total_def posting_def)

lemma wrap64_sub_same: "wrap64 (wrap64 (a + x) - (b + x)) = wrap64 (a - b)"
  using wrap64_add_left [of "a + x" "- (b + x)"] by (simp add: algebra_simps)

lemma unposted_posting:
  assumes "wallet_entries d' = wallet_entries d @ posting t v other amount"
    and "\<And>u. other \<noteq> user_coins u"
    and "wallet_accounts d' = set_balance (wrap64 (balance_of v d + amount)) v t2
           (ensure_account v t1 (wallet_accounts d))"
  shows "unposted u d' = unposted u d"
  by (simp add: unposted_def balance_of_posted [OF assms(3)] user_total_posting [OF assms(1,2)]
      wrap64_sub_same)

lemma unposted_recharged: "unposted u (recharged req ts d) = unposted u d"
  by (rule unposted_posting [where other = "''SYSTEM_TOPUP_SOURCE''" and amount = "uint (rq_Coins req)"])
    (simp_all add: recharged_def posting_def Let_def)

lemma unposted_gift_accepted:
  "unposted u (gift_accepted req campaign charged points diamonds ts d) = unposted u d"
  by (rule unposted_posting [where other = "''PLATFORM_RESERVED_COINS''" and amount = "- charged"])
    (simp_all add: gift_accepted_def posting_def Let_def)

lemma balance_of_ensured:
  "wallet_accounts d' = ensure_account v t (wallet_accounts d) \<Longrightarrow> balance_of u d' = balance_of u d"
  using find_ensure_account [of v t "wallet_accounts d"]
  by (cases "u = v") (auto simp: balance_of_def find_other_ensure)

lemma balance_gift_rejected: "balance_of u (gift_rejected req code ts d) = balance_of u d"
proof (cases "code = ''INSUFFICIENT_BALANCE''")
  case True
  show ?thesis
    by (rule balance_of_ensured) (simp add: gift_rejected_def reject_accounts_def True)
next
  case False
  then show ?thesis by (simp add: balance_of_def gift_rejected_def reject_accounts_def)
qed

lemma unposted_gift_rejected: "unposted u (gift_rejected req code ts d) = unposted u d"
  by (simp add: unposted_def balance_gift_rejected) (simp add: user_total_def gift_rejected_def)

lemma balance_recharged:
  "balance_of u (recharged req ts d) =
     (if u = rq_ViewerID req then wrap64 (balance_of u d + uint (rq_Coins req)) else balance_of u d)"
  using balance_of_posted [of "recharged req ts d"
      "wrap64 (balance_of (rq_ViewerID req) d + uint (rq_Coins req))" "rq_ViewerID req"
      "ts 5" "ts 0" d u]
  by (simp add: recharged_def Let_def)

lemma balance_gift_accepted:
  "balance_of u (gift_accepted req campaign charged points diamonds ts d) =
     (if u = gq_ViewerID req then wrap64 (balance_of u d - charged) else balance_of u d)"
  using balance_of_posted [of "gift_accepted req campaign charged points diamonds ts d"
      "wrap64 (balance_of (gq_ViewerID req) d - charged)" "gq_ViewerID req" "ts 2" "ts 0" d u]
  by (simp add: gift_accepted_def Let_def)

section \<open>What the invariant gives\<close>

lemma ledger_tx_matched:
  assumes inv: "ledger_inv coll d" and w: "w \<in> set (wallet_transactions d)"
  shows "\<exists>other amount. entries_of (wt_TxID w) d = posting (wt_TxID w) (wt_ActorUserID w) other amount"
proof (cases "wt_TxType w")
  case RECHARGE
  then have "w \<in> set (txs_of RECHARGE d)" using w by (simp add: txs_of_def)
  then obtain r where "credit_matches d w r"
    using inv list_all2_left [of "credit_matches d" _ _ w] by (auto simp: ledger_inv_def)
  then show ?thesis unfolding credit_matches_def by metis
next
  case GIFT_DEBIT
  then have "w \<in> set (txs_of GIFT_DEBIT d)" using w by (simp add: txs_of_def)
  then obtain g where "debit_matches d w g"
    using inv list_all2_left [of "debit_matches d" _ _ w] by (auto simp: ledger_inv_def)
  then show ?thesis unfolding debit_matches_def by metis
qed

lemma ledger_zero_sum:
  assumes inv: "ledger_inv coll d"
  shows "sum_list (map we_Amount (entries_of t d)) = 0"
proof (cases "\<exists>w \<in> set (wallet_transactions d). wt_TxID w = t")
  case True
  then show ?thesis using ledger_tx_matched [OF inv] by (fastforce simp: posting_def)
next
  case False
  then have "entries_of t d = []"
    using inv by (fastforce simp: ledger_inv_def ids_fresh_def entries_of_def filter_empty_conv)
  then show ?thesis by simp
qed

end
