(* ===== verification/Ranking.thy ===== *)
theory Ranking
  imports Prelude "HOL-Library.Multiset"
begin

text \<open>
  \<open>SELECT k, SUM(v) AS total ... GROUP BY k ORDER BY total DESC, k ASC LIMIT n\<close>: the shape of
  the three rankings of the service, over any rows, with the key and the amount of a row as
  parameters. SUM over an integer column is a DECIMAL, which does not overflow here.
\<close>

definition total_by :: "('r \<Rightarrow> u64) \<Rightarrow> ('r \<Rightarrow> int) \<Rightarrow> u64 \<Rightarrow> 'r list \<Rightarrow> int" where
  "total_by key amount k rs = sum_list (map amount (filter (\<lambda>r. key r = k) rs))"

definition groups_by :: "('r \<Rightarrow> u64) \<Rightarrow> ('r \<Rightarrow> int) \<Rightarrow> 'r list \<Rightarrow> (u64 \<times> int) list" where
  "groups_by key amount rs =
     map (\<lambda>k. (k, total_by key amount k rs)) (sort (remdups (map key rs)))"

definition rank_by :: "('r \<Rightarrow> u64) \<Rightarrow> ('r \<Rightarrow> int) \<Rightarrow> nat \<Rightarrow> 'r list \<Rightarrow> (u64 \<times> int) list" where
  "rank_by key amount n rs = take n (sort_key (\<lambda>p. - snd p) (groups_by key amount rs))"

lemma total_by_append [simp]:
  "total_by key amount k (rs @ rs') = total_by key amount k rs + total_by key amount k rs'"
  by (simp add: total_by_def)

lemma total_by_Cons:
  "total_by key amount k (r # rs) = (if key r = k then amount r else 0) + total_by key amount k rs"
  by (simp add: total_by_def)

lemma total_by_Nil [simp]: "total_by key amount k [] = 0"
  by (simp add: total_by_def)

lemma total_by_none: "k \<notin> key ` set rs \<Longrightarrow> total_by key amount k rs = 0"
  by (induction rs) (auto simp: total_by_Cons)

lemma total_by_le:
  "(\<And>r. r \<in> set rs \<Longrightarrow> 0 \<le> amount r) \<Longrightarrow> total_by key amount k rs \<le> sum_list (map amount rs)"
  unfolding total_by_def by (rule sum_list_filter_le)

lemma total_by_nonneg:
  "(\<And>r. r \<in> set rs \<Longrightarrow> 0 \<le> amount r) \<Longrightarrow> 0 \<le> total_by key amount k rs"
  unfolding total_by_def by (rule sum_list_map_nonneg) simp

lemma set_groups_by:
  "set (groups_by key amount rs) = (\<lambda>k. (k, total_by key amount k rs)) ` key ` set rs"
  by (simp add: groups_by_def)

lemma groups_by_keys: "map fst (groups_by key amount rs) = sort (remdups (map key rs))"
  by (simp add: groups_by_def comp_def)

lemma groups_by_empty [simp]: "groups_by key amount rs = [] \<longleftrightarrow> rs = []"
proof
  assume "groups_by key amount rs = []"
  then have "set (groups_by key amount rs) = {}" by simp
  then show "rs = []" by (simp add: set_groups_by)
qed (simp add: groups_by_def)

lemma rank_by_length: "length (rank_by key amount n rs) \<le> n"
  by (simp add: rank_by_def)

lemma rank_by_totals:
  "p \<in> set (rank_by key amount n rs) \<Longrightarrow> snd p = total_by key amount (fst p) rs"
  by (auto simp: rank_by_def set_groups_by dest!: in_set_takeD)

lemma rank_by_descending: "sorted (map (\<lambda>p. - snd p) (rank_by key amount n rs))"
  unfolding rank_by_def take_map [symmetric] by (rule sorted_wrt_take) (rule sorted_sort_key)

lemma rank_by_distinct: "distinct (map fst (rank_by key amount n rs))"
proof -
  let ?xs = "groups_by key amount rs"
  have m: "mset (map fst (sort_key (\<lambda>p. - snd p) ?xs)) = mset (map fst ?xs)"
    by (simp only: mset_map mset_sort)
  have "distinct (map fst ?xs)" by (simp add: groups_by_keys)
  then have "distinct (map fst (sort_key (\<lambda>p. - snd p) ?xs))"
    using mset_eq_imp_distinct_iff [OF m] by simp
  then show ?thesis unfolding rank_by_def take_map [symmetric] by (rule distinct_take)
qed

text \<open>Nobody who is left out has more than somebody who is listed.\<close>

lemma rank_by_top:
  assumes k: "k \<in> key ` set rs" and out: "k \<notin> fst ` set (rank_by key amount n rs)"
    and p: "p \<in> set (rank_by key amount n rs)"
  shows "total_by key amount k rs \<le> snd p"
proof -
  let ?ys = "sort_key (\<lambda>p. - snd p) (groups_by key amount rs)"
  have "sorted (map (\<lambda>p. - snd p) (take n ?ys @ drop n ?ys))" by simp
  then have s: "\<forall>x \<in> set (take n ?ys). \<forall>y \<in> set (drop n ?ys). snd y \<le> snd x"
    by (simp add: sorted_append del: append_take_drop_id)
  have "(k, total_by key amount k rs) \<in> set (take n ?ys @ drop n ?ys)"
    using k by (auto simp: set_groups_by)
  moreover have "(k, total_by key amount k rs) \<notin> set (take n ?ys)"
    using out by (force simp: rank_by_def)
  ultimately have "(k, total_by key amount k rs) \<in> set (drop n ?ys)"
    by (simp only: set_append) blast
  then have "snd (k, total_by key amount k rs) \<le> snd p" using s p unfolding rank_by_def by blast
  then show ?thesis by simp
qed

text \<open>When the limit reaches the number of keys, everybody is listed.\<close>

lemma rank_by_all:
  assumes "card (key ` set rs) \<le> n"
  shows "fst ` set (rank_by key amount n rs) = key ` set rs"
proof -
  have "length (groups_by key amount rs) = card (key ` set rs)"
    by (simp add: groups_by_def length_remdups_card_conv)
  with assms have "rank_by key amount n rs = sort_key (\<lambda>p. - snd p) (groups_by key amount rs)"
    by (simp add: rank_by_def)
  then show ?thesis by (simp add: set_groups_by image_image)
qed

text \<open>What a reader of a ranking relies on, in one predicate.\<close>

definition is_top :: "('r \<Rightarrow> u64) \<Rightarrow> ('r \<Rightarrow> int) \<Rightarrow> nat \<Rightarrow> 'r list \<Rightarrow> (u64 \<times> int) list \<Rightarrow> bool" where
  "is_top key amount n rs ps \<longleftrightarrow>
     length ps \<le> n \<and> distinct (map fst ps) \<and> sorted (map (\<lambda>p. - snd p) ps) \<and>
     (\<forall>p \<in> set ps. fst p \<in> key ` set rs \<and> snd p = total_by key amount (fst p) rs) \<and>
     (\<forall>r \<in> set rs. key r \<notin> fst ` set ps \<longrightarrow> (\<forall>p \<in> set ps. total_by key amount (key r) rs \<le> snd p)) \<and>
     (card (key ` set rs) \<le> n \<longrightarrow> fst ` set ps = key ` set rs)"

lemma rank_by_is_top: "is_top key amount n rs (rank_by key amount n rs)"
proof -
  have "fst p \<in> key ` set rs" if "p \<in> set (rank_by key amount n rs)" for p
    using that by (auto simp: rank_by_def set_groups_by dest!: in_set_takeD)
  then show ?thesis
    unfolding is_top_def
    using rank_by_length rank_by_distinct rank_by_descending rank_by_totals rank_by_top [OF imageI]
      rank_by_all
    by (intro conjI ballI impI) blast+
qed

text \<open>Any list of all the totals in falling order, cut off at the limit, is such a ranking.\<close>

lemma top_of_descending:
  assumes dist: "distinct (map fst xs)"
    and all: "set xs = (\<lambda>k. (k, total_by key amount k rs)) ` key ` set rs"
    and desc: "sorted (map (\<lambda>p. - snd p) xs)"
  shows "is_top key amount n rs (take n xs)"
  unfolding is_top_def
proof (intro conjI ballI impI)
  show "distinct (map fst (take n xs))" using dist by (simp add: take_map [symmetric])
  show "sorted (map (\<lambda>p. - snd p) (take n xs))"
    using desc unfolding take_map [symmetric] by (rule sorted_wrt_take)
  show "fst p \<in> key ` set rs" "snd p = total_by key amount (fst p) rs" if "p \<in> set (take n xs)" for p
    using in_set_takeD [OF that] by (auto simp: all)
  show "total_by key amount (key r) rs \<le> snd p"
    if r: "r \<in> set rs" and out: "key r \<notin> fst ` set (take n xs)" and p: "p \<in> set (take n xs)" for r p
  proof -
    have "sorted (map (\<lambda>p. - snd p) (take n xs @ drop n xs))" using desc by simp
    then have s: "\<forall>x \<in> set (take n xs). \<forall>y \<in> set (drop n xs). snd y \<le> snd x"
      by (simp add: sorted_append del: append_take_drop_id)
    have "(key r, total_by key amount (key r) rs) \<in> set (take n xs @ drop n xs)" using r by (simp add: all)
    moreover have "(key r, total_by key amount (key r) rs) \<notin> set (take n xs)" using out by force
    ultimately have "(key r, total_by key amount (key r) rs) \<in> set (drop n xs)"
      by (simp only: set_append) blast
    with s p show ?thesis by fastforce
  qed
  show "fst ` set (take n xs) = key ` set rs" if "card (key ` set rs) \<le> n"
  proof -
    have "length xs = card (fst ` set xs)" using distinct_card [OF dist] by simp
    also have "fst ` set xs = key ` set rs" by (simp add: all image_image)
    finally show ?thesis using that by (simp add: all image_image)
  qed
qed simp

end
