(* ===== verification/Settlement.thy ===== *)
theory Settlement
  imports Ledger Ranking
begin

text \<open>
  Closing a live session, its settlement and its reconciliation
  (\<open>internal/service/settlement.go\<close>). The reconciliation compares the coins of the accepted
  orders with the coins debited in the ledger; on every ledger that satisfies the invariant
  the two agree.
\<close>

section \<open>Data\<close>

definition sessionClosedTopic :: string where
  "sessionClosedTopic = ''live.session.closed.v1''"

record ContributorSummary =
  cs_ViewerID :: u64
  cs_Coins :: i64

record SettlementResponse =
  sr_LiveSessionID :: u64
  sr_GrossCoinSpend :: i64
  sr_AcceptedGiftCount :: i64
  sr_DiamondRewardTotal :: i64
  sr_TopContributors :: "ContributorSummary list"
  sr_ReconciliationStatus :: ReconciliationResultsStatus
  sr_WalletGiftDebitTotal :: i64
  sr_GiftOrderCoinTotal :: i64
  sr_MismatchCount :: int
  sr_ReconciliationDetails :: string

text \<open>A DECIMAL sum scanned into an \<open>int64\<close>.\<close>

definition scan_int64 :: "int \<Rightarrow> go_error + i64" where
  "scan_int64 x =
     (if in_i64 x then Inr x else Inl (Errorf ''converting driver.Value: value out of range''))"

definition internal_error :: "env \<Rightarrow> go_error \<Rightarrow> 'a outcome" where
  "internal_error e er =
     App \<lparr>HTTPStatus = 500, Code = ''INTERNAL_ERROR'', Message = error_text e er\<rparr>"

section \<open>Closing a session\<close>

text \<open>\<open>UPDATE live_sessions SET status = 'CLOSED' ... WHERE ... status = 'OPEN'\<close>, with its row count.\<close>

definition closes :: "u64 \<Rightarrow> LiveSession \<Rightarrow> bool" where
  "closes sid s \<longleftrightarrow> ls_LiveSessionID s = sid \<and> ls_Status s = SESSION_OPEN"

definition close_rows :: "u64 \<Rightarrow> micros \<Rightarrow> LiveSession list \<Rightarrow> LiveSession list" where
  "close_rows sid t = map (\<lambda>s. if closes sid s
     then s\<lparr>ls_Status := SESSION_CLOSED, ls_ClosedAt := Some t\<rparr> else s)"

definition CloseSessionRow :: "u64 \<Rightarrow> micros \<Rightarrow> nat sql" where
  "CloseSessionRow sid t d =
     (Inr (length (filter (closes sid) (live_sessions d))), live_sessions_update (close_rows sid t))"

definition close_missed :: "env \<Rightarrow> u64 \<Rightarrow> unit outcome prog" where
  "close_missed e sid =
     on_call (exec e (GetLiveSession sid))
       (\<lambda>er. if er = ErrNoRows
         then ret (App \<lparr>HTTPStatus = 404, Code = ''LIVE_SESSION_NOT_FOUND'',
                        Message = ''live session not found''\<rparr>)
         else ret (internal_error e er))
       (\<lambda>s. if ls_Status s = SESSION_CLOSED
         then ret (App \<lparr>HTTPStatus = 409, Code = ''LIVE_SESSION_CLOSED'',
                        Message = ''live session already closed''\<rparr>)
         else ret (App \<lparr>HTTPStatus = 409, Code = ''LIVE_SESSION_STATE_INVALID'',
                        Message = ''session state invalid''\<rparr>))"

definition close_tx :: "env \<Rightarrow> u64 \<Rightarrow> json \<Rightarrow> unit outcome prog" where
  "close_tx e sid payload =
     check_as (internal_error e) (exec e (CloseSessionRow sid)) (\<lambda>affected.
     if affected = 0 then close_missed e sid
     else
       check_as (internal_error e) (exec_outbox_insert e
         (InsertOutboxEvent sessionClosedTopic (FormatUint sid) payload)) (\<lambda>_.
       check_as (internal_error e) (Commit e) (\<lambda>_. ret (Ok ()))))"

definition CloseLiveSession :: "env \<Rightarrow> u64 \<Rightarrow> db \<Rightarrow> unit outcome \<times> db" where
  "CloseLiveSession e liveSessionID d =
     (if liveSessionID = 0 then (App errValidation, d)
      else case MarshalJSONString (marshal_session_closed
          \<lparr>lsc_LiveSessionID = liveSessionID, lsc_ClosedAtMs = now e 0 div 1000\<rparr>) of
        Inl er \<Rightarrow> (internal_error e er, d)
      | Inr payload \<Rightarrow> in_tx e (close_tx e liveSessionID payload) (internal_error e) d)"

section \<open>Settlement\<close>

definition session_exists :: "u64 \<Rightarrow> db \<Rightarrow> bool" where
  "session_exists sid d \<longleftrightarrow> list_ex (\<lambda>s. ls_LiveSessionID s = sid) (live_sessions d)"

definition SelectSessionExists :: "u64 \<Rightarrow> micros \<Rightarrow> unit sql" where
  "SelectSessionExists sid t d =
     (if session_exists sid d then (Inr (), id) else (Inl ErrNoRows, id))"

definition session_orders :: "u64 \<Rightarrow> db \<Rightarrow> GiftOrder list" where
  "session_orders sid d =
     filter (\<lambda>g. go_LiveSessionID g = sid \<and> go_Status g = ACCEPTED) (gift_orders d)"

definition gross_spend :: "u64 \<Rightarrow> db \<Rightarrow> int" where
  "gross_spend sid d = sum_list (map (\<lambda>g. uint (go_ChargedCoins g)) (session_orders sid d))"

definition diamond_total :: "u64 \<Rightarrow> db \<Rightarrow> int" where
  "diamond_total sid d = sum_list (map (\<lambda>g. uint (go_DiamondReward g)) (session_orders sid d))"

definition SelectOrderTotals :: "u64 \<Rightarrow> micros \<Rightarrow> (i64 \<times> i64 \<times> i64) sql" where
  "SelectOrderTotals sid t d =
     (case (scan_int64 (gross_spend sid d), scan_int64 (diamond_total sid d)) of
       (Inr gross, Inr diamonds) \<Rightarrow>
         (Inr (gross, int (length (session_orders sid d)), diamonds), id)
     | (Inl er, _) \<Rightarrow> (Inl er, id)
     | (_, Inl er) \<Rightarrow> (Inl er, id))"

text \<open>\<open>INSERT ... ON DUPLICATE KEY UPDATE\<close> on a table whose key is the session.\<close>

definition put :: "('r \<Rightarrow> u64) \<Rightarrow> 'r \<Rightarrow> 'r list \<Rightarrow> 'r list" where
  "put key row rows =
     (if list_ex (\<lambda>r. key r = key row) rows
      then map (\<lambda>r. if key r = key row then row else r) rows
      else rows @ [row])"

definition UpsertSettlement :: "u64 \<Rightarrow> i64 \<Rightarrow> i64 \<Rightarrow> i64 \<Rightarrow> micros \<Rightarrow> unit sql" where
  "UpsertSettlement sid gross gifts diamonds t d =
     (if \<not> session_exists sid d then (Inl (MySQLError mysql_no_parent), id)
      else (Inr (), stream_settlements_update (put ss_LiveSessionID
        \<lparr>ss_LiveSessionID = sid, ss_GrossCoinSpend = gross, ss_AcceptedGiftCount = gifts,
         ss_DiamondRewardTotal = diamonds, ss_GeneratedAt = t\<rparr>)))"

text \<open>\<open>LIKE\<close>: \<open>%\<close> stands for any sequence, \<open>_\<close> for any one character.\<close>

fun like :: "(char \<Rightarrow> char \<Rightarrow> bool) \<Rightarrow> string \<Rightarrow> string \<Rightarrow> bool" where
  "like eq [] cs = (cs = [])"
| "like eq (p # ps) cs =
     (if p = CHR ''%'' then list_ex (like eq ps) (map (\<lambda>n. drop n cs) [0..<Suc (length cs)])
      else case cs of
        [] \<Rightarrow> False
      | c # cs' \<Rightarrow> (p = CHR ''_'' \<or> eq p c) \<and> like eq ps cs')"

definition user_account :: "(string \<Rightarrow> string) \<Rightarrow> string \<Rightarrow> bool" where
  "user_account coll code = like (\<lambda>a b. coll [a] = coll [b]) ''USER_COINS:%'' code"

text \<open>The three-way join of the reconciliation query.\<close>

definition debit_rows :: "(string \<Rightarrow> string) \<Rightarrow> db \<Rightarrow> GiftOrder \<Rightarrow> WalletEntry list" where
  "debit_rows coll d g =
     concat (map (\<lambda>w. filter (\<lambda>x. we_TxID x = wt_TxID w \<and> user_account coll (we_AccountCode x))
                        (wallet_entries d))
       (filter (\<lambda>w. wt_ActorUserID w = go_ViewerID g \<and>
                    coll (wt_RequestID w) = coll (go_RequestID g) \<and> wt_TxType w = GIFT_DEBIT)
          (wallet_transactions d)))"

definition wallet_debits :: "(string \<Rightarrow> string) \<Rightarrow> u64 \<Rightarrow> db \<Rightarrow> int" where
  "wallet_debits coll sid d =
     sum_list (map (\<lambda>x. - we_Amount x) (concat (map (debit_rows coll d) (session_orders sid d))))"

definition SelectWalletDebits :: "(string \<Rightarrow> string) \<Rightarrow> u64 \<Rightarrow> micros \<Rightarrow> i64 sql" where
  "SelectWalletDebits coll sid t d = (scan_int64 (wallet_debits coll sid d), id)"

definition UpsertReconciliation ::
  "u64 \<Rightarrow> ReconciliationResultsStatus \<Rightarrow> i64 \<Rightarrow> i64 \<Rightarrow> int \<Rightarrow> json \<Rightarrow> micros \<Rightarrow> unit sql" where
  "UpsertReconciliation sid st debits orders mismatch details t d =
     (if \<not> session_exists sid d then (Inl (MySQLError mysql_no_parent), id)
      else (Inr (), reconciliation_results_update (put rc_LiveSessionID
        \<lparr>rc_LiveSessionID = sid, rc_Status = st, rc_WalletGiftDebitTotal = debits,
         rc_GiftOrderCoinTotal = orders, rc_MismatchCount = mismatch, rc_DetailsJson = details,
         rc_GeneratedAt = t\<rparr>)))"

section \<open>Reading a settlement\<close>

definition viewer_total :: "u64 \<Rightarrow> GiftOrder list \<Rightarrow> int" where
  "viewer_total = total_by go_ViewerID (\<lambda>g. uint (go_ChargedCoins g))"

text \<open>\<open>GROUP BY viewer_id ORDER BY total DESC, viewer_id ASC LIMIT n\<close>.\<close>

definition ranked :: "nat \<Rightarrow> GiftOrder list \<Rightarrow> (u64 \<times> int) list" where
  "ranked = rank_by go_ViewerID (\<lambda>g. uint (go_ChargedCoins g))"

fun scan_contributors :: "(u64 \<times> int) list \<Rightarrow> go_error + ContributorSummary list" where
  "scan_contributors [] = Inr []"
| "scan_contributors ((v, c) # rows) =
     (case scan_int64 c of
       Inl er \<Rightarrow> Inl er
     | Inr coins \<Rightarrow>
         (case scan_contributors rows of
           Inl er \<Rightarrow> Inl er
         | Inr cs \<Rightarrow> Inr (\<lparr>cs_ViewerID = v, cs_Coins = coins\<rparr> # cs)))"

definition SelectContributors :: "nat \<Rightarrow> u64 \<Rightarrow> micros \<Rightarrow> ContributorSummary list sql" where
  "SelectContributors n sid t d = (scan_contributors (ranked n (session_orders sid d)), id)"

definition SelectSettlement ::
  "u64 \<Rightarrow> micros \<Rightarrow> (StreamSettlement \<times> ReconciliationResult) sql" where
  "SelectSettlement sid t d =
     (case (find (\<lambda>s. ss_LiveSessionID s = sid) (stream_settlements d),
            find (\<lambda>r. rc_LiveSessionID r = sid) (reconciliation_results d)) of
       (Some s, Some r) \<Rightarrow> (Inr (s, r), id)
     | _ \<Rightarrow> (Inl ErrNoRows, id))"

definition settlement_response ::
  "env \<Rightarrow> u64 \<Rightarrow> StreamSettlement \<Rightarrow> ReconciliationResult \<Rightarrow> ContributorSummary list
     \<Rightarrow> SettlementResponse" where
  "settlement_response e sid s r cs =
     \<lparr>sr_LiveSessionID = sid, sr_GrossCoinSpend = ss_GrossCoinSpend s,
      sr_AcceptedGiftCount = ss_AcceptedGiftCount s,
      sr_DiamondRewardTotal = ss_DiamondRewardTotal s, sr_TopContributors = cs,
      sr_ReconciliationStatus = rc_Status r,
      sr_WalletGiftDebitTotal = rc_WalletGiftDebitTotal r,
      sr_GiftOrderCoinTotal = rc_GiftOrderCoinTotal r, sr_MismatchCount = rc_MismatchCount r,
      sr_ReconciliationDetails = cast_char e (rc_DetailsJson r)\<rparr>"

definition GetSettlement :: "env \<Rightarrow> u64 \<Rightarrow> SettlementResponse outcome prog" where
  "GetSettlement e liveSessionID =
     on_call (auto_exec e (SelectSettlement liveSessionID))
       (\<lambda>er. if er = ErrNoRows
         then ret (App \<lparr>HTTPStatus = 404, Code = ''SETTLEMENT_NOT_FOUND'',
                        Message = ''settlement not found''\<rparr>)
         else ret (Err er))
       (\<lambda>(s, r). check (auto_exec e (SelectContributors 20 liveSessionID)) (\<lambda>cs.
         ret (Ok (settlement_response e liveSessionID s r cs))))"

section \<open>Generating a settlement\<close>

definition reconciliation_details :: "i64 \<Rightarrow> i64 \<Rightarrow> json" where
  "reconciliation_details walletDebitTotal giftOrderTotal = JObj
     [(''gift_order_coin_total'', JNum giftOrderTotal),
      (''wallet_gift_debit_total'', JNum walletDebitTotal)]"

text \<open>The answer is that of \<open>GetSettlement\<close>, whose application errors become plain errors.\<close>

definition settlement_answer ::
  "env \<Rightarrow> u64 \<Rightarrow> (go_error + SettlementResponse) prog" where
  "settlement_answer e sid c =
     (case GetSettlement e sid c of
       (Ok res, c') \<Rightarrow> (Inr res, c')
     | (App a, c') \<Rightarrow> (Inl (Errorf (''get settlement app error: '' @ Code a)), c')
     | (Err er, c') \<Rightarrow> (Inl er, c'))"

definition settlement_tx :: "env \<Rightarrow> u64 \<Rightarrow> (go_error + SettlementResponse) prog" where
  "settlement_tx e sid =
     check_as Inl (exec e (SelectSessionExists sid)) (\<lambda>_.
     check_as Inl (exec e (SelectOrderTotals sid)) (\<lambda>(grossSpend, giftCount, diamondTotal).
     check_as Inl (exec e (UpsertSettlement sid grossSpend giftCount diamondTotal)) (\<lambda>_.
     check_as Inl (exec e (SelectWalletDebits (collate e) sid)) (\<lambda>walletDebitTotal.
     let giftOrderTotal = grossSpend;
         (status, mismatchCount) =
           (if walletDebitTotal \<noteq> giftOrderTotal then (FAIL, 1) else (PASS, 0 :: int));
         details = reconciliation_details walletDebitTotal giftOrderTotal in
     check_as Inl (exec e (UpsertReconciliation sid status walletDebitTotal giftOrderTotal
                             mismatchCount details)) (\<lambda>_.
     check_as Inl (Commit e) (\<lambda>_. settlement_answer e sid))))))"

definition GenerateSettlement :: "env \<Rightarrow> u64 \<Rightarrow> db \<Rightarrow> (go_error + SettlementResponse) \<times> db" where
  "GenerateSettlement e liveSessionID d = in_tx e (settlement_tx e liveSessionID) Inl d"

section \<open>The reconciliation agrees with the ledger\<close>

lemma like_end [simp]: "like eq ''%'' cs"
  by (auto simp: list_ex_iff image_iff intro!: bexI [of _ "length cs"])

declare like.simps (2) [simp del]

lemma like_Cons [simp]:
  "p \<noteq> CHR ''%'' \<Longrightarrow> like eq (p # ps) (c # cs) \<longleftrightarrow> (p = CHR ''_'' \<or> eq p c) \<and> like eq ps cs"
  by (simp add: like.simps)

lemma user_account_user_coins [simp]: "user_account coll (user_coins v)"
  by (simp add: user_account_def user_coins_def)

lemma user_account_platform:
  "coll ''U'' \<noteq> coll ''P'' \<Longrightarrow> \<not> user_account coll ''PLATFORM_RESERVED_COINS''"
  by (simp add: user_account_def)

lemma debit_rows_accepted:
  assumes inv: "ledger_inv coll d" and up: "coll ''U'' \<noteq> coll ''P''" and g: "g \<in> set (accepted d)"
  shows "\<exists>t. debit_rows coll d g = [\<lparr>we_TxID = t, we_AccountCode = user_coins (go_ViewerID g),
                                     we_Amount = - uint (go_ChargedCoins g)\<rparr>]"
proof -
  obtain w where w: "w \<in> set (txs_of GIFT_DEBIT d)" and m: "debit_matches d w g"
    using inv g list_all2_right [of "debit_matches d" _ _ g] by (auto simp: ledger_inv_def)
  have w': "w \<in> set (wallet_transactions d)" "wt_TxType w = GIFT_DEBIT"
    using w by (simp_all add: txs_of_def)
  have "filter (\<lambda>w. wt_ActorUserID w = go_ViewerID g \<and> coll (wt_RequestID w) = coll (go_RequestID g) \<and>
           wt_TxType w = GIFT_DEBIT) (wallet_transactions d) = [w]"
    by (rule filter_unique [where k = "tx_key coll"])
      (use inv w' m in \<open>auto simp: ledger_inv_def debit_matches_def tx_key_def\<close>)
  moreover have "filter (\<lambda>x. we_TxID x = wt_TxID w \<and> user_account coll (we_AccountCode x))
      (wallet_entries d) = filter (\<lambda>x. user_account coll (we_AccountCode x)) (entries_of (wt_TxID w) d)"
    by (simp add: entries_of_def conj_commute)
  ultimately show ?thesis
    using m up
    by (intro exI [of _ "wt_TxID w"])
      (simp add: debit_rows_def debit_matches_def posting_def user_account_platform)
qed

lemma session_orders_accepted: "g \<in> set (session_orders sid d) \<Longrightarrow> g \<in> set (accepted d)"
  by (simp add: session_orders_def accepted_def)

lemma wallet_debits_eq_gross:
  assumes "ledger_inv coll d" and "coll ''U'' \<noteq> coll ''P''"
  shows "wallet_debits coll sid d = gross_spend sid d"
  unfolding wallet_debits_def gross_spend_def sum_list_concat_map
proof (rule sum_list_map_cong)
  fix g assume "g \<in> set (session_orders sid d)"
  from debit_rows_accepted [OF assms session_orders_accepted [OF this]] obtain t where
    "debit_rows coll d g = [\<lparr>we_TxID = t, we_AccountCode = user_coins (go_ViewerID g),
                              we_Amount = - uint (go_ChargedCoins g)\<rparr>]" by blast
  then show "sum_list (map (\<lambda>x. - we_Amount x) (debit_rows coll d g)) = uint (go_ChargedCoins g)"
    by simp
qed

section \<open>What closing a session does\<close>

definition session_closed :: "env \<Rightarrow> u64 \<Rightarrow> micros \<Rightarrow> micros \<Rightarrow> db \<Rightarrow> db" where
  "session_closed e sid t t' d = d\<lparr>
     live_sessions := map (\<lambda>s. if ls_LiveSessionID s = sid \<and> ls_Status s = SESSION_OPEN
       then s\<lparr>ls_Status := SESSION_CLOSED, ls_ClosedAt := Some t\<rparr> else s) (live_sessions d),
     outbox_events := outbox_events d @
       [outbox_row (next_event_id d) sessionClosedTopic (FormatUint sid)
          (marshal_session_closed \<lparr>lsc_LiveSessionID = sid, lsc_ClosedAtMs = now e 0 div 1000\<rparr>) t'],
     next_event_id := Suc (next_event_id d)\<rparr>"

definition open_session :: "u64 \<Rightarrow> db \<Rightarrow> bool" where
  "open_session sid d \<longleftrightarrow>
     list_ex (\<lambda>s. ls_LiveSessionID s = sid \<and> ls_Status s = SESSION_OPEN) (live_sessions d)"

text \<open>The statement of the service touches exactly the rows that are meant.\<close>

lemma open_session_closes: "open_session sid d \<longleftrightarrow> list_ex (closes sid) (live_sessions d)"
  by (simp add: open_session_def closes_def list_ex_iff)

lemma session_closed_rows:
  "session_closed e sid t t' d = d\<lparr>
     live_sessions := close_rows sid t (live_sessions d),
     outbox_events := outbox_events d @
       [outbox_row (next_event_id d) sessionClosedTopic (FormatUint sid)
          (marshal_session_closed \<lparr>lsc_LiveSessionID = sid, lsc_ClosedAtMs = now e 0 div 1000\<rparr>) t'],
     next_event_id := Suc (next_event_id d)\<rparr>"
  by (simp add: session_closed_def close_rows_def closes_def)

definition close_refused :: "env \<Rightarrow> u64 \<Rightarrow> db \<Rightarrow> unit outcome \<Rightarrow> bool" where
  "close_refused e sid d r \<longleftrightarrow>
     sid = 0 \<and> r = App errValidation \<or> (\<exists>er. r = internal_error e er) \<or>
     sid \<noteq> 0 \<and> \<not> open_session sid d \<and>
       r = App (if session_exists sid d
         then \<lparr>HTTPStatus = 409, Code = ''LIVE_SESSION_CLOSED'',
               Message = ''live session already closed''\<rparr>
         else \<lparr>HTTPStatus = 404, Code = ''LIVE_SESSION_NOT_FOUND'',
               Message = ''live session not found''\<rparr>)"

definition close_result :: "env \<Rightarrow> u64 \<Rightarrow> db \<Rightarrow> unit outcome \<Rightarrow> db \<Rightarrow> bool" where
  "close_result e sid d r d' \<longleftrightarrow>
     untouched d d' \<and> close_refused e sid d r \<or>
     sid \<noteq> 0 \<and> open_session sid d \<and> next_event_id d < 2 ^ 64 \<and>
       (\<exists>t t'. d' = session_closed e sid t t' d) \<and>
       (r = Ok () \<or> (\<exists>er. r = internal_error e er))"

lemma CloseSessionRow_ok [sql_spec]:
  "CloseSessionRow sid t d = (Inr n, w) \<longleftrightarrow>
     n = length (filter (closes sid) (live_sessions d)) \<and> w = live_sessions_update (close_rows sid t)"
  by (auto simp: CloseSessionRow_def)

lemma close_rows_none: "filter (closes sid) ss = [] \<Longrightarrow> close_rows sid t ss = ss"
  by (induction ss) (auto simp: close_rows_def split: if_splits)

lemma internal_error_not_Ok [simp]: "internal_error e er \<noteq> Ok x" "Ok x \<noteq> internal_error e er"
  by (simp_all add: internal_error_def)

lemma abortable_close: "abortable (internal_error e) d (\<lambda>r c. close_result e sid d r (cdb c))"
  by (auto simp: abortable_def close_result_def close_refused_def)

lemma close_missed_wp:
  assumes q: "quiet e" and none: "filter (closes sid) (live_sessions d) = []" and "sid \<noteq> 0"
    and W: "live_sessions (W d) = live_sessions d"
  shows "wp (close_missed e sid) (\<lambda>r c. close_result e sid d r (cdb c)) (at d W n)"
proof -
  have shut: "\<not> open_session sid d" using none by (auto simp: open_session_closes list_ex_iff filter_empty_conv)
  have closed: "ls_Status s = SESSION_CLOSED" "session_exists sid d"
    if "find (\<lambda>s. ls_LiveSessionID s = sid) (live_sessions d) = Some s" for s
    using find_SomeD [OF that] none
    by (cases "ls_Status s"; auto simp: filter_empty_conv closes_def session_exists_def list_ex_iff)+
  show ?thesis
    unfolding close_missed_def
    by (rule vc_on_exec [OF q])
      (use assms shut closed in \<open>auto simp: sql_spec close_result_def close_refused_def session_exists_def
         find_None_iff list_ex_iff\<close>)
qed

lemma session_closed_result:
  assumes "sid \<noteq> 0" and "open_session sid d" and "next_event_id d < 2 ^ 64"
    and "D = session_closed e sid t t' d" and "r = Ok () \<or> (\<exists>er. r = internal_error e er)"
  shows "close_result e sid d r D"
  using assms by (auto simp: close_result_def)

lemma CloseLiveSession_cases:
  assumes q: "quiet e" and run: "CloseLiveSession e sid d = (r, d')"
  shows "close_result e sid d r d'"
proof (cases "sid = 0")
  case True
  then show ?thesis using run by (auto simp: CloseLiveSession_def close_result_def close_refused_def)
next
  case False
  let ?p = "marshal_session_closed \<lparr>lsc_LiveSessionID = sid, lsc_ClosedAtMs = now e 0 div 1000\<rparr>"
  note ab = abortable_close [of e d sid]
  note eff = session_closed_result [OF False, of _ _ _ "now e (Suc 0)" "now e (Suc (Suc 0))"]
  have "wp (close_tx e sid ?p) (\<lambda>r c. close_result e sid d r (cdb c)) (at d id 1)"
    unfolding close_tx_def exec_outbox_insert_def
    apply (rule vc_exec [OF q ab], simp)
    apply (split if_split, intro conjI impI)
     apply (rule close_missed_wp [OF q _ False]; simp add: sql_spec close_rows_none)
    apply (rule vc_exec_alloc [OF q ab], simp, simp)
    apply (rule vc_commit [OF q ab], simp)
     apply (rule eff; auto simp: sql_spec session_closed_rows outbox_row_def list_ex_iff
        filter_empty_conv open_session_closes)
    apply (simp, rule eff; auto simp: sql_spec session_closed_rows outbox_row_def list_ex_iff
        filter_empty_conv open_session_closes)
    done
  then show ?thesis
    by (intro in_tx_wp [of e "close_tx e sid ?p" "internal_error e" d r d' "close_result e sid d"])
      (use q run False in \<open>auto simp: CloseLiveSession_def MarshalJSONString_def close_result_def
        close_refused_def\<close>)
qed

section \<open>What a settlement does\<close>

definition settlement_row :: "u64 \<Rightarrow> micros \<Rightarrow> db \<Rightarrow> StreamSettlement" where
  "settlement_row sid t d =
     \<lparr>ss_LiveSessionID = sid, ss_GrossCoinSpend = gross_spend sid d,
      ss_AcceptedGiftCount = int (length (session_orders sid d)),
      ss_DiamondRewardTotal = diamond_total sid d, ss_GeneratedAt = t\<rparr>"

definition reconciliation_row :: "(string \<Rightarrow> string) \<Rightarrow> u64 \<Rightarrow> micros \<Rightarrow> db \<Rightarrow> ReconciliationResult" where
  "reconciliation_row coll sid t d =
     (let debits = wallet_debits coll sid d; orders = gross_spend sid d in
      \<lparr>rc_LiveSessionID = sid, rc_Status = (if debits \<noteq> orders then FAIL else PASS),
       rc_WalletGiftDebitTotal = debits, rc_GiftOrderCoinTotal = orders,
       rc_MismatchCount = (if debits \<noteq> orders then 1 else 0),
       rc_DetailsJson = reconciliation_details debits orders, rc_GeneratedAt = t\<rparr>)"

definition settled :: "(string \<Rightarrow> string) \<Rightarrow> u64 \<Rightarrow> micros \<Rightarrow> micros \<Rightarrow> db \<Rightarrow> db" where
  "settled coll sid t t' d = d\<lparr>
     stream_settlements := put ss_LiveSessionID (settlement_row sid t d) (stream_settlements d),
     reconciliation_results :=
       put rc_LiveSessionID (reconciliation_row coll sid t' d) (reconciliation_results d)\<rparr>"

definition settlement_result ::
  "env \<Rightarrow> u64 \<Rightarrow> db \<Rightarrow> (go_error + SettlementResponse) \<Rightarrow> db \<Rightarrow> bool" where
  "settlement_result e sid d r d' \<longleftrightarrow>
     untouched d d' \<and> (\<exists>er. r = Inl er) \<or>
     session_exists sid d \<and>
     (\<exists>t t'. d' = settled (collate e) sid t t' d \<and>
        ((\<exists>er. r = Inl er) \<or>
         (\<exists>cs. scan_contributors (ranked 20 (session_orders sid d)) = Inr cs \<and>
            r = Inr (settlement_response e sid (settlement_row sid t d)
                       (reconciliation_row (collate e) sid t' d) cs))))"

lemma find_put [simp]: "key row = k \<Longrightarrow> find (\<lambda>r. key r = k) (put key row rows) = Some row"
proof (cases "list_ex (\<lambda>r. key r = key row) rows")
  case True
  assume k: "key row = k"
  have "find (\<lambda>r. key r = k) (map (\<lambda>r. if key r = key row then row else r) rows) =
      (if list_ex (\<lambda>r. key r = key row) rows then Some row else None)"
    using k by (induction rows) auto
  with True show ?thesis by (simp add: put_def)
next
  case False
  assume "key row = k"
  with False show ?thesis
    by (auto simp: put_def find_append list_ex_iff split: option.splits dest: find_SomeD)
qed

lemma settlement_statements [sql_spec]:
  "SelectSessionExists sid t d = (Inr x, w) \<longleftrightarrow> w = id \<and> session_exists sid d"
  "SelectOrderTotals sid t d = (Inr y, w) \<longleftrightarrow>
     w = id \<and> y = (gross_spend sid d, int (length (session_orders sid d)), diamond_total sid d) \<and>
     in_i64 (gross_spend sid d) \<and> in_i64 (diamond_total sid d)"
  "UpsertSettlement sid g n m t d = (Inr x, w) \<longleftrightarrow>
     session_exists sid d \<and> w = stream_settlements_update (put ss_LiveSessionID
        \<lparr>ss_LiveSessionID = sid, ss_GrossCoinSpend = g, ss_AcceptedGiftCount = n,
         ss_DiamondRewardTotal = m, ss_GeneratedAt = t\<rparr>)"
  "SelectWalletDebits coll sid t d = (Inr z, w) \<longleftrightarrow>
     w = id \<and> z = wallet_debits coll sid d \<and> in_i64 (wallet_debits coll sid d)"
  "UpsertReconciliation sid st debits orders mismatch details t d = (Inr x, w) \<longleftrightarrow>
     session_exists sid d \<and> w = reconciliation_results_update (put rc_LiveSessionID
        \<lparr>rc_LiveSessionID = sid, rc_Status = st, rc_WalletGiftDebitTotal = debits,
         rc_GiftOrderCoinTotal = orders, rc_MismatchCount = mismatch, rc_DetailsJson = details,
         rc_GeneratedAt = t\<rparr>)"
  by (auto simp: SelectSessionExists_def SelectOrderTotals_def UpsertSettlement_def
      SelectWalletDebits_def UpsertReconciliation_def scan_int64_def)

lemma debit_rows_stable [simp]: "debit_rows coll (stream_settlements_update f d) = debit_rows coll d"
  by (simp add: debit_rows_def fun_eq_iff)

lemma settlement_tables_stable [simp]:
  "session_exists sid (stream_settlements_update f d) = session_exists sid d"
  "session_orders sid (stream_settlements_update f d) = session_orders sid d"
  "session_orders sid (reconciliation_results_update g d) = session_orders sid d"
  "gross_spend sid (stream_settlements_update f d) = gross_spend sid d"
  "wallet_debits coll sid (stream_settlements_update f d) = wallet_debits coll sid d"
  by (simp_all add: session_exists_def session_orders_def gross_spend_def wallet_debits_def)

lemma settlement_answer_wp:
  assumes q: "quiet e" and ex: "session_exists sid d" and D: "D = settled (collate e) sid t t' d"
  shows "wp (settlement_answer e sid) (\<lambda>r c. settlement_result e sid d r (cdb c)) (at D id n)"
proof -
  let ?Q = "\<lambda>r c. settlement_result e sid d
      (case r of Ok res \<Rightarrow> Inr res | App a \<Rightarrow> Inl (Errorf (''get settlement app error: '' @ Code a))
       | Err er \<Rightarrow> Inl er) (cdb c)"
  have err: "settlement_result e sid d (Inl er) D" for er
    using ex D by (auto simp: settlement_result_def)
  have row: "SelectSettlement sid s D = (Inr (settlement_row sid t d, reconciliation_row (collate e) sid t' d), id)" for s
    by (simp add: SelectSettlement_def D settled_def settlement_row_def reconciliation_row_def Let_def)
  have ok: "settlement_result e sid d (Inr (settlement_response e sid (settlement_row sid t d)
      (reconciliation_row (collate e) sid t' d) cs)) D"
    if "scan_contributors (ranked 20 (session_orders sid D)) = Inr cs" for cs
    using that ex D by (auto simp: settlement_result_def settled_def)
  have "wp (GetSettlement e sid) ?Q (at D id n)"
    unfolding GetSettlement_def check_as_def
    apply (rule vc_on_read [OF q])
    apply (simp add: SelectSettlement_def split: option.splits)
     apply (simp add: err)
     apply (simp add: err)
    apply (simp add: row)
    apply (rule vc_on_read [OF q])
    apply (simp_all add: SelectContributors_def err ok)
    done
  then show ?thesis
    by (auto simp: wp_def settlement_answer_def split: prod.splits outcome.splits)
qed

lemma GenerateSettlement_cases:
  assumes q: "quiet e" and run: "GenerateSettlement e sid d = (r, d')"
  shows "settlement_result e sid d r d'"
proof -
  have ab: "abortable Inl d (\<lambda>r c. settlement_result e sid d r (cdb c))"
    by (simp add: abortable_def settlement_result_def)
  have err: "settlement_result e sid d (Inl er) D"
    if "session_exists sid d" "D = settled (collate e) sid t t' d" for er D t t'
    using that by (auto simp: settlement_result_def)
  have "wp (settlement_tx e sid) (\<lambda>r c. settlement_result e sid d r (cdb c)) (at d id 1)"
    unfolding settlement_tx_def
    apply (rule vc_exec [OF q ab], simp)
    apply (rule vc_exec [OF q ab], simp, clarify)
    apply (rule vc_exec [OF q ab], simp)
    apply (rule vc_exec [OF q ab], simp)
    apply (simp only: Let_def split_beta)
    apply (rule vc_exec [OF q ab], simp)
    apply (rule vc_commit [OF q ab], simp)
     apply (rule err [of _ "now e (Suc (Suc 1))" "now e (Suc (Suc (Suc (Suc 1))))"];
        simp add: sql_spec settled_def settlement_row_def reconciliation_row_def Let_def)
    apply (rule settlement_answer_wp [OF q, of _ _ _ "now e (Suc (Suc 1))" "now e (Suc (Suc (Suc (Suc 1))))"];
        simp add: sql_spec settled_def settlement_row_def reconciliation_row_def Let_def)
    done
  then show ?thesis
    by (intro in_tx_wp [of e "settlement_tx e sid" Inl d r d' "settlement_result e sid d"])
      (use q run in \<open>auto simp: GenerateSettlement_def settlement_result_def\<close>)
qed

section \<open>Rankings\<close>

lemma viewer_total_le: "viewer_total v gs \<le> sum_list (map (\<lambda>g. uint (go_ChargedCoins g)) gs)"
  unfolding viewer_total_def by (rule total_by_le) simp

lemma viewer_total_nonneg: "0 \<le> viewer_total v gs"
  unfolding viewer_total_def by (rule total_by_nonneg) simp

lemma ranked_totals: "p \<in> set (ranked n gs) \<Longrightarrow> snd p = viewer_total (fst p) gs"
  unfolding ranked_def viewer_total_def by (rule rank_by_totals)

lemma scan_contributors_ok:
  "\<forall>p \<in> set rows. in_i64 (snd p) \<Longrightarrow>
     scan_contributors rows = Inr (map (\<lambda>p. \<lparr>cs_ViewerID = fst p, cs_Coins = snd p\<rparr>) rows)"
  by (induction rows rule: scan_contributors.induct) (auto simp: scan_int64_def)

definition top_contributors :: "nat \<Rightarrow> u64 \<Rightarrow> db \<Rightarrow> ContributorSummary list" where
  "top_contributors n sid d =
     map (\<lambda>p. \<lparr>cs_ViewerID = fst p, cs_Coins = snd p\<rparr>) (ranked n (session_orders sid d))"

lemma contributors_scan:
  assumes "in_i64 (gross_spend sid d)"
  shows "scan_contributors (ranked n (session_orders sid d)) = Inr (top_contributors n sid d)"
proof -
  have "in_i64 (snd p)" if "p \<in> set (ranked n (session_orders sid d))" for p
    using ranked_totals [OF that] assms viewer_total_nonneg [of "fst p" "session_orders sid d"]
      viewer_total_le [of "fst p" "session_orders sid d"]
    by (simp add: in_i64_def gross_spend_def)
  then show ?thesis by (simp add: scan_contributors_ok top_contributors_def)
qed

text \<open>Without faults a settlement of an existing session is generated and returned.\<close>

lemma GenerateSettlement_runs:
  assumes c: "calm e" and ex: "session_exists sid d"
    and fits: "in_i64 (gross_spend sid d)" "in_i64 (diamond_total sid d)"
      "in_i64 (wallet_debits (collate e) sid d)"
  shows "\<exists>t t'. GenerateSettlement e sid d =
           (Inr (settlement_response e sid (settlement_row sid t d)
              (reconciliation_row (collate e) sid t' d) (top_contributors 20 sid d)),
            settled (collate e) sid t t' d)"
proof -
  have "\<exists>x. fst (GenerateSettlement e sid d) = Inr x"
    using c ex fits contributors_scan [OF fits(1), of 20]
    by (simp add: GenerateSettlement_def run_in_tx settlement_tx_def run_simps
        SelectSessionExists_def SelectOrderTotals_def scan_int64_def UpsertSettlement_def
        SelectWalletDebits_def UpsertReconciliation_def settlement_answer_def GetSettlement_def
        SelectSettlement_def SelectContributors_def Let_def ret_def split: prod.splits)
  then obtain x d' where run: "GenerateSettlement e sid d = (Inr x, d')"
    by (metis prod.collapse)
  from GenerateSettlement_cases [OF calm_quiet [OF c] run] contributors_scan [OF fits(1), of 20]
  show ?thesis using run by (auto simp: settlement_result_def)
qed

end
