(* ===== verification/Ingest.thy ===== *)
theory Ingest
  imports Settlement
begin

text \<open>
  The synthetic event ingest (\<open>internal/service/internal_events.go\<close>): one outbox event per
  comment, written by a statement of its own, and one per watched minute, written in one
  transaction. The minute loop counts in a \<open>uint16\<close>, so its termination is a theorem and
  not a matter of course.
\<close>

section \<open>Data\<close>

definition commentTopic :: string where
  "commentTopic = ''live.comment.created.v1''"

definition watchTopic :: string where
  "watchTopic = ''live.watch.minute.v1''"

record InternalCommentRequest =
  ic_EventID :: string
  ic_ViewerID :: u64
  ic_CreatorID :: u64
  ic_LiveSessionID :: u64

record InternalWatchMinutesRequest =
  iw_EventID :: string
  iw_ViewerID :: u64
  iw_CreatorID :: u64
  iw_LiveSessionID :: u64
  iw_Minutes :: u16

section \<open>Comments\<close>

definition comment_event :: "InternalCommentRequest \<Rightarrow> json" where
  "comment_event req = marshal_comment
     \<lparr>lcc_EventID = ic_EventID req, lcc_ViewerID = ic_ViewerID req,
      lcc_CreatorID = ic_CreatorID req, lcc_LiveSessionID = ic_LiveSessionID req\<rparr>"

text \<open>The statement runs on the pool, outside a transaction, and commits by itself.\<close>

definition EnqueueCommentEvent :: "env \<Rightarrow> InternalCommentRequest \<Rightarrow> db \<Rightarrow> unit outcome \<times> db" where
  "EnqueueCommentEvent e req d =
     (if blank (ic_EventID req) \<or> ic_ViewerID req = 0 \<or> ic_CreatorID req = 0 \<or>
         ic_LiveSessionID req = 0
        then (App errValidation, d)
      else case MarshalJSONString (comment_event req) of
        Inl er \<Rightarrow> (internal_error e er, d)
      | Inr payload \<Rightarrow>
          (case check_as (internal_error e)
                  (auto_exec_alloc e next_event_id (next_event_id_update Suc)
                    (InsertOutboxEvent commentTopic (FormatUint (ic_LiveSessionID req)) payload))
                  (\<lambda>_. ret (Ok ())) (connect d) of
            (r, c) \<Rightarrow> (r, cdb c)))"

section \<open>Watched minutes\<close>

definition minute_event :: "InternalWatchMinutesRequest \<Rightarrow> u16 \<Rightarrow> json" where
  "minute_event req i = marshal_watch_minute
     \<lparr>lwm_EventID = iw_EventID req @ ''-'' @ dec (unat i), lwm_ViewerID = iw_ViewerID req,
      lwm_CreatorID = iw_CreatorID req, lwm_LiveSessionID = iw_LiveSessionID req\<rparr>"

text \<open>
  \<open>for i := uint16(1); i <= req.Minutes; i++\<close> and the commit after it. The result is
  \<open>None\<close> when the loop does not end.
\<close>

partial_function (option) watch_loop ::
  "env \<Rightarrow> InternalWatchMinutesRequest \<Rightarrow> u16 \<Rightarrow> conn \<Rightarrow> (int outcome \<times> conn) option" where
  "watch_loop e req i c =
     (if i \<le> iw_Minutes req then
        (case MarshalJSONString (minute_event req i) of
          Inl er \<Rightarrow> Some (internal_error e er, c)
        | Inr payload \<Rightarrow>
            (case exec_outbox_insert e (InsertOutboxEvent watchTopic
                    (FormatUint (iw_LiveSessionID req)) payload) c of
              (Inl er, c1) \<Rightarrow> Some (internal_error e er, c1)
            | (Inr _, c1) \<Rightarrow> watch_loop e req (i + 1) c1))
      else
        (case Commit e c of
          (Inl er, c1) \<Rightarrow> Some (internal_error e er, c1)
        | (Inr _, c1) \<Rightarrow> Some (Ok (uint (iw_Minutes req)), c1)))"

declare watch_loop.simps [code]

definition EnqueueWatchMinuteEvents ::
  "env \<Rightarrow> InternalWatchMinutesRequest \<Rightarrow> db \<Rightarrow> (int outcome \<times> db) option" where
  "EnqueueWatchMinuteEvents e req d =
     (if blank (iw_EventID req) \<or> iw_ViewerID req = 0 \<or> iw_CreatorID req = 0 \<or>
         iw_LiveSessionID req = 0 \<or> iw_Minutes req = 0
        then Some (App errValidation, d)
      else case BeginTx e (connect d) of
        (Inl er, c) \<Rightarrow> Some (internal_error e er, cdb c)
      | (Inr _, c) \<Rightarrow>
          (case watch_loop e req 1 c of
            None \<Rightarrow> None
          | Some (r, c') \<Rightarrow> Some (r, cdb (Rollback c'))))"

section \<open>What a comment does\<close>

definition comment_queued :: "InternalCommentRequest \<Rightarrow> micros \<Rightarrow> db \<Rightarrow> db" where
  "comment_queued req t d = d\<lparr>
     outbox_events := outbox_events d @
       [outbox_row (next_event_id d) commentTopic (FormatUint (ic_LiveSessionID req))
          (comment_event req) t],
     next_event_id := Suc (next_event_id d)\<rparr>"

definition comment_result ::
  "env \<Rightarrow> InternalCommentRequest \<Rightarrow> db \<Rightarrow> unit outcome \<Rightarrow> db \<Rightarrow> bool" where
  "comment_result e req d r d' \<longleftrightarrow>
     untouched d d' \<and> r \<noteq> Ok () \<or>
     next_event_id d < 2 ^ 64 \<and> (\<exists>t. d' = comment_queued req t d)"

lemma outbox_insert_fails:
  "InsertOutboxEvent topic key payload n t d = (Inl er, w) \<Longrightarrow> w = id"
  by (auto simp: InsertOutboxEvent_def split: if_splits)

definition comment_valid :: "InternalCommentRequest \<Rightarrow> bool" where
  "comment_valid req \<longleftrightarrow>
     \<not> blank (ic_EventID req) \<and> ic_ViewerID req \<noteq> 0 \<and> ic_CreatorID req \<noteq> 0 \<and>
     ic_LiveSessionID req \<noteq> 0"

lemma EnqueueCommentEvent_valid:
  "comment_valid req \<Longrightarrow> EnqueueCommentEvent e req d =
     (case check_as (internal_error e)
             (auto_exec_alloc e next_event_id (next_event_id_update Suc)
               (InsertOutboxEvent commentTopic (FormatUint (ic_LiveSessionID req)) (comment_event req)))
             (\<lambda>_. ret (Ok ())) (connect d) of
       (r, c) \<Rightarrow> (r, cdb c))"
  by (simp add: comment_valid_def EnqueueCommentEvent_def MarshalJSONString_def)

lemma EnqueueCommentEvent_invalid:
  "\<not> comment_valid req \<Longrightarrow> EnqueueCommentEvent e req d = (App errValidation, d)"
  unfolding comment_valid_def EnqueueCommentEvent_def by (rule if_P) blast

lemma comment_not_queued: "untouched d d' \<Longrightarrow> r \<noteq> Ok () \<Longrightarrow> comment_result e req d r d'"
  by (simp add: comment_result_def)

lemma EnqueueCommentEvent_cases:
  assumes q: "quiet e" and run: "EnqueueCommentEvent e req d = (r, d')"
  shows "comment_result e req d r d'"
proof (cases "comment_valid req")
  case False
  then show ?thesis using run by (auto simp: EnqueueCommentEvent_invalid comment_result_def)
next
  case True
  obtain x w where res: "InsertOutboxEvent commentTopic (FormatUint (ic_LiveSessionID req))
      (comment_event req) (next_event_id d) (now e 0) d = (x, w)" by force
  note unf = EnqueueCommentEvent_valid [OF True] check_as_def on_call_def auto_exec_alloc_def
    exec_alloc_def connect_def view_def Let_def ret_def
  show ?thesis
  proof (cases x)
    case (Inl er)
    with res have "w = id" using outbox_insert_fails by blast
    with run res q Inl show ?thesis
      by (auto simp: unf comment_not_queued split: option.splits fault.splits)
  next
    case (Inr u)
    with res have n: "next_event_id d < 2 ^ 64"
      and w: "w = outbox_events_update (\<lambda>os. os @ [outbox_row (next_event_id d) commentTopic
                (FormatUint (ic_LiveSessionID req)) (comment_event req) (now e 0)])"
      by (auto simp: sql_spec outbox_row_def)
    have "comment_result e req d r (w (next_event_id_update Suc d))" for r
      unfolding comment_result_def w
      using n by (intro disjI2 conjI exI [of _ "now e 0"]) (simp_all add: comment_queued_def)
    with run res q Inr show ?thesis
      by (auto simp: unf comment_not_queued split: option.splits fault.splits)
  qed
qed

section \<open>What watched minutes do\<close>

text \<open>The loop over a list of minutes, and the rows it writes from the \<open>n\<close>-th call on.\<close>

primrec insert_minutes ::
  "env \<Rightarrow> InternalWatchMinutesRequest \<Rightarrow> u16 list \<Rightarrow> int outcome prog" where
  "insert_minutes e req [] =
     check_as (internal_error e) (Commit e) (\<lambda>_. ret (Ok (uint (iw_Minutes req))))"
| "insert_minutes e req (i # is) =
     check_as (internal_error e) (exec_outbox_insert e (InsertOutboxEvent watchTopic
         (FormatUint (iw_LiveSessionID req)) (minute_event req i)))
       (\<lambda>_. insert_minutes e req is)"

primrec minute_rows ::
  "env \<Rightarrow> InternalWatchMinutesRequest \<Rightarrow> nat \<Rightarrow> nat \<Rightarrow> u16 list \<Rightarrow> OutboxEvent list" where
  "minute_rows e req k n [] = []"
| "minute_rows e req k n (i # is) =
     outbox_row k watchTopic (FormatUint (iw_LiveSessionID req)) (minute_event req i) (now e n)
       # minute_rows e req (Suc k) (Suc n) is"

lemma length_minute_rows [simp]: "length (minute_rows e req k n is) = length is"
  by (induction "is" arbitrary: k n) simp_all

definition minutes_from :: "u16 \<Rightarrow> u16 \<Rightarrow> u16 list" where
  "minutes_from i m = map of_nat [unat i ..< Suc (unat m)]"

lemma minutes_from_Cons:
  assumes "i \<le> m" and "m < 65535"
  shows "minutes_from i m = i # minutes_from (i + 1) m"
proof -
  have le: "unat i \<le> unat m" and m: "unat m < 65535"
    using assms by (simp_all add: word_le_nat_alt word_less_nat_alt)
  then have "unat (i + 1) = Suc (unat i)"
    by (simp add: unat_word_ariths)
  with le show ?thesis by (simp add: minutes_from_def upt_conv_Cons del: upt_Suc)
qed

lemma minutes_from_Nil: "\<not> i \<le> m \<Longrightarrow> minutes_from i m = []"
  by (simp add: minutes_from_def word_le_nat_alt)

text \<open>The counter does not wrap around below the largest \<open>uint16\<close>, so the loop ends.\<close>

lemma watch_loop_ends:
  assumes "iw_Minutes req < 65535"
  shows "watch_loop e req i c = Some (insert_minutes e req (minutes_from i (iw_Minutes req)) c)"
proof (induction "length (minutes_from i (iw_Minutes req))" arbitrary: i c)
  case 0
  then have "\<not> i \<le> iw_Minutes req" using minutes_from_Cons [OF _ assms] by fastforce
  then show ?case
    by (simp add: watch_loop.simps minutes_from_Nil check_as_def on_call_def ret_def
        split: prod.splits sum.splits)
next
  case (Suc k)
  then have le: "i \<le> iw_Minutes req" using minutes_from_Nil by fastforce
  note step = minutes_from_Cons [OF le assms]
  have "watch_loop e req (i + 1) c1 = Some (insert_minutes e req (minutes_from (i + 1) (iw_Minutes req)) c1)"
    for c1 using Suc.hyps step by (intro Suc.hyps(1)) simp
  then show ?case
    using le by (simp add: watch_loop.simps [of e req i] step MarshalJSONString_def check_as_def
        on_call_def ret_def split: prod.splits sum.splits)
qed

text \<open>The state after the events of \<open>is\<close>, the first of them by the \<open>n\<close>-th call.\<close>

definition minutes_queued ::
  "env \<Rightarrow> InternalWatchMinutesRequest \<Rightarrow> nat \<Rightarrow> u16 list \<Rightarrow> db \<Rightarrow> db" where
  "minutes_queued e req n is d = d\<lparr>
     outbox_events := outbox_events d @ minute_rows e req (next_event_id d) n is,
     next_event_id := next_event_id d + length is\<rparr>"

abbreviation appending :: "OutboxEvent list \<Rightarrow> db \<Rightarrow> db" where
  "appending xs \<equiv> outbox_events_update (\<lambda>os. os @ xs)"

lemma appending_Nil [simp]: "outbox_events_update (\<lambda>os. os) = id"
  by (rule ext) simp

lemma minutes_queued_Cons:
  "minutes_queued e req n (i # is) (appending xs d) =
     minutes_queued e req (Suc n) is (appending (xs @
       [outbox_row (next_event_id d) watchTopic (FormatUint (iw_LiveSessionID req))
          (minute_event req i) (now e n)]) (next_event_id_update Suc d))"
  by (simp add: minutes_queued_def)

definition queued_answer :: "env \<Rightarrow> InternalWatchMinutesRequest \<Rightarrow> int outcome \<Rightarrow> bool" where
  "queued_answer e req r \<longleftrightarrow> r = Ok (uint (iw_Minutes req)) \<or> (\<exists>er. r = internal_error e er)"

lemma queued_answerI [simp]:
  "queued_answer e req (Ok (uint (iw_Minutes req)))" "queued_answer e req (internal_error e er)"
  by (auto simp: queued_answer_def)

lemma insert_minutes_wp:
  assumes q: "quiet e" and ab: "abortable (internal_error e) d (\<lambda>r c. P r (cdb c))"
  shows "untouched d D \<Longrightarrow>
    (\<And>r. queued_answer e req r \<Longrightarrow> is = [] \<or> next_event_id D + length is \<le> 2 ^ 64 \<Longrightarrow>
       P r (minutes_queued e req n is (appending xs D))) \<Longrightarrow>
    wp (insert_minutes e req is) (\<lambda>r c. P r (cdb c)) (at D (appending xs) n)"
proof (induction "is" arbitrary: D xs n)
  case Nil
  have "appending xs D = minutes_queued e req n [] (appending xs D)" by (simp add: minutes_queued_def)
  with Nil.prems show ?case
    by (simp del: appending_Nil, intro vc_commit [OF q ab]) auto
next
  case (Cons i "is")
  show ?case
    unfolding insert_minutes.simps exec_outbox_insert_def
  proof (rule vc_exec_alloc [OF q ab Cons.prems(1)])
    fix x w assume ok: "InsertOutboxEvent watchTopic (FormatUint (iw_LiveSessionID req))
        (minute_event req i) (next_event_id D) (now e n) (appending xs D) = (Inr x, w)"
    let ?row = "outbox_row (next_event_id D) watchTopic (FormatUint (iw_LiveSessionID req))
        (minute_event req i) (now e n)"
    have n: "next_event_id D < 2 ^ 64" and w: "w \<circ> appending xs = appending (xs @ [?row])"
      using ok by (auto simp: sql_spec outbox_row_def)
    show "wp (insert_minutes e req is) (\<lambda>r c. P r (cdb c))
            (at (next_event_id_update Suc D) (w \<circ> appending xs) (Suc n))"
      unfolding w
      by (rule Cons.IH) (use Cons.prems n in \<open>auto simp: minutes_queued_Cons\<close>)
  qed simp
qed

lemma run_insert_minutes:
  assumes c: "calm e"
  shows "next_event_id D + length is \<le> 2 ^ 64 \<Longrightarrow>
    insert_minutes e req is (at D (appending xs) n) =
      (Ok (uint (iw_Minutes req)),
       at (minutes_queued e req n is (appending xs D)) id (Suc (n + length is)))"
proof (induction "is" arbitrary: D xs n)
  case Nil
  show ?case by (simp add: check_as_def run_commit [OF c] ret_def minutes_queued_def id_def)
next
  case (Cons i "is")
  show ?case
    using Cons.prems Cons.IH [of "next_event_id_update Suc D" "xs @
        [outbox_row (next_event_id D) watchTopic (FormatUint (iw_LiveSessionID req))
          (minute_event req i) (now e n)]" "Suc n"]
    by (simp add: check_as_def run_exec_alloc [OF c] exec_outbox_insert_def InsertOutboxEvent_def
        id_exhausted_def watchTopic_def not_too_long outbox_row_def comp_def id_def minutes_queued_Cons)
qed

definition watch_valid :: "InternalWatchMinutesRequest \<Rightarrow> bool" where
  "watch_valid req \<longleftrightarrow>
     \<not> blank (iw_EventID req) \<and> iw_ViewerID req \<noteq> 0 \<and> iw_CreatorID req \<noteq> 0 \<and>
     iw_LiveSessionID req \<noteq> 0 \<and> iw_Minutes req \<noteq> 0"

definition watch_result ::
  "env \<Rightarrow> InternalWatchMinutesRequest \<Rightarrow> db \<Rightarrow> int outcome \<Rightarrow> db \<Rightarrow> bool" where
  "watch_result e req d r d' \<longleftrightarrow>
     untouched d d' \<and> (if watch_valid req then \<exists>er. r = internal_error e er else r = App errValidation) \<or>
     watch_valid req \<and> next_event_id d + unat (iw_Minutes req) \<le> 2 ^ 64 \<and>
       d' = minutes_queued e req 1 (minutes_from 1 (iw_Minutes req)) d \<and> queued_answer e req r"

lemma length_minutes_from: "length (minutes_from 1 m) = unat m"
  by (simp add: minutes_from_def)

lemma EnqueueWatch_invalid:
  "\<not> watch_valid req \<Longrightarrow> EnqueueWatchMinuteEvents e req d = Some (App errValidation, d)"
  unfolding watch_valid_def EnqueueWatchMinuteEvents_def by (rule if_P) blast

lemma EnqueueWatch_valid:
  "watch_valid req \<Longrightarrow> iw_Minutes req < 65535 \<Longrightarrow>
     EnqueueWatchMinuteEvents e req d =
       Some (in_tx e (insert_minutes e req (minutes_from 1 (iw_Minutes req))) (internal_error e) d)"
  by (simp add: watch_valid_def EnqueueWatchMinuteEvents_def in_tx_def on_call_def ret_def
      watch_loop_ends Rollback_def split: prod.splits sum.splits)

lemma EnqueueWatch_cases:
  assumes q: "quiet e" and m: "iw_Minutes req < 65535"
  shows "\<exists>r d'. EnqueueWatchMinuteEvents e req d = Some (r, d') \<and> watch_result e req d r d'"
proof (cases "watch_valid req")
  case False
  then show ?thesis by (simp add: EnqueueWatch_invalid watch_result_def)
next
  case True
  let ?is = "minutes_from 1 (iw_Minutes req)"
  have ab: "abortable (internal_error e) d (\<lambda>r c. watch_result e req d r (cdb c))"
    using True by (auto simp: abortable_def watch_result_def)
  have body: "wp (insert_minutes e req ?is) (\<lambda>r c. watch_result e req d r (cdb c)) (at d id 1)"
  proof -
    have "?is \<noteq> []" using True length_minutes_from [of "iw_Minutes req"]
      by (auto simp: watch_valid_def unat_gt_0 simp flip: length_0_conv)
    then show ?thesis
      using insert_minutes_wp [OF q ab, of d req ?is 1 "[]"] True
      by (auto simp: watch_result_def length_minutes_from)
  qed
  obtain r d' where run: "in_tx e (insert_minutes e req ?is) (internal_error e) d = (r, d')" by force
  have "watch_result e req d r d'"
    by (rule in_tx_wp [OF run _ body q]) (use True in \<open>auto simp: watch_result_def\<close>)
  with run show ?thesis by (simp add: EnqueueWatch_valid [OF True m])
qed

lemma EnqueueWatch_runs:
  assumes c: "calm e" and v: "watch_valid req" and m: "iw_Minutes req < 65535"
    and n: "next_event_id d + unat (iw_Minutes req) \<le> 2 ^ 64"
  shows "EnqueueWatchMinuteEvents e req d =
     Some (Ok (uint (iw_Minutes req)), minutes_queued e req 1 (minutes_from 1 (iw_Minutes req)) d)"
  using run_insert_minutes [OF c, of d "minutes_from 1 (iw_Minutes req)" req "[]" 1] n
  by (simp add: EnqueueWatch_valid [OF v m] run_in_tx [OF c] length_minutes_from)

section \<open>The largest count\<close>

text \<open>
  With 65535 minutes the condition \<open>i <= req.Minutes\<close> never fails, since \<open>i++\<close> wraps
  around: the commit is never reached, so a call that returns at all returns an error and
  leaves the tables alone, and without faults the loop goes on for as long as there are event
  numbers left.
\<close>

lemma outbox_insert_untouched:
  "quiet e \<Longrightarrow> exec_outbox_insert e q c = (x, c1) \<Longrightarrow> untouched (cdb c) (cdb c1)"
  by (auto simp: exec_outbox_insert_def exec_alloc_def Let_def
      split: option.splits fault.splits prod.splits)

lemma watch_loop_never_commits:
  assumes "watch_loop e req i c = Some (r, c')" and "quiet e" and "iw_Minutes req = 65535"
  shows "(\<exists>er. r = internal_error e er) \<and> untouched (cdb c) (cdb c')"
proof -
  have top: "j \<le> 65535" for j :: u16
    using uint_bounded [of j] by (simp add: word_le_def)
  have "quiet e \<longrightarrow> iw_Minutes req = 65535 \<longrightarrow>
      (\<exists>er. fst y = internal_error e er) \<and> untouched (cdb c) (cdb (snd y))"
    if "watch_loop e req i c = Some y" for y
    using that
  proof (rule watch_loop.raw_induct [rotated])
    fix f e req i c y
    assume IH: "\<And>req' i' c' e' y'. f req' i' c' e' = Some y' \<Longrightarrow>
        quiet req' \<longrightarrow> iw_Minutes i' = 65535 \<longrightarrow>
          (\<exists>er. fst y' = internal_error req' er) \<and> untouched (cdb e') (cdb (snd y'))"
      and body: "(if i \<le> iw_Minutes req then
          (case MarshalJSONString (minute_event req i) of
            Inl er \<Rightarrow> Some (internal_error e er, c)
          | Inr payload \<Rightarrow>
              (case exec_outbox_insert e (InsertOutboxEvent watchTopic
                      (FormatUint (iw_LiveSessionID req)) payload) c of
                (Inl er, c1) \<Rightarrow> Some (internal_error e er, c1)
              | (Inr _, c1) \<Rightarrow> f e req (i + 1) c1))
        else
          (case Commit e c of
            (Inl er, c1) \<Rightarrow> Some (internal_error e er, c1)
          | (Inr _, c1) \<Rightarrow> Some (Ok (uint (iw_Minutes req)), c1))) = Some y"
    show "quiet e \<longrightarrow> iw_Minutes req = 65535 \<longrightarrow>
        (\<exists>er. fst y = internal_error e er) \<and> untouched (cdb c) (cdb (snd y))"
    proof (intro impI)
      assume q: "quiet e" and m: "iw_Minutes req = 65535"
      obtain x c1 where run: "exec_outbox_insert e (InsertOutboxEvent watchTopic
          (FormatUint (iw_LiveSessionID req)) (minute_event req i)) c = (x, c1)" by force
      have u: "untouched (cdb c) (cdb c1)" by (rule outbox_insert_untouched [OF q run])
      show "(\<exists>er. fst y = internal_error e er) \<and> untouched (cdb c) (cdb (snd y))"
      proof (cases x)
        case (Inl er)
        with body m top u run show ?thesis by (auto simp: MarshalJSONString_def)
      next
        case (Inr z)
        then have "f e req (i + 1) c1 = Some y"
          using body m top run by (simp add: MarshalJSONString_def)
        from IH [OF this] q m u show ?thesis using untouched_trans by blast
      qed
    qed
  qed
  from this [OF assms(1)] assms(2,3) show ?thesis by simp
qed

lemma watch_loop_goes_on:
  assumes c: "calm e" and m: "iw_Minutes req = 65535"
  shows "next_event_id D + length is \<le> 2 ^ 64 \<Longrightarrow> is = map of_nat [k ..< k + length is] \<Longrightarrow>
    watch_loop e req (of_nat k) (at D (appending xs) n) =
      watch_loop e req (of_nat (k + length is)) (at ((next_event_id_update Suc ^^ length is) D)
        (appending (xs @ minute_rows e req (next_event_id D) n is)) (n + length is))"
proof (induction "is" arbitrary: k D xs n)
  case (Cons i "is")
  have i: "i = of_nat k" and rest: "is = map of_nat [Suc k ..< Suc k + length is]"
    using Cons.prems(2) by (simp_all add: upt_conv_Cons del: upt_Suc)
  have le: "(of_nat k :: u16) \<le> 65535"
    using uint_bounded [of "of_nat k :: u16"] by (simp add: word_le_def)
  have run: "exec_outbox_insert e (InsertOutboxEvent watchTopic (FormatUint (iw_LiveSessionID req))
      (minute_event req i)) (at D (appending xs) n) =
      (Inr (), at (next_event_id_update Suc D) (appending (xs @
        [outbox_row (next_event_id D) watchTopic (FormatUint (iw_LiveSessionID req))
          (minute_event req i) (now e n)])) (Suc n))"
    using c Cons.prems(1)
    by (auto simp: calm_def exec_outbox_insert_def exec_alloc_def Let_def view_def
        InsertOutboxEvent_def id_exhausted_def outbox_row_def watchTopic_def not_too_long)
  have "watch_loop e req (of_nat k) (at D (appending xs) n) =
      watch_loop e req (of_nat (Suc k)) (at (next_event_id_update Suc D) (appending (xs @
        [outbox_row (next_event_id D) watchTopic (FormatUint (iw_LiveSessionID req))
          (minute_event req i) (now e n)])) (Suc n))"
    using le run m by (simp add: watch_loop.simps [of e req "of_nat k"] i MarshalJSONString_def add.commute)
  then show ?case
    using Cons.IH [OF _ rest, of "next_event_id_update Suc D" "xs @
        [outbox_row (next_event_id D) watchTopic (FormatUint (iw_LiveSessionID req))
          (minute_event req i) (now e n)]" "Suc n"] Cons.prems(1)
    by (simp add: funpow_swap1)
qed simp

lemma watch_loop_rounds:
  assumes "calm e" and "iw_Minutes req = 65535" and k: "next_event_id d + k \<le> 2 ^ 64"
  shows "\<exists>rows. length rows = k \<and> watch_loop e req 1 (at d id 1) =
     watch_loop e req (of_nat (Suc k)) (at ((next_event_id_update Suc ^^ k) d) (appending rows) (Suc k))"
proof -
  let ?is = "map of_nat [1 ..< 1 + k] :: u16 list"
  have len: "length ?is = k" by simp
  have "watch_loop e req (of_nat 1) (at d (appending []) 1) =
      watch_loop e req (of_nat (1 + k)) (at ((next_event_id_update Suc ^^ k) d)
        (appending ([] @ minute_rows e req (next_event_id d) 1 ?is)) (1 + k))"
    by (rule watch_loop_goes_on [OF assms(1,2), of d ?is 1 "[]" 1, unfolded len, OF k refl])
  then show ?thesis
    by (intro exI [of _ "minute_rows e req (next_event_id d) 1 ?is"] conjI)
      (simp only: length_minute_rows len, simp only: of_nat_1 append_Nil append_Nil2 appending_Nil plus_1_eq_Suc)
qed

lemma BeginTx_untouched: "quiet e \<Longrightarrow> BeginTx e (connect d) = (x, c) \<Longrightarrow> cdb c = d"
  by (auto simp: BeginTx_def connect_def Let_def split: option.splits fault.splits)

lemma EnqueueWatch_begins:
  "watch_valid req \<Longrightarrow> EnqueueWatchMinuteEvents e req d =
     (case BeginTx e (connect d) of
       (Inl er, c) \<Rightarrow> Some (internal_error e er, cdb c)
     | (Inr _, c) \<Rightarrow>
         (case watch_loop e req 1 c of
           None \<Rightarrow> None
         | Some (r, c') \<Rightarrow> Some (r, cdb (Rollback c'))))"
  by (simp add: EnqueueWatchMinuteEvents_def watch_valid_def)

lemma EnqueueWatch_never_commits:
  assumes q: "quiet e" and m: "iw_Minutes req = 65535" and v: "watch_valid req"
    and run: "EnqueueWatchMinuteEvents e req d = Some (r, d')"
  shows "untouched d d' \<and> (\<exists>er. r = internal_error e er)"
proof -
  obtain x c where b: "BeginTx e (connect d) = (x, c)" by force
  have c: "cdb c = d" by (rule BeginTx_untouched [OF q b])
  show ?thesis
  proof (cases x)
    case (Inl er)
    with run b c show ?thesis by (auto simp: EnqueueWatch_begins [OF v])
  next
    case (Inr u)
    with run b obtain c' where "watch_loop e req 1 c = Some (r, c')" "d' = cdb c'"
      by (auto simp: EnqueueWatch_begins [OF v] Rollback_def split: option.splits)
    with watch_loop_never_commits [OF _ q m] c show ?thesis by blast
  qed
qed

section \<open>Both, seen from the outbox\<close>

text \<open>
  What the ingest does to the tables: some rows of its own topics are appended to the outbox,
  under the next event numbers and unpublished.
\<close>

definition ingested :: "OutboxEvent list \<Rightarrow> db \<Rightarrow> db" where
  "ingested rows d = d\<lparr>outbox_events := outbox_events d @ rows,
     next_event_id := next_event_id d + length rows\<rparr>"

definition ingest_rows :: "nat \<Rightarrow> OutboxEvent list \<Rightarrow> bool" where
  "ingest_rows k rows \<longleftrightarrow>
     map oe_EventID rows = map of_nat [k ..< k + length rows] \<and>
     list_all (\<lambda>x. oe_Topic x \<in> {commentTopic, watchTopic} \<and> oe_PublishedAt x = None) rows"

lemma ingest_rows_minutes: "ingest_rows k (minute_rows e req k n is)"
proof (induction "is" arbitrary: k n)
  case (Cons i "is")
  from Cons [of "Suc k" "Suc n"] show ?case
    by (simp add: ingest_rows_def outbox_row_def upt_conv_Cons del: upt_Suc)
qed (simp add: ingest_rows_def)

lemma comment_ingested:
  assumes "quiet e" and "EnqueueCommentEvent e req d = (r, d')"
  shows "untouched d d' \<or> (\<exists>rows. ingest_rows (next_event_id d) rows \<and>
           next_event_id d + length rows \<le> 2 ^ 64 \<and> d' = ingested rows d)"
proof -
  have "ingest_rows (next_event_id d) [outbox_row (next_event_id d) commentTopic k p t]" for k p t
    by (simp add: ingest_rows_def outbox_row_def)
  moreover have "comment_queued req t d = ingested [outbox_row (next_event_id d) commentTopic
      (FormatUint (ic_LiveSessionID req)) (comment_event req) t] d" for t
    by (simp add: comment_queued_def ingested_def)
  moreover have "untouched d d' \<or> next_event_id d < 2 ^ 64 \<and> (\<exists>t. d' = comment_queued req t d)"
    using EnqueueCommentEvent_cases [OF assms] by (auto simp: comment_result_def)
  ultimately show ?thesis
    by (elim disjE conjE exE) (auto intro!: exI [of _ "[outbox_row _ _ _ _ _]"])
qed

lemma watch_ingested:
  assumes q: "quiet e" and run: "EnqueueWatchMinuteEvents e req d = Some (r, d')"
  shows "untouched d d' \<or> (\<exists>rows. ingest_rows (next_event_id d) rows \<and>
           next_event_id d + length rows \<le> 2 ^ 64 \<and> d' = ingested rows d)"
proof (cases "iw_Minutes req < 65535")
  case True
  have "minutes_queued e req n is d = ingested (minute_rows e req (next_event_id d) n is) d" for n "is"
    by (simp add: minutes_queued_def ingested_def)
  moreover have "untouched d d' \<or> next_event_id d + unat (iw_Minutes req) \<le> 2 ^ 64 \<and>
      d' = minutes_queued e req 1 (minutes_from 1 (iw_Minutes req)) d"
    using EnqueueWatch_cases [OF q True, of d] run by (auto simp: watch_result_def)
  ultimately show ?thesis
    using ingest_rows_minutes [of "next_event_id d" e req 1 "minutes_from 1 (iw_Minutes req)"]
    by (elim disjE conjE) (auto simp: length_minutes_from)
next
  case False
  then have m: "iw_Minutes req = 65535"
    using uint_bounded [of "iw_Minutes req"] by (simp add: word_less_def word_uint_eq_iff)
  show ?thesis
  proof (cases "watch_valid req")
    case True
    then have "untouched d d'" using EnqueueWatch_never_commits [OF q m _ run] by blast
    then show ?thesis ..
  next
    case False
    with run show ?thesis by (simp add: EnqueueWatch_invalid)
  qed
qed

end
