(* ===== verification/Points.thy ===== *)
theory Points
  imports Ingest
begin

text \<open>
  The points projector (\<open>internal/projector/points/projector.go\<close>): an event is recorded in
  \<open>consumer_dedupe\<close> and its points in the ledgers in one transaction, so that a redelivered
  event is recognised; comments and watched minutes count up to a cap per viewer and session.
\<close>

section \<open>Statements\<close>

text \<open>\<open>consumer_dedupe\<close> is shared by the projectors, each under its own name.\<close>

definition InsertConsumerDedupe ::
  "(string \<Rightarrow> string) \<Rightarrow> string \<Rightarrow> u64 \<Rightarrow> micros \<Rightarrow> unit sql" where
  "InsertConsumerDedupe coll consumer eid t d =
     (if too_long 64 consumer then (Inl (MySQLError mysql_too_long), id)
      else if list_ex (\<lambda>r. coll (cd_ConsumerName r) = coll consumer \<and> cd_EventID r = eid)
                (consumer_dedupe d)
        then (Inl (MySQLError mysql_dup_entry), id)
      else (Inr (), consumer_dedupe_update (\<lambda>rs. rs @
        [\<lparr>cd_ConsumerName = consumer, cd_EventID = eid, cd_AppliedAt = t\<rparr>])))"

text \<open>The \<open>points\<close> columns are signed INT.\<close>

definition fits_int32 :: "int \<Rightarrow> bool" where
  "fits_int32 x \<longleftrightarrow> - (2 ^ 31) \<le> x \<and> x < 2 ^ 31"

definition InsertFanPoints ::
  "u64 \<Rightarrow> u64 \<Rightarrow> u64 \<Rightarrow> u64 \<Rightarrow> int \<Rightarrow> FanPointLedgerReason \<Rightarrow> micros \<Rightarrow> unit sql" where
  "InsertFanPoints eid viewer creator sid points reason t d =
     (if \<not> fits_int32 points then (Inl (MySQLError mysql_out_of_range), id)
      else if list_ex (\<lambda>r. fp_EventID r = eid) (fan_point_ledger d)
        then (Inl (MySQLError mysql_dup_entry), id)
      else if \<not> user_exists viewer d \<or> \<not> user_exists creator d \<or> \<not> session_exists sid d
        then (Inl (MySQLError mysql_no_parent), id)
      else (Inr (), fan_point_ledger_update (\<lambda>rs. rs @
        [\<lparr>fp_EventID = eid, fp_ViewerID = viewer, fp_CreatorID = creator, fp_LiveSessionID = sid,
          fp_Points = points, fp_Reason = reason, fp_CreatedAt = t\<rparr>])))"

definition InsertCampaignPoints :: "u64 \<Rightarrow> u64 \<Rightarrow> u64 \<Rightarrow> int \<Rightarrow> micros \<Rightarrow> unit sql" where
  "InsertCampaignPoints eid campaign creator points t d =
     (if \<not> fits_int32 points then (Inl (MySQLError mysql_out_of_range), id)
      else if list_ex (\<lambda>r. cp_EventID r = eid) (campaign_point_ledger d)
        then (Inl (MySQLError mysql_dup_entry), id)
      else if \<not> user_exists creator d then (Inl (MySQLError mysql_no_parent), id)
      else (Inr (), campaign_point_ledger_update (\<lambda>rs. rs @
        [\<lparr>cp_EventID = eid, cp_CampaignID = campaign, cp_CreatorID = creator, cp_Points = points,
          cp_Reason = CAMPAIGN_GIFT, cp_CreatedAt = t\<rparr>])))"

definition fan_count :: "u64 \<Rightarrow> u64 \<Rightarrow> FanPointLedgerReason \<Rightarrow> db \<Rightarrow> nat" where
  "fan_count viewer sid reason d =
     length (filter (\<lambda>r. fp_ViewerID r = viewer \<and> fp_LiveSessionID r = sid \<and> fp_Reason r = reason)
       (fan_point_ledger d))"

definition CountFanPoints ::
  "u64 \<Rightarrow> u64 \<Rightarrow> FanPointLedgerReason \<Rightarrow> micros \<Rightarrow> nat sql" where
  "CountFanPoints viewer sid reason t d = (Inr (fan_count viewer sid reason d), id)"

section \<open>The projector\<close>

definition pointsConsumer :: string where
  "pointsConsumer = ''points-projector''"

definition errDuplicateEvent :: go_error where
  "errDuplicateEvent = ErrorsNew ''duplicate event''"

definition isDup :: "go_error \<Rightarrow> bool" where
  "isDup er = (case er of MySQLError n \<Rightarrow> n = mysql_dup_entry | _ \<Rightarrow> False)"

definition isDuplicateOrErr :: "env \<Rightarrow> u64 \<Rightarrow> unit stm" where
  "isDuplicateOrErr e eventID =
     on_call (exec e (InsertConsumerDedupe (collate e) pointsConsumer eventID))
       (\<lambda>er. if isDup er then ret (Inl errDuplicateEvent) else ret (Inl er))
       (\<lambda>_. ret (Inr ()))"

text \<open>\<open>return tx.Commit()\<close>, and the test for a duplicate with which both methods begin.\<close>

definition return_commit :: "env \<Rightarrow> (go_error + unit) prog" where
  "return_commit e = check_as Inl (Commit e) (\<lambda>_. ret (Inr ()))"

definition unless_duplicate :: "env \<Rightarrow> u64 \<Rightarrow> (go_error + unit) prog \<Rightarrow> (go_error + unit) prog" where
  "unless_duplicate e eventID rest =
     on_call (isDuplicateOrErr e eventID)
       (\<lambda>er. if er = errDuplicateEvent then return_commit e else ret (Inl er))
       (\<lambda>_. rest)"

definition ApplyGift :: "env \<Rightarrow> u64 \<Rightarrow> LiveGiftAcceptedV1 \<Rightarrow> db \<Rightarrow> (go_error + unit) \<times> db" where
  "ApplyGift e eventID evt =
     in_tx e (unless_duplicate e eventID (
       check_as Inl (exec e (InsertFanPoints eventID (lga_ViewerID evt) (lga_CreatorID evt)
                (lga_LiveSessionID evt) (uint (lga_ChargedCoins evt)) GIFT)) (\<lambda>_.
       case lga_CampaignID evt of
         None \<Rightarrow> return_commit e
       | Some campaign \<Rightarrow>
           check_as Inl (exec e (InsertCampaignPoints eventID campaign (lga_CreatorID evt)
                    (uint (lga_ChargedCoins evt)))) (\<lambda>_. return_commit e)))) Inl"

definition applyCapped ::
  "env \<Rightarrow> u64 \<Rightarrow> u64 \<Rightarrow> u64 \<Rightarrow> u64 \<Rightarrow> FanPointLedgerReason \<Rightarrow> nat \<Rightarrow> db \<Rightarrow> (go_error + unit) \<times> db" where
  "applyCapped e eventID viewerID creatorID liveSessionID reason capCount =
     in_tx e (unless_duplicate e eventID (
       check_as Inl (exec e (CountFanPoints viewerID liveSessionID reason)) (\<lambda>currentCount.
       if currentCount \<ge> capCount then return_commit e
       else
         check_as Inl (exec e (InsertFanPoints eventID viewerID creatorID liveSessionID 1 reason))
           (\<lambda>_. return_commit e)))) Inl"

definition ApplyComment :: "env \<Rightarrow> u64 \<Rightarrow> LiveCommentCreatedV1 \<Rightarrow> db \<Rightarrow> (go_error + unit) \<times> db" where
  "ApplyComment e eventID evt =
     applyCapped e eventID (lcc_ViewerID evt) (lcc_CreatorID evt) (lcc_LiveSessionID evt) COMMENT 20"

definition ApplyWatchMinute :: "env \<Rightarrow> u64 \<Rightarrow> LiveWatchMinuteV1 \<Rightarrow> db \<Rightarrow> (go_error + unit) \<times> db" where
  "ApplyWatchMinute e eventID evt =
     applyCapped e eventID (lwm_ViewerID evt) (lwm_CreatorID evt) (lwm_LiveSessionID evt)
       WATCH_MINUTE 60"

section \<open>What an event adds\<close>

text \<open>
  The events the projector handles, as the consumer dispatches them on the topic, and the rows
  each adds to the ledgers.
\<close>

datatype point_event =
    GiftEvent LiveGiftAcceptedV1
  | CommentEvent LiveCommentCreatedV1
  | WatchEvent LiveWatchMinuteV1

fun project_points :: "env \<Rightarrow> u64 \<times> point_event \<Rightarrow> db \<Rightarrow> (go_error + unit) \<times> db" where
  "project_points e (eid, GiftEvent evt) d = ApplyGift e eid evt d"
| "project_points e (eid, CommentEvent evt) d = ApplyComment e eid evt d"
| "project_points e (eid, WatchEvent evt) d = ApplyWatchMinute e eid evt d"

definition dedupe_known :: "string \<Rightarrow> (string \<Rightarrow> string) \<Rightarrow> u64 \<Rightarrow> db \<Rightarrow> bool" where
  "dedupe_known consumer coll eid d \<longleftrightarrow>
     list_ex (\<lambda>r. coll (cd_ConsumerName r) = coll consumer \<and> cd_EventID r = eid) (consumer_dedupe d)"

definition dedupe_row :: "string \<Rightarrow> u64 \<Rightarrow> micros \<Rightarrow> ConsumerDedupe" where
  "dedupe_row consumer eid t = \<lparr>cd_ConsumerName = consumer, cd_EventID = eid, cd_AppliedAt = t\<rparr>"

definition fan_row ::
  "u64 \<Rightarrow> u64 \<Rightarrow> u64 \<Rightarrow> u64 \<Rightarrow> int \<Rightarrow> FanPointLedgerReason \<Rightarrow> micros \<Rightarrow> FanPointLedger" where
  "fan_row eid viewer creator sid points reason t =
     \<lparr>fp_EventID = eid, fp_ViewerID = viewer, fp_CreatorID = creator, fp_LiveSessionID = sid,
      fp_Points = points, fp_Reason = reason, fp_CreatedAt = t\<rparr>"

fun fan_rows :: "u64 \<Rightarrow> point_event \<Rightarrow> micros \<Rightarrow> db \<Rightarrow> FanPointLedger list" where
  "fan_rows eid (GiftEvent evt) t d =
     [fan_row eid (lga_ViewerID evt) (lga_CreatorID evt) (lga_LiveSessionID evt)
        (uint (lga_ChargedCoins evt)) GIFT t]"
| "fan_rows eid (CommentEvent evt) t d =
     (if fan_count (lcc_ViewerID evt) (lcc_LiveSessionID evt) COMMENT d \<ge> 20 then []
      else [fan_row eid (lcc_ViewerID evt) (lcc_CreatorID evt) (lcc_LiveSessionID evt) 1 COMMENT t])"
| "fan_rows eid (WatchEvent evt) t d =
     (if fan_count (lwm_ViewerID evt) (lwm_LiveSessionID evt) WATCH_MINUTE d \<ge> 60 then []
      else [fan_row eid (lwm_ViewerID evt) (lwm_CreatorID evt) (lwm_LiveSessionID evt) 1 WATCH_MINUTE t])"

fun campaign_rows :: "u64 \<Rightarrow> point_event \<Rightarrow> micros \<Rightarrow> CampaignPointLedger list" where
  "campaign_rows eid (GiftEvent evt) t =
     (case lga_CampaignID evt of None \<Rightarrow> []
      | Some campaign \<Rightarrow> [\<lparr>cp_EventID = eid, cp_CampaignID = campaign, cp_CreatorID = lga_CreatorID evt,
          cp_Points = uint (lga_ChargedCoins evt), cp_Reason = CAMPAIGN_GIFT, cp_CreatedAt = t\<rparr>])"
| "campaign_rows eid _ t = []"

definition projected :: "u64 \<times> point_event \<Rightarrow> (nat \<Rightarrow> micros) \<Rightarrow> db \<Rightarrow> db" where
  "projected ev ts d = d\<lparr>
     consumer_dedupe := consumer_dedupe d @ [dedupe_row pointsConsumer (fst ev) (ts 0)],
     fan_point_ledger := fan_point_ledger d @ fan_rows (fst ev) (snd ev) (ts 1) d,
     campaign_point_ledger := campaign_point_ledger d @ campaign_rows (fst ev) (snd ev) (ts 2)\<rparr>"

text \<open>The rows fit the constraints of the tables.\<close>

definition projectable :: "u64 \<times> point_event \<Rightarrow> db \<Rightarrow> bool" where
  "projectable ev d \<longleftrightarrow>
     list_all (\<lambda>r. fits_int32 (fp_Points r) \<and> user_exists (fp_ViewerID r) d \<and>
         user_exists (fp_CreatorID r) d \<and> session_exists (fp_LiveSessionID r) d \<and>
         \<not> list_ex (\<lambda>x. fp_EventID x = fp_EventID r) (fan_point_ledger d))
       (fan_rows (fst ev) (snd ev) 0 d) \<and>
     list_all (\<lambda>r. \<not> list_ex (\<lambda>x. cp_EventID x = cp_EventID r) (campaign_point_ledger d))
       (campaign_rows (fst ev) (snd ev) 0)"

definition points_effect :: "env \<Rightarrow> u64 \<times> point_event \<Rightarrow> db \<Rightarrow> db \<Rightarrow> bool" where
  "points_effect e ev d d' \<longleftrightarrow>
     \<not> dedupe_known pointsConsumer (collate e) (fst ev) d \<and> projectable ev d \<and>
     (\<exists>ts. d' = projected ev ts d)"

definition points_result ::
  "env \<Rightarrow> u64 \<times> point_event \<Rightarrow> db \<Rightarrow> (go_error + unit) \<Rightarrow> db \<Rightarrow> bool" where
  "points_result e ev d r d' \<longleftrightarrow>
     untouched d d' \<and> (r = Inr () \<longrightarrow> dedupe_known pointsConsumer (collate e) (fst ev) d) \<or>
     points_effect e ev d d'"

lemma points_statements [sql_spec]:
  "InsertConsumerDedupe coll consumer eid t d = (Inr x, w) \<longleftrightarrow>
     \<not> too_long 64 consumer \<and> \<not> dedupe_known consumer coll eid d \<and>
     w = consumer_dedupe_update (\<lambda>rs. rs @ [dedupe_row consumer eid t])"
  "InsertConsumerDedupe coll consumer eid t d = (Inl er, w) \<longleftrightarrow> w = id \<and>
     (if too_long 64 consumer then er = MySQLError mysql_too_long
      else dedupe_known consumer coll eid d \<and> er = MySQLError mysql_dup_entry)"
  "InsertFanPoints eid viewer creator sid points reason t d = (Inr x, w) \<longleftrightarrow>
     fits_int32 points \<and> \<not> list_ex (\<lambda>r. fp_EventID r = eid) (fan_point_ledger d) \<and>
     user_exists viewer d \<and> user_exists creator d \<and> session_exists sid d \<and>
     w = fan_point_ledger_update (\<lambda>rs. rs @ [fan_row eid viewer creator sid points reason t])"
  "InsertCampaignPoints eid campaign creator points t d = (Inr x, w) \<longleftrightarrow>
     fits_int32 points \<and> \<not> list_ex (\<lambda>r. cp_EventID r = eid) (campaign_point_ledger d) \<and>
     user_exists creator d \<and>
     w = campaign_point_ledger_update (\<lambda>rs. rs @
        [\<lparr>cp_EventID = eid, cp_CampaignID = campaign, cp_CreatorID = creator, cp_Points = points,
          cp_Reason = CAMPAIGN_GIFT, cp_CreatedAt = t\<rparr>])"
  "CountFanPoints viewer sid reason t d = (Inr n, w) \<longleftrightarrow> n = fan_count viewer sid reason d \<and> w = id"
  by (auto simp: InsertConsumerDedupe_def InsertFanPoints_def InsertCampaignPoints_def
      CountFanPoints_def dedupe_known_def dedupe_row_def fan_row_def)

lemma pointsConsumer_fits [simp]: "\<not> too_long 64 pointsConsumer"
  by (rule not_too_long) (simp add: pointsConsumer_def)

lemma isDup_iff [simp]: "isDup er \<longleftrightarrow> er = MySQLError mysql_dup_entry"
  by (cases er) (auto simp: isDup_def)

lemma return_commit_wp:
  assumes "quiet e" and "abortable Inl d (\<lambda>r c. P r (cdb c))" and "untouched d D"
    and "\<And>r. P r (W D)"
  shows "wp (return_commit e) (\<lambda>r c. P r (cdb c)) (at D W n)"
  unfolding return_commit_def
  by (rule vc_commit [OF assms(1,2,3)]) (simp_all add: assms(4))

text \<open>The rule for the duplicate test: a known event ends there, a new one goes on.\<close>

lemma unless_duplicate_wp:
  assumes q: "quiet e" and ab: "abortable Inl d (\<lambda>r c. P r (cdb c))"
    and dup: "\<And>r. dedupe_known pointsConsumer (collate e) eid d \<Longrightarrow> P r d"
    and new: "\<not> dedupe_known pointsConsumer (collate e) eid d \<Longrightarrow>
       wp rest (\<lambda>r c. P r (cdb c)) (at d (consumer_dedupe_update (\<lambda>rs. rs @
         [dedupe_row pointsConsumer eid (now e n)])) (Suc n))"
  shows "wp (unless_duplicate e eid rest) (\<lambda>r c. P r (cdb c)) (at d id n)"
proof -
  have stop: "wp (return_commit e) (\<lambda>r c. P r (cdb c)) (at d id m)"
    if "dedupe_known pointsConsumer (collate e) eid d" for m
    by (rule return_commit_wp [OF q ab]) (simp_all add: dup that)
  show ?thesis
    unfolding unless_duplicate_def isDuplicateOrErr_def on_call_nested
    by (rule vc_on_exec [OF q])
      (use ab stop new in \<open>auto simp: abortable_def sql_spec errDuplicateEvent_def comp_def id_def\<close>)
qed

lemma points_stable [simp]:
  "user_exists v (consumer_dedupe_update f d) = user_exists v d"
  "user_exists v (fan_point_ledger_update g d) = user_exists v d"
  "session_exists sid (consumer_dedupe_update f d) = session_exists sid d"
  "session_exists sid (fan_point_ledger_update g d) = session_exists sid d"
  "fan_count v sid reason (consumer_dedupe_update f d) = fan_count v sid reason d"
  by (simp_all add: user_exists_def session_exists_def fan_count_def)

lemma projected_result:
  assumes "\<not> dedupe_known pointsConsumer (collate e) (fst ev) d" and "projectable ev d"
    and "D = projected ev ts d"
  shows "points_result e ev d r D"
  using assms by (auto simp: points_result_def points_effect_def)

lemma abortable_points: "abortable Inl d (\<lambda>r c. points_result e ev d r (cdb c))"
  by (auto simp: abortable_def points_result_def)

lemma points_duplicate:
  "dedupe_known pointsConsumer (collate e) (fst ev) d \<Longrightarrow> points_result e ev d r d"
  by (simp add: points_result_def)

lemma ApplyGift_cases:
  assumes q: "quiet e" and run: "ApplyGift e eid evt d = (r, d')"
  shows "points_result e (eid, GiftEvent evt) d r d'"
proof -
  let ?ev = "(eid, GiftEvent evt)"
  let ?ts = "\<lambda>k. now e (Suc k)"
  note ab = abortable_points [of d e ?ev]
  note eff = projected_result [of e ?ev d _ ?ts]
  show ?thesis
    apply (rule in_tx_wp [OF run [unfolded ApplyGift_def] _ _ q, where P = "points_result e ?ev d"])
     apply (simp add: points_result_def)
    apply (rule unless_duplicate_wp [OF q ab])
     apply (rule points_duplicate, simp)
    apply (rule vc_exec [OF q ab], simp)
    apply (cases "lga_CampaignID evt")
     apply (simp, rule return_commit_wp [OF q ab], simp)
     apply (rule eff; auto simp: sql_spec projectable_def projected_def fan_row_def)
    apply (simp, rule vc_exec [OF q ab], simp)
    apply (rule return_commit_wp [OF q ab], simp)
    apply (rule eff; auto simp: sql_spec projectable_def projected_def fan_row_def call_offset numeral_2_eq_2)
    done
qed

lemma applyCapped_cases:
  assumes q: "quiet e" and run: "applyCapped e eid v cr sid reason cap d = (r, d')"
    and fan: "\<And>t. fan_rows eid ev t d =
      (if fan_count v sid reason d \<ge> cap then [] else [fan_row eid v cr sid 1 reason t])"
    and camp: "\<And>t. campaign_rows eid ev t = []"
  shows "points_result e (eid, ev) d r d'"
proof -
  let ?ev = "(eid, ev)"
  let ?ts = "\<lambda>k. now e (Suc (2 * k))"
  note ab = abortable_points [of d e ?ev]
  note eff = projected_result [of e ?ev d _ ?ts]
  show ?thesis
    apply (rule in_tx_wp [OF run [unfolded applyCapped_def] _ _ q, where P = "points_result e ?ev d"])
     apply (simp add: points_result_def)
    apply (rule unless_duplicate_wp [OF q ab])
     apply (rule points_duplicate, simp)
    apply (rule vc_exec [OF q ab], simp)
    apply (split if_split, intro conjI impI)
     apply (rule return_commit_wp [OF q ab], simp)
     apply (rule eff; simp add: sql_spec projectable_def projected_def fan camp id_def)
    apply (rule vc_exec [OF q ab], simp)
    apply (rule return_commit_wp [OF q ab], simp)
    apply (rule eff; auto simp: sql_spec projectable_def projected_def fan camp fan_row_def call_offset
        fits_int32_def numeral_3_eq_3)
    done
qed

lemma project_points_cases:
  assumes "quiet e" and "project_points e ev d = (r, d')"
  shows "points_result e ev d r d'"
proof (cases ev)
  case (Pair eid x)
  with assms show ?thesis
    by (cases x) (auto simp: ApplyComment_def ApplyWatchMinute_def
        intro: ApplyGift_cases applyCapped_cases [of e])
qed

lemma dedupe_known_projected: "dedupe_known pointsConsumer coll (fst ev) (projected ev ts d)"
  by (simp add: projected_def dedupe_known_def dedupe_row_def)

text \<open>The projector is a deduplicating handler: redelivery applies an event at most once.\<close>

interpretation points_events:
  deduplicating project_points points_effect "\<lambda>coll ev. dedupe_known pointsConsumer coll (fst ev)"
proof unfold_locales
  show "untouched d d' \<or> points_effect e ev d d'"
    if "quiet e" "project_points e ev d = (r, d')" for e ev d r d'
    using project_points_cases [OF that] by (auto simp: points_result_def)
  show "\<not> dedupe_known pointsConsumer (collate e) (fst ev) d" if "points_effect e ev d d'" for e ev d d'
    using that by (simp add: points_effect_def)
  show "dedupe_known pointsConsumer (collate e) (fst ev) d'" if "points_effect e ev d d'" for e ev d d'
    using that by (auto simp: points_effect_def intro: dedupe_known_projected)
  show "dedupe_known pointsConsumer coll (fst ev) d' = dedupe_known pointsConsumer coll (fst ev) d"
    if "untouched d d'" for d d' coll and ev :: "u64 \<times> point_event"
    using that by (simp add: untouched_iff dedupe_known_def)
qed

section \<open>Invariants of the ledgers\<close>

text \<open>
  An event has points only when it was recorded as applied, at most once in each ledger, and
  the capped reasons stay within their caps.
\<close>

definition points_inv :: "(string \<Rightarrow> string) \<Rightarrow> db \<Rightarrow> bool" where
  "points_inv coll d \<longleftrightarrow>
     distinct (map fp_EventID (fan_point_ledger d)) \<and>
     distinct (map cp_EventID (campaign_point_ledger d)) \<and>
     (\<forall>r \<in> set (fan_point_ledger d). dedupe_known pointsConsumer coll (fp_EventID r) d) \<and>
     (\<forall>r \<in> set (campaign_point_ledger d). dedupe_known pointsConsumer coll (cp_EventID r) d) \<and>
     (\<forall>v sid. fan_count v sid COMMENT d \<le> 20 \<and> fan_count v sid WATCH_MINUTE d \<le> 60)"

lemma points_inv_other:
  assumes "points_inv coll d" and "fan_point_ledger d' = fan_point_ledger d"
    and "campaign_point_ledger d' = campaign_point_ledger d" and "consumer_dedupe d' = consumer_dedupe d"
  shows "points_inv coll d'"
  using assms by (simp add: points_inv_def dedupe_known_def fan_count_def)

lemma dedupe_known_mono:
  "dedupe_known consumer coll eid d \<Longrightarrow>
     dedupe_known consumer coll eid (d\<lparr>consumer_dedupe := consumer_dedupe d @ rs\<rparr>)"
  by (simp add: dedupe_known_def)

lemma fan_count_projected:
  "fan_count v sid reason (projected ev ts d) =
     fan_count v sid reason d + length (filter (\<lambda>r. fp_ViewerID r = v \<and> fp_LiveSessionID r = sid \<and>
       fp_Reason r = reason) (fan_rows (fst ev) (snd ev) (ts 1) d))"
  by (simp add: fan_count_def projected_def)

lemma fan_rows_event: "r \<in> set (fan_rows eid ev t d) \<Longrightarrow> fp_EventID r = eid"
  by (cases ev) (auto simp: fan_row_def split: if_splits)

lemma campaign_rows_event: "r \<in> set (campaign_rows eid ev t) \<Longrightarrow> cp_EventID r = eid"
  by (cases ev) (auto split: option.splits)

lemma rows_distinct [simp]:
  "distinct (map fp_EventID (fan_rows eid ev t d))" "distinct (map cp_EventID (campaign_rows eid ev t))"
  by (cases ev; auto split: option.splits)+

lemma points_caps:
  assumes "\<forall>v sid. fan_count v sid COMMENT d \<le> 20 \<and> fan_count v sid WATCH_MINUTE d \<le> 60"
  shows "fan_count v sid COMMENT (projected ev ts d) \<le> 20 \<and>
         fan_count v sid WATCH_MINUTE (projected ev ts d) \<le> 60"
  using assms [rule_format, of v sid]
  by (cases "snd ev") (auto simp: fan_count_projected fan_row_def)

lemma points_inv_effect:
  assumes inv: "points_inv coll d" and eff: "points_effect e ev d d'" and coll: "collate e = coll"
  shows "points_inv coll d'"
proof -
  obtain ts where d': "d' = projected ev ts d" and new: "\<not> dedupe_known pointsConsumer coll (fst ev) d"
    using eff coll by (auto simp: points_effect_def)
  have old: "fp_EventID r \<noteq> fst ev" if "r \<in> set (fan_point_ledger d)" for r
    using inv new that by (auto simp: points_inv_def)
  have old': "cp_EventID r \<noteq> fst ev" if "r \<in> set (campaign_point_ledger d)" for r
    using inv new that by (auto simp: points_inv_def)
  have known: "dedupe_known pointsConsumer coll eid d'"
    if "eid = fst ev \<or> dedupe_known pointsConsumer coll eid d" for eid
    using that by (auto simp: d' projected_def dedupe_known_def dedupe_row_def)
  have "distinct (map fp_EventID (fan_point_ledger d'))" "distinct (map cp_EventID (campaign_point_ledger d'))"
    using inv old old' fan_rows_event [of _ "fst ev" "snd ev" "ts 1" d]
      campaign_rows_event [of _ "fst ev" "snd ev" "ts 2"]
    by (fastforce simp: points_inv_def d' projected_def)+
  moreover have "dedupe_known pointsConsumer coll (fp_EventID r) d'" if "r \<in> set (fan_point_ledger d')" for r
    using that inv by (intro known) (auto simp: points_inv_def d' projected_def dest: fan_rows_event)
  moreover have "dedupe_known pointsConsumer coll (cp_EventID r) d'" if "r \<in> set (campaign_point_ledger d')" for r
    using that inv by (intro known) (auto simp: points_inv_def d' projected_def dest: campaign_rows_event)
  moreover have "fan_count v sid COMMENT d' \<le> 20 \<and> fan_count v sid WATCH_MINUTE d' \<le> 60" for v sid
    using inv unfolding d' by (intro points_caps) (simp add: points_inv_def)
  ultimately show ?thesis by (simp add: points_inv_def)
qed

section \<open>Events that cannot be projected\<close>

text \<open>
  The charge of a gift is an unsigned 32-bit number and the points column a signed one: an
  event with a charge of \<open>2 ^ 31\<close> or more is refused each time it is delivered.
\<close>

lemma ApplyGift_overflow:
  assumes "quiet e" and "ApplyGift e eid evt d = (r, d')"
    and "2 ^ 31 \<le> uint (lga_ChargedCoins evt)" and "\<not> dedupe_known pointsConsumer (collate e) eid d"
  shows "untouched d d' \<and> (\<exists>er. r = Inl er)"
  using ApplyGift_cases [OF assms(1,2)] assms(3,4)
  by (cases r) (auto simp: points_result_def points_effect_def projectable_def fan_row_def fits_int32_def)

section \<open>Runs without faults\<close>

lemma run_unless_duplicate:
  assumes c: "calm e"
  shows "unless_duplicate e eid rest (at d id n) =
     (if dedupe_known pointsConsumer (collate e) eid d then (Inr (), at d id (Suc (Suc n)))
      else rest (at d (consumer_dedupe_update (\<lambda>rs. rs @ [dedupe_row pointsConsumer eid (now e n)])) (Suc n)))"
  by (simp add: unless_duplicate_def isDuplicateOrErr_def on_call_nested run_exec [OF c]
      InsertConsumerDedupe_def dedupe_known_def [symmetric] dedupe_row_def return_commit_def check_as_def
      run_commit [OF c] ret_def comp_def id_def)

lemma run_return_commit: "calm e \<Longrightarrow> return_commit e (at D W n) = (Inr (), at (W D) id (Suc n))"
  by (simp add: return_commit_def check_as_def run_commit ret_def)

text \<open>A known event is acknowledged and changes nothing.\<close>

lemma project_points_known:
  assumes c: "calm e" and "dedupe_known pointsConsumer (collate e) (fst ev) d"
  shows "project_points e ev d = (Inr (), d)"
proof (cases ev)
  case (Pair eid x)
  with assms(2) show ?thesis
    by (cases x) (simp_all add: ApplyGift_def ApplyComment_def ApplyWatchMinute_def applyCapped_def
        run_in_tx [OF c] run_unless_duplicate [OF c])
qed

lemma project_points_new:
  assumes c: "calm e" and new: "\<not> dedupe_known pointsConsumer (collate e) (fst ev) d"
    and ok: "projectable ev d"
  shows "\<exists>ts. project_points e ev d = (Inr (), projected ev ts d)"
proof (cases ev)
  case (Pair eid x)
  have fan: "InsertFanPoints eid v cr sid p reason t (consumer_dedupe_update f d) =
      (Inr (), fan_point_ledger_update (\<lambda>rs. rs @ [fan_row eid v cr sid p reason t]))"
    if "fan_rows eid x 0 d = [fan_row eid v cr sid p reason 0]" for v cr sid p reason t f
    using ok that by (simp add: Pair projectable_def InsertFanPoints_def fan_row_def)
  note unf = run_in_tx [OF c] run_unless_duplicate [OF c] check_as_def run_exec [OF c]
    run_return_commit [OF c] CountFanPoints_def projected_def
  show ?thesis
  proof (cases x)
    case (GiftEvent evt)
    have camp: "InsertCampaignPoints eid cid (lga_CreatorID evt) (uint (lga_ChargedCoins evt)) t
        (fan_point_ledger_update g (consumer_dedupe_update f d)) =
        (Inr (), campaign_point_ledger_update (\<lambda>rs. rs @ campaign_rows eid x t))"
      if "lga_CampaignID evt = Some cid" for cid t f g
      using ok that by (simp add: Pair GiftEvent projectable_def InsertCampaignPoints_def fan_row_def)
    show ?thesis
      using new
      by (intro exI [of _ "\<lambda>k. now e (Suc k)"])
        (auto simp: Pair GiftEvent ApplyGift_def unf fan camp numeral_3_eq_3 split: option.splits)
  next
    case (CommentEvent evt)
    show ?thesis
      using new
      by (intro exI [of _ "\<lambda>k. now e (Suc (2 * k))"])
        (auto simp: Pair CommentEvent ApplyComment_def applyCapped_def unf fan numeral_3_eq_3)
  next
    case (WatchEvent evt)
    show ?thesis
      using new
      by (intro exI [of _ "\<lambda>k. now e (Suc (2 * k))"])
        (auto simp: Pair WatchEvent ApplyWatchMinute_def applyCapped_def unf fan numeral_3_eq_3)
  qed
qed

end
