(* ===== verification/Redis.thy ===== *)
theory Redis
  imports Prelude
begin

text \<open>
  What the leaderboard projector sees of Redis through \<open>go-redis\<close>, which are not part of the
  repository: the documented effect of the five commands it sends (\<open>ZINCRBY\<close>, \<open>HINCRBY\<close>, \<open>DEL\<close>,
  \<open>ZADD\<close>, \<open>HSET\<close>) on a store of keys, and the ways in which a call can end. The client
  repeats a command whose reply was lost, so a call may take effect several times, or take
  effect and still report an error; which of these happens is a parameter (\<open>reply\<close>).
\<close>

section \<open>Scores\<close>

text \<open>
  A score is a \<open>float64\<close>. The program only ever makes scores from integers and adds them, so a
  score is an integer, rounded to the nearest multiple of a power of two with 53 bits, ties to
  even.
\<close>

fun bit_len :: "nat \<Rightarrow> nat" where
  "bit_len n = (if n = 0 then 0 else Suc (bit_len (n div 2)))"

declare bit_len.simps [simp del]

definition round53 :: "nat \<Rightarrow> nat" where
  "round53 n =
     (let k = bit_len n - 53; q = n div 2 ^ k; r = n mod 2 ^ k in
      if 2 ^ k < 2 * r \<or> (2 ^ k = 2 * r \<and> odd q) then (q + 1) * 2 ^ k else q * 2 ^ k)"

definition f64 :: "int \<Rightarrow> int" where
  "f64 x = sgn x * int (round53 (nat \<bar>x\<bar>))"

lemma bit_len_le: "n < 2 ^ k \<Longrightarrow> bit_len n \<le> k"
proof (induction k arbitrary: n)
  case 0
  then show ?case by (simp add: bit_len.simps)
next
  case (Suc k)
  then have "n div 2 < 2 ^ k" by auto
  with Suc.IH show ?case by (subst bit_len.simps) auto
qed

text \<open>Below \<open>2 ^ 53\<close> nothing is rounded.\<close>

lemma f64_exact: "\<bar>x\<bar> < 2 ^ 53 \<Longrightarrow> f64 x = x"
proof -
  assume "\<bar>x\<bar> < 2 ^ 53"
  then have "bit_len (nat \<bar>x\<bar>) - 53 = 0" by (simp add: bit_len_le nat_less_iff)
  then have "round53 (nat \<bar>x\<bar>) = nat \<bar>x\<bar>" by (simp add: round53_def)
  then show ?thesis using abs_mult_sgn [of x] by (simp add: f64_def mult.commute)
qed

section \<open>The store\<close>

text \<open>
  A sorted set is the scores of its members; a hash the values of its fields, which here are
  always the decimal text of an \<open>int64\<close> and are kept as the number. An empty set or hash does
  not exist as a key.
\<close>

datatype redis_value = ZSet "string \<rightharpoonup> int" | Hash "string \<rightharpoonup> i64"

type_synonym redis = "string \<rightharpoonup> redis_value"
type_synonym redis_cmd = "redis \<Rightarrow> (go_error + unit) \<times> redis"

definition wrong_type :: go_error where
  "wrong_type = Errorf ''WRONGTYPE Operation against a key holding the wrong kind of value''"

definition zset_at :: "string \<Rightarrow> redis \<Rightarrow> string \<rightharpoonup> int" where
  "zset_at key s = (case s key of Some (ZSet z) \<Rightarrow> z | _ \<Rightarrow> Map.empty)"

definition hash_at :: "string \<Rightarrow> redis \<Rightarrow> string \<rightharpoonup> i64" where
  "hash_at key s = (case s key of Some (Hash h) \<Rightarrow> h | _ \<Rightarrow> Map.empty)"

definition ZIncrBy :: "string \<Rightarrow> int \<Rightarrow> string \<Rightarrow> redis_cmd" where
  "ZIncrBy key incr member s =
     (case s key of
       Some (Hash h) \<Rightarrow> (Inl wrong_type, s)
     | _ \<Rightarrow> (let z = zset_at key s; old = (case z member of None \<Rightarrow> 0 | Some v \<Rightarrow> v) in
         (Inr (), s(key \<mapsto> ZSet (z(member \<mapsto> f64 (old + incr)))))))"

definition HIncrBy :: "string \<Rightarrow> string \<Rightarrow> i64 \<Rightarrow> redis_cmd" where
  "HIncrBy key field incr s =
     (case s key of
       Some (ZSet z) \<Rightarrow> (Inl wrong_type, s)
     | _ \<Rightarrow> (let h = hash_at key s; old = (case h field of None \<Rightarrow> 0 | Some v \<Rightarrow> v) in
         if in_i64 (old + incr) then (Inr (), s(key \<mapsto> Hash (h(field \<mapsto> old + incr))))
         else (Inl (Errorf ''ERR increment or decrement would overflow''), s)))"

definition Del :: "string \<Rightarrow> redis_cmd" where
  "Del key s = (Inr (), s(key := None))"

definition ZAdd :: "string \<Rightarrow> (string \<times> int) list \<Rightarrow> redis_cmd" where
  "ZAdd key members s =
     (case s key of
       Some (Hash h) \<Rightarrow> (Inl wrong_type, s)
     | _ \<Rightarrow> (Inr (), s(key \<mapsto> ZSet (foldl (\<lambda>z (m, v). z(m \<mapsto> v)) (zset_at key s) members))))"

definition HSet :: "string \<Rightarrow> (string \<times> i64) list \<Rightarrow> redis_cmd" where
  "HSet key fvs s =
     (case s key of
       Some (ZSet z) \<Rightarrow> (Inl wrong_type, s)
     | _ \<Rightarrow> (Inr (), s(key \<mapsto> Hash (foldl (\<lambda>h (f, v). h(f \<mapsto> v)) (hash_at key s) fvs))))"

section \<open>Calls\<close>

text \<open>
  \<open>Acked k\<close>: the reply is that of the last attempt, after \<open>k\<close> earlier ones that took effect
  without a reply. \<open>Failed k er\<close>: an error, with \<open>k\<close> attempts that took effect.
\<close>

datatype reply = Acked nat | Failed nat go_error

type_synonym 'r redis_prog = "redis \<times> nat \<Rightarrow> 'r \<times> redis \<times> nat"

definition redis_call :: "(nat \<Rightarrow> reply) \<Rightarrow> redis_cmd \<Rightarrow> (go_error + unit) redis_prog" where
  "redis_call rp cmd = (\<lambda>(s, n).
     case rp n of
       Acked k \<Rightarrow> (case cmd (((snd \<circ> cmd) ^^ k) s) of (r, s') \<Rightarrow> (r, s', Suc n))
     | Failed k er \<Rightarrow> (Inl er, ((snd \<circ> cmd) ^^ k) s, Suc n))"

definition redis_return :: "'r \<Rightarrow> 'r redis_prog" where
  "redis_return r s = (r, s)"

text \<open>\<open>if err := call; err != nil { return err }; rest\<close>.\<close>

definition redis_then ::
  "(go_error + unit) redis_prog \<Rightarrow> (go_error + 'a) redis_prog \<Rightarrow> (go_error + 'a) redis_prog" where
  "redis_then m k s = (case m s of (Inl er, s') \<Rightarrow> (Inl er, s') | (Inr _, s') \<Rightarrow> k s')"

section \<open>Commands that are sent more than once\<close>

definition answering :: "(nat \<Rightarrow> reply) \<Rightarrow> bool" where
  "answering rp \<longleftrightarrow> (\<forall>n. \<exists>k. rp n = Acked k)"

text \<open>A command that changes nothing when it is repeated does not notice the retries.\<close>

lemma redis_call_idem:
  assumes rp: "answering rp" and run: "cmd s = (Inr (), s')" and again: "cmd s' = (Inr (), s')"
  shows "redis_call rp cmd (s, n) = (Inr (), s', Suc n)"
proof -
  obtain k where k: "rp n = Acked k" using rp unfolding answering_def by blast
  have "((snd \<circ> cmd) ^^ k) s \<in> {s, s'}" by (induction k) (simp_all, use run again in force)
  with k run again show ?thesis by (auto simp: redis_call_def)
qed

lemma redis_call_del:
  "answering rp \<Longrightarrow> redis_call rp (Del key) (s, n) = (Inr (), s(key := None), Suc n)"
  by (rule redis_call_idem) (auto simp: Del_def)

lemma foldl_upd: "foldl (\<lambda>z (m, v). z(m \<mapsto> v)) z xs = z ++ map_of (rev xs)"
  by (induction xs arbitrary: z) (auto simp: map_add_upd_left [symmetric] split: prod.splits)

lemma map_of_rev_distinct: "distinct (map fst xs) \<Longrightarrow> map_of (rev xs) = map_of xs"
  by (subst map_of_inject_set) (simp_all add: rev_map [symmetric])

lemma map_add_same [simp]: "m ++ m = m"
  by (rule ext) (simp add: map_add_def split: option.splits)

lemma redis_call_zadd:
  assumes "answering rp" and "s key = None" and "distinct (map fst ms)"
  shows "redis_call rp (ZAdd key ms) (s, n) = (Inr (), s(key \<mapsto> ZSet (map_of ms)), Suc n)"
  using assms
  by (intro redis_call_idem) (auto simp: ZAdd_def zset_at_def foldl_upd map_of_rev_distinct)

lemma redis_call_hset:
  assumes "answering rp" and "s key = None" and "distinct (map fst fvs)"
  shows "redis_call rp (HSet key fvs) (s, n) = (Inr (), s(key \<mapsto> Hash (map_of fvs)), Suc n)"
  using assms
  by (intro redis_call_idem) (auto simp: HSet_def hash_at_def foldl_upd map_of_rev_distinct)

lemma redis_then_Inr: "m s = (Inr (), s') \<Longrightarrow> redis_then m k s = k s'"
  by (simp add: redis_then_def)

text \<open>The contents of a key that is written from a keyed table, whatever the order.\<close>

lemma map_of_keyed:
  assumes "inj f"
  shows "map_of (map (\<lambda>k. (f k, g k)) ks) x = Some y \<longleftrightarrow> (\<exists>k \<in> set ks. x = f k \<and> y = g k)"
  using assms by (induction ks) (auto dest: injD)

lemma map_of_keyed_cong:
  assumes "inj f" and "set ks = set ks'" and "\<And>k. k \<in> set ks \<Longrightarrow> g k = g' k"
  shows "map_of (map (\<lambda>k. (f k, g k)) ks) = map_of (map (\<lambda>k. (f k, g' k)) ks')"
proof
  fix x
  have "map_of (map (\<lambda>k. (f k, g k)) ks) x = Some y \<longleftrightarrow>
        map_of (map (\<lambda>k. (f k, g' k)) ks') x = Some y" for y
    using assms by (auto simp: map_of_keyed)
  then show "map_of (map (\<lambda>k. (f k, g k)) ks) x = map_of (map (\<lambda>k. (f k, g' k)) ks') x"
    by (metis not_Some_eq)
qed

end
