(* ===== verification/Leaderboard.thy ===== *)
theory Leaderboard
  imports Points Redis "HOL-Library.AList"
begin

text \<open>
  The leaderboard projector (\<open>internal/projector/leaderboard/projector.go\<close>). An accepted gift is
  first recorded in \<open>consumer_dedupe\<close>, in a transaction of its own, and then added to the
  sorted sets and the hash of Redis; a rebuild recomputes the keys of a session from MySQL.
\<close>

section \<open>Keys\<close>

definition consumerName :: string where
  "consumerName = ''leaderboard-projector''"

definition contributorKey :: "u64 \<Rightarrow> string" where
  "contributorKey liveSessionID = ''lb:contributors:'' @ FormatUint liveSessionID"

definition campaignKey :: "u64 \<Rightarrow> string" where
  "campaignKey campaignID = ''lb:campaign:'' @ FormatUint campaignID"

definition matchScoreKey :: "u64 \<Rightarrow> string" where
  "matchScoreKey matchID = ''match:score:'' @ FormatUint matchID"

definition creator_field :: "u64 \<Rightarrow> string" where
  "creator_field creatorID = ''creator_'' @ FormatUint creatorID @ ''_points''"

definition lb_isDup :: "go_error \<Rightarrow> bool" where
  "lb_isDup er = (case er of MySQLError n \<Rightarrow> n = 1062 | _ \<Rightarrow> False)"

definition lb_int64ToUint64 :: "i64 \<Rightarrow> string \<Rightarrow> go_error + u64" where
  "lb_int64ToUint64 v name =
     (if v < 0 then Inl (Errorf (name @ '' overflow uint64: '' @ FormatInt v))
      else Inr (of_int v))"

section \<open>Applying an event\<close>

text \<open>The transaction: \<open>True\<close> when the event is new and its record committed.\<close>

definition dedupe_tx :: "env \<Rightarrow> u64 \<Rightarrow> (go_error + bool) prog" where
  "dedupe_tx e eventID =
     on_call (exec e (InsertConsumerDedupe (collate e) consumerName eventID))
       (\<lambda>er. if lb_isDup er then check_as Inl (Commit e) (\<lambda>_. ret (Inr False)) else ret (Inl er))
       (\<lambda>_. check_as Inl (Commit e) (\<lambda>_. ret (Inr True)))"

definition claim_event :: "env \<Rightarrow> u64 \<Rightarrow> db \<Rightarrow> (go_error + bool) \<times> db" where
  "claim_event e eventID = in_tx e (dedupe_tx e eventID) Inl"

definition apply_scores :: "(nat \<Rightarrow> reply) \<Rightarrow> LiveGiftAcceptedV1 \<Rightarrow> (go_error + unit) redis_prog" where
  "apply_scores rp evt =
     redis_then (redis_call rp (ZIncrBy (contributorKey (lga_LiveSessionID evt))
                   (f64 (uint (lga_ChargedCoins evt))) (FormatUint (lga_ViewerID evt))))
     (redis_then
        (case lga_CampaignID evt of
          None \<Rightarrow> redis_return (Inr ())
        | Some cid \<Rightarrow> redis_call rp (ZIncrBy (campaignKey cid)
                        (f64 (uint (lga_ChargedCoins evt))) (FormatUint (lga_CreatorID evt))))
     (case lga_MatchID evt of
        None \<Rightarrow> redis_return (Inr ())
      | Some mid \<Rightarrow> redis_call rp (HIncrBy (matchScoreKey mid)
                      (creator_field (lga_CreatorID evt)) (uint (lga_MatchPoints evt)))))"

definition ApplyAcceptedGift ::
  "env \<Rightarrow> (nat \<Rightarrow> reply) \<Rightarrow> u64 \<Rightarrow> LiveGiftAcceptedV1 \<Rightarrow> db \<times> redis \<Rightarrow> (go_error + unit) \<times> db \<times> redis" where
  "ApplyAcceptedGift e rp eventID evt st =
     (case claim_event e eventID (fst st) of
       (Inl er, d) \<Rightarrow> (Inl er, d, snd st)
     | (Inr False, d) \<Rightarrow> (Inr (), d, snd st)
     | (Inr True, d) \<Rightarrow>
         (case apply_scores rp evt (snd st, 0) of (r, s, _) \<Rightarrow> (r, d, s)))"

section \<open>Rebuilding a session\<close>

text \<open>
  \<open>match_id\<close> and \<open>campaign_id\<close> are BIGINT UNSIGNED columns, scanned into a \<open>sql.NullInt64\<close>.
\<close>

definition scan_null_int64 :: "u64 option \<Rightarrow> go_error + i64 option" where
  "scan_null_int64 v = (case v of
     None \<Rightarrow> Inr None
   | Some w \<Rightarrow> (case scan_int64 (uint w) of Inl er \<Rightarrow> Inl er | Inr x \<Rightarrow> Inr (Some x)))"

definition SelectAccepted :: "u64 \<Rightarrow> micros \<Rightarrow> GiftOrder list sql" where
  "SelectAccepted sid t d = (Inr (session_orders sid d), id)"

text \<open>A Go map as an association list; a missing number is zero.\<close>

definition entry :: "('k \<times> int) list \<Rightarrow> 'k \<Rightarrow> int" where
  "entry al k = (case map_of al k of None \<Rightarrow> 0 | Some v \<Rightarrow> v)"

definition inner :: "('k \<times> ('j \<times> int) list) list \<Rightarrow> 'k \<Rightarrow> ('j \<times> int) list" where
  "inner al k = (case map_of al k of None \<Rightarrow> [] | Some m \<Rightarrow> m)"

type_synonym scores = "(u64 \<times> int) list"

fun rebuild_rows ::
  "GiftOrder list \<Rightarrow> scores \<Rightarrow> (u64 \<times> scores) list \<Rightarrow> go_error + scores \<times> (u64 \<times> scores) list" where
  "rebuild_rows [] contrib matchScores = Inr (contrib, matchScores)"
| "rebuild_rows (g # rows) contrib matchScores =
     (case scan_null_int64 (go_MatchID g) of
       Inl er \<Rightarrow> Inl er
     | Inr matchID \<Rightarrow>
         (let contrib' = AList.update (go_ViewerID g)
                (f64 (entry contrib (go_ViewerID g) + f64 (uint (go_ChargedCoins g)))) contrib in
          case matchID of
            None \<Rightarrow> rebuild_rows rows contrib' matchScores
          | Some m \<Rightarrow>
              (case lb_int64ToUint64 m ''match_id'' of
                Inl er \<Rightarrow> Inl er
              | Inr mID \<Rightarrow>
                  (let per = inner matchScores mID;
                       per' = AList.update (go_CreatorID g)
                         (wrap64 (entry per (go_CreatorID g) + uint (go_MatchPointsAdded g))) per in
                   rebuild_rows rows contrib' (AList.update mID per' matchScores)))))"

text \<open>
  A \<open>range\<close> over a Go map takes the keys in any order: the i-th such loop in the order that
  \<open>ord\<close> gives.
\<close>

type_synonym map_order = "u64 list \<Rightarrow> u64 list"

definition rebuild_contributors ::
  "(nat \<Rightarrow> reply) \<Rightarrow> map_order \<Rightarrow> u64 \<Rightarrow> scores \<Rightarrow> (go_error + unit) redis_prog" where
  "rebuild_contributors rp ord liveSessionID contrib =
     redis_then (redis_call rp (Del (contributorKey liveSessionID)))
     (if contrib \<noteq> [] then
        redis_call rp (ZAdd (contributorKey liveSessionID)
          (map (\<lambda>v. (FormatUint v, entry contrib v)) (ord (map fst contrib))))
      else redis_return (Inr ()))"

primrec rebuild_matches ::
  "(nat \<Rightarrow> reply) \<Rightarrow> map_order \<Rightarrow> (u64 \<times> scores) list \<Rightarrow> u64 list \<Rightarrow> (go_error + unit) redis_prog" where
  "rebuild_matches rp ord matchScores [] = redis_return (Inr ())"
| "rebuild_matches rp ord matchScores (mid # mids) =
     (let perCreator = inner matchScores mid;
          fvs = map (\<lambda>c. (creator_field c, entry perCreator c)) (ord (map fst perCreator)) in
      redis_then (redis_call rp (Del (matchScoreKey mid)))
      (redis_then
         (if fvs \<noteq> [] then redis_call rp (HSet (matchScoreKey mid) fvs)
          else redis_return (Inr ()))
      (rebuild_matches rp ord matchScores mids)))"

text \<open>The campaign of the session, and the coins of its creators over all its sessions.\<close>

definition SelectCampaignID :: "u64 \<Rightarrow> micros \<Rightarrow> i64 option sql" where
  "SelectCampaignID sid t d =
     (case find (\<lambda>s. ls_LiveSessionID s = sid) (live_sessions d) of
       None \<Rightarrow> (Inl ErrNoRows, id)
     | Some s \<Rightarrow> (scan_null_int64 (ls_CampaignID s), id))"

definition campaign_orders :: "u64 \<Rightarrow> db \<Rightarrow> GiftOrder list" where
  "campaign_orders cid d = filter (\<lambda>g. go_Status g = ACCEPTED \<and>
     list_ex (\<lambda>s. ls_LiveSessionID s = go_LiveSessionID g \<and> ls_CampaignID s = Some cid)
       (live_sessions d)) (gift_orders d)"

fun scan_campaign :: "(u64 \<times> int) list \<Rightarrow> go_error + (string \<times> int) list" where
  "scan_campaign [] = Inr []"
| "scan_campaign ((creator, coins) # rows) =
     (case scan_int64 coins of
       Inl er \<Rightarrow> Inl er
     | Inr points \<Rightarrow>
         (case scan_campaign rows of
           Inl er \<Rightarrow> Inl er
         | Inr zs \<Rightarrow> Inr ((FormatUint creator, f64 points) # zs)))"

definition SelectCampaignScores :: "u64 \<Rightarrow> micros \<Rightarrow> (string \<times> int) list sql" where
  "SelectCampaignScores cid t d =
     (scan_campaign (groups_by go_CreatorID (\<lambda>g. uint (go_ChargedCoins g)) (campaign_orders cid d)), id)"

definition rebuild_campaign ::
  "env \<Rightarrow> (nat \<Rightarrow> reply) \<Rightarrow> u64 \<Rightarrow> conn \<Rightarrow> redis \<times> nat \<Rightarrow> (go_error + unit) \<times> conn \<times> redis" where
  "rebuild_campaign e rp cid c rn =
     (case redis_call rp (Del (campaignKey cid)) rn of
       (Inl er, s, n) \<Rightarrow> (Inl er, c, s)
     | (Inr _, s, n) \<Rightarrow>
         (case auto_exec e (SelectCampaignScores cid) c of
           (Inl er, c') \<Rightarrow> (Inl er, c', s)
         | (Inr campaignZ, c') \<Rightarrow>
             if campaignZ \<noteq> [] then
               (case redis_call rp (ZAdd (campaignKey cid) campaignZ) (s, n) of
                 (r, s', _) \<Rightarrow> (r, c', s'))
             else (Inr (), c', s)))"

definition rebuild_session_campaign ::
  "env \<Rightarrow> (nat \<Rightarrow> reply) \<Rightarrow> u64 \<Rightarrow> conn \<Rightarrow> redis \<times> nat \<Rightarrow> (go_error + unit) \<times> conn \<times> redis" where
  "rebuild_session_campaign e rp liveSessionID c rn =
     (case auto_exec e (SelectCampaignID liveSessionID) c of
       (Inl er, c') \<Rightarrow> (Inl er, c', fst rn)
     | (Inr None, c') \<Rightarrow> (Inr (), c', fst rn)
     | (Inr (Some v), c') \<Rightarrow>
         (case lb_int64ToUint64 v ''campaign_id'' of
           Inl er \<Rightarrow> (Inl er, c', fst rn)
         | Inr cid \<Rightarrow> rebuild_campaign e rp cid c' rn))"

definition RebuildLiveSession ::
  "env \<Rightarrow> (nat \<Rightarrow> reply) \<Rightarrow> map_order \<Rightarrow> u64 \<Rightarrow> db \<times> redis \<Rightarrow> (go_error + unit) \<times> db \<times> redis" where
  "RebuildLiveSession e rp ord liveSessionID st =
     (case auto_exec e (SelectAccepted liveSessionID) (connect (fst st)) of
       (Inl er, c) \<Rightarrow> (Inl er, cdb c, snd st)
     | (Inr rows, c) \<Rightarrow>
         (case rebuild_rows rows [] [] of
           Inl er \<Rightarrow> (Inl er, cdb c, snd st)
         | Inr (contrib, matchScores) \<Rightarrow>
             (case redis_then (rebuild_contributors rp ord liveSessionID contrib)
                     (rebuild_matches rp ord matchScores (ord (map fst matchScores))) (snd st, 0) of
               (Inl er, s, n) \<Rightarrow> (Inl er, cdb c, s)
             | (Inr _, s, n) \<Rightarrow>
                 (case rebuild_session_campaign e rp liveSessionID c (s, n) of
                   (r, c', s') \<Rightarrow> (r, cdb c', s')))))"

section \<open>An event reaches Redis at most once\<close>

definition claimed :: "env \<Rightarrow> u64 \<Rightarrow> db \<Rightarrow> db \<Rightarrow> bool" where
  "claimed e eid d d' \<longleftrightarrow> \<not> dedupe_known consumerName (collate e) eid d \<and>
     (\<exists>t. d' = consumer_dedupe_update (\<lambda>rs. rs @ [dedupe_row consumerName eid t]) d)"

definition claim_result :: "env \<Rightarrow> u64 \<Rightarrow> db \<Rightarrow> (go_error + bool) \<Rightarrow> db \<Rightarrow> bool" where
  "claim_result e eid d r d' \<longleftrightarrow>
     untouched d d' \<and> r \<noteq> Inr True \<and>
       (r = Inr False \<longrightarrow> dedupe_known consumerName (collate e) eid d) \<or>
     claimed e eid d d' \<and> r \<noteq> Inr False"

lemma consumerName_fits [simp]: "\<not> too_long 64 consumerName"
  by (rule not_too_long) (simp add: consumerName_def)

lemma lb_isDup_iff [simp]: "lb_isDup er \<longleftrightarrow> er = MySQLError mysql_dup_entry"
  by (cases er) (auto simp: lb_isDup_def)

lemma abortable_claim: "abortable Inl d (\<lambda>r c. claim_result e eid d r (cdb c))"
  by (auto simp: abortable_def claim_result_def)

lemma claim_event_cases:
  assumes q: "quiet e" and run: "claim_event e eid d = (r, d')"
  shows "claim_result e eid d r d'"
proof -
  let ?Q = "\<lambda>r c. claim_result e eid d r (cdb c)"
  have dup: "wp (check_as Inl (Commit e) (\<lambda>_. ret (Inr False))) ?Q (at d id n)"
    if "dedupe_known consumerName (collate e) eid d" for n
    by (rule vc_commit [OF q abortable_claim]) (use that in \<open>simp_all add: claim_result_def\<close>)
  have new: "wp (check_as Inl (Commit e) (\<lambda>_. ret (Inr True))) ?Q (at d W n)"
    if "claimed e eid d (W d)" for W n
    by (rule vc_commit [OF q abortable_claim]) (use that in \<open>simp_all add: claim_result_def\<close>)
  show ?thesis
    apply (rule in_tx_wp [OF run [unfolded claim_event_def dedupe_tx_def] _ _ q,
          where P = "claim_result e eid d"])
     apply (simp add: claim_result_def)
    apply (rule vc_on_exec [OF q])
      apply (simp add: claim_result_def)
     apply (auto simp: sql_spec dup)[1]
    apply (rule new)
    apply (simp add: sql_spec claimed_def, blast)
    done
qed

interpretation leaderboard_claims: deduplicating claim_event claimed "dedupe_known consumerName"
proof unfold_locales
  fix e eid d r d' assume "quiet e" "claim_event e eid d = (r, d')"
  then have "claim_result e eid d r d'" by (rule claim_event_cases)
  then show "untouched d d' \<or> claimed e eid d d'" by (auto simp: claim_result_def)
qed (auto simp: claimed_def dedupe_known_def dedupe_row_def untouched_iff)

lemma claim_event_runs:
  assumes c: "calm e"
  shows "claim_event e eid d =
     (if dedupe_known consumerName (collate e) eid d then (Inr False, d)
      else (Inr True, consumer_dedupe_update (\<lambda>rs. rs @ [dedupe_row consumerName eid (now e 1)]) d))"
  by (auto simp: claim_event_def dedupe_tx_def run_in_tx [OF c] run_exec [OF c] check_as_def
      run_commit [OF c] InsertConsumerDedupe_def dedupe_known_def dedupe_row_def ret_def)

text \<open>The same event delivered again and again, each time with its own faults.\<close>

primrec deliveries ::
  "(env \<times> (nat \<Rightarrow> reply)) list \<Rightarrow> u64 \<Rightarrow> LiveGiftAcceptedV1 \<Rightarrow> db \<times> redis \<Rightarrow> db \<times> redis" where
  "deliveries [] eid evt st = st"
| "deliveries (x # xs) eid evt st =
     deliveries xs eid evt (snd (ApplyAcceptedGift (fst x) (snd x) eid evt st))"

definition scored :: "(nat \<Rightarrow> reply) \<Rightarrow> LiveGiftAcceptedV1 \<Rightarrow> redis \<Rightarrow> redis" where
  "scored rp evt s = fst (snd (apply_scores rp evt (s, 0)))"

lemma ApplyAcceptedGift_cases:
  assumes "quiet e" and "ApplyAcceptedGift e rp eid evt (d, s) = (r, d', s')"
  shows "untouched d d' \<and> s' = s \<and> (r = Inr () \<longrightarrow> dedupe_known consumerName (collate e) eid d) \<or>
         claimed e eid d d' \<and> (s' = s \<and> r \<noteq> Inr () \<or> s' = scored rp evt s)"
proof (cases "claim_event e eid d")
  case (Pair x d1)
  note cases = claim_event_cases [OF assms(1) Pair]
  show ?thesis
  proof (cases x)
    case (Inl er)
    with Pair cases assms(2) show ?thesis
      by (auto simp: ApplyAcceptedGift_def claim_result_def)
  next
    case (Inr new)
    with Pair cases assms(2) show ?thesis
      by (cases new) (auto simp: ApplyAcceptedGift_def claim_result_def scored_def split: prod.splits)
  qed
qed

lemma deliveries_known:
  assumes "\<forall>x \<in> set xs. quiet (fst x) \<and> collate (fst x) = coll"
    and "dedupe_known consumerName coll eid (fst st)"
  shows "untouched (fst st) (fst (deliveries xs eid evt st)) \<and> snd (deliveries xs eid evt st) = snd st"
  using assms
proof (induction xs arbitrary: st)
  case (Cons x xs)
  obtain r d' s' where run: "ApplyAcceptedGift (fst x) (snd x) eid evt (fst st, snd st) = (r, d', s')"
    by (metis prod.collapse)
  have x: "quiet (fst x)" "collate (fst x) = coll" using Cons.prems(1) by simp_all
  from ApplyAcceptedGift_cases [OF x(1) run] have u: "untouched (fst st) d'" "s' = snd st"
    using Cons.prems(2) x(2) by (auto simp: claimed_def)
  then have "dedupe_known consumerName coll eid d'"
    using leaderboard_claims.known_untouched Cons.prems(2) by simp
  with Cons.IH [of "(d', s')"] Cons.prems(1) u run untouched_trans show ?case by auto
qed simp

lemma deliveries_at_most_once:
  assumes "\<forall>x \<in> set xs. quiet (fst x) \<and> collate (fst x) = coll"
  shows "snd (deliveries xs eid evt (d, s)) = s \<or>
         (\<exists>x \<in> set xs. snd (deliveries xs eid evt (d, s)) = scored (snd x) evt s)"
  using assms
proof (induction xs arbitrary: d)
  case (Cons x xs)
  obtain r d' s' where run: "ApplyAcceptedGift (fst x) (snd x) eid evt (d, s) = (r, d', s')"
    by (metis prod.collapse)
  have x: "quiet (fst x)" "collate (fst x) = coll" using Cons.prems by simp_all
  from ApplyAcceptedGift_cases [OF x(1) run] show ?case
  proof (elim disjE conjE)
    assume "s' = s" with Cons.IH [of d'] Cons.prems run show ?case by auto
  next
    assume "claimed (fst x) eid d d'" and s': "s' = scored (snd x) evt s"
    then have "dedupe_known consumerName coll eid d'"
      using leaderboard_claims.effect_known x(2) by metis
    with deliveries_known [of xs coll eid "(d', s')"] Cons.prems s' run show ?case by auto
  next
    assume "s' = s" with Cons.IH [of d'] Cons.prems run show ?case by auto
  qed
qed simp

text \<open>
  The record of the event comes first: when Redis then refuses the first command, the event
  counts as applied although nothing was added.
\<close>

lemma update_lost:
  assumes c: "calm e" and new: "\<not> dedupe_known consumerName (collate e) eid d" and rp: "rp 0 = Failed 0 er"
  shows "\<exists>d'. ApplyAcceptedGift e rp eid evt (d, s) = (Inl er, d', s) \<and>
    dedupe_known consumerName (collate e) eid d'"
proof -
  have "apply_scores rp evt (s, 0) = (Inl er, s, 1)"
    by (simp add: apply_scores_def redis_then_def redis_call_def rp)
  then show ?thesis
    using new by (simp add: ApplyAcceptedGift_def claim_event_runs [OF c] dedupe_known_def dedupe_row_def)
qed

end
