(* ===== verification/Relay.thy ===== *)
theory Relay
  imports Settlement
begin

text \<open>
  The outbox relay (\<open>internal/outbox/relay.go\<close>): one run publishes a batch of unpublished
  rows, oldest first, and marks them published in the transaction that read them. The
  broker is not part of the repository: what it does with a message is a parameter
  (\<open>send\<close>), and the messages it has taken are a log. Nothing is assumed of it: it may refuse
  a message, or take it and report an error.
\<close>

section \<open>Decimal numbers, by hand\<close>

text \<open>
  \<open>formatUint\<close> fills a buffer of twenty bytes from the right. An index below zero would
  panic: \<open>None\<close>.
\<close>

function format_loop :: "u64 \<Rightarrow> nat \<Rightarrow> string \<Rightarrow> (nat \<times> string) option" where
  "format_loop v i buf =
     (if v = 0 then Some (i, buf)
      else if i = 0 then None
      else format_loop (v div 10) (i - 1) (buf[i - 1 := char_of (48 + unat (v mod 10))]))"
  by auto
termination
proof (relation "measure (\<lambda>(v, i, buf). unat v)", simp, clarsimp)
  fix v :: u64 assume "v \<noteq> 0"
  then have "0 < unat v" by (simp add: unat_gt_0)
  then show "unat (v div 10) < unat v" by (simp add: unat_div)
qed

declare format_loop.simps [simp del]

definition formatUint :: "u64 \<Rightarrow> string option" where
  "formatUint v =
     (if v = 0 then Some ''0''
      else map_option (\<lambda>(i, buf). drop i buf) (format_loop v 20 (replicate 20 (CHR 0x00))))"

lemma digit_char: "n < 10 \<Longrightarrow> char_of (48 + n) = digit n"
  by (drule digit_cases) (auto simp: digit_def char_of_def bit_Suc_0_iff)

lemma dec_step: "10 \<le> n \<Longrightarrow> dec n = dec (n div 10) @ [digit (n mod 10)]"
  by (subst dec.simps) simp

text \<open>The loop writes the digits of \<open>v\<close> in front of what is already there.\<close>

lemma format_loop_dec:
  assumes "v \<noteq> 0" and "length (dec (unat v)) \<le> i" and "i \<le> length buf"
  shows "\<exists>buf'. format_loop v i buf = Some (i - length (dec (unat v)), buf') \<and>
           drop (i - length (dec (unat v))) buf' = dec (unat v) @ drop i buf"
  using assms
proof (induction v i buf rule: format_loop.induct)
  case (1 v i buf)
  let ?c = "char_of (48 + unat (v mod 10)) :: char"
  let ?n = "unat v"
  have i: "0 < i" using "1.prems"(2) by (cases "dec ?n") auto
  have c: "?c = digit (?n mod 10)" by (simp add: unat_mod digit_char)
  have divn: "unat (v div 10) = ?n div 10" by (simp add: unat_div)
  have put: "drop (i - 1) (buf[i - 1 := ?c]) = ?c # drop i buf"
    using i "1.prems"(3) by (simp add: Cons_nth_drop_Suc [symmetric] drop_update_cancel)
  have unf: "format_loop v i buf = format_loop (v div 10) (i - 1) (buf[i - 1 := ?c])"
    using "1.prems"(1) i by (subst format_loop.simps) simp
  show ?case
  proof (cases "?n < 10")
    case True
    then have "v div 10 = 0" by (simp add: word_unat_eq_iff divn)
    moreover have "dec ?n = [?c]" using True by (subst dec.simps) (simp add: c)
    ultimately show ?thesis using put by (simp add: unf format_loop.simps [of 0])
  next
    case False
    then have nz: "v div 10 \<noteq> 0" by (simp add: word_unat_eq_iff divn)
    have d: "dec ?n = dec (?n div 10) @ [?c]" using False by (simp add: dec_step c)
    have "\<exists>buf'. format_loop (v div 10) (i - 1) (buf[i - 1 := ?c]) =
          Some (i - 1 - length (dec (?n div 10)), buf') \<and>
        drop (i - 1 - length (dec (?n div 10))) buf' = dec (?n div 10) @ drop (i - 1) (buf[i - 1 := ?c])"
      using "1.IH" [OF "1.prems"(1) _ nz] i "1.prems"(2,3) d by (simp add: divn)
    then show ?thesis using put by (auto simp: unf d)
  qed
qed

lemma formatUint_eq: "formatUint v = Some (FormatUint v)"
proof (cases "v = 0")
  case True
  then show ?thesis by (simp add: formatUint_def FormatUint_def dec.simps [of 0] digit_def)
next
  case False
  have "length (dec (unat v)) \<le> 20" using length_FormatUint [of v] by (simp add: FormatUint_def)
  with format_loop_dec [OF False, of 20 "replicate 20 (CHR 0x00)"] False show ?thesis
    by (auto simp: formatUint_def FormatUint_def)
qed

section \<open>The relay\<close>

record row =
  rw_EventID :: u64
  rw_Topic :: string
  rw_EventKey :: string
  rw_Payload :: string

text \<open>The fields of \<open>sarama.ProducerMessage\<close> that the relay sets.\<close>

record message =
  mg_Topic :: string
  mg_Key :: string
  mg_Value :: string
  mg_Headers :: "(string \<times> string) list"

datatype delivery = Delivered | Undelivered go_error | Unconfirmed go_error

text \<open>
  What the relay depends on besides the database: the answer of \<open>SendMessage\<close> to the i-th
  message of a run, and the rows that \<open>SKIP LOCKED\<close> passes over because another transaction
  holds them.
\<close>

record broker =
  send :: "nat \<Rightarrow> message \<Rightarrow> delivery"
  locked :: "u64 \<Rightarrow> bool"

definition New_batch :: "int \<Rightarrow> int" where
  "New_batch batchSize = (if batchSize \<le> 0 then 100 else batchSize)"

text \<open>
  \<open>ORDER BY created_at ASC LIMIT ? FOR UPDATE SKIP LOCKED\<close>; rows of the same time come in the
  order of the primary key, which the index over \<open>(published_at, created_at)\<close> ends with.
\<close>

definition pending :: "broker \<Rightarrow> db \<Rightarrow> OutboxEvent list" where
  "pending b d = sort_key oe_CreatedAt
     (filter (\<lambda>x. oe_PublishedAt x = None \<and> \<not> locked b (oe_EventID x)) (outbox_events d))"

definition scan_row :: "env \<Rightarrow> OutboxEvent \<Rightarrow> row" where
  "scan_row e x =
     \<lparr>rw_EventID = oe_EventID x, rw_Topic = oe_Topic x, rw_EventKey = oe_EventKey x,
      rw_Payload = cast_char e (oe_PayloadJson x)\<rparr>"

definition SelectBatch :: "env \<Rightarrow> broker \<Rightarrow> int \<Rightarrow> micros \<Rightarrow> row list sql" where
  "SelectBatch e b n t d = (Inr (map (scan_row e) (take (nat n) (pending b d))), id)"

definition mark :: "u64 \<Rightarrow> micros \<Rightarrow> OutboxEvent list \<Rightarrow> OutboxEvent list" where
  "mark eid t = map (\<lambda>x. if oe_EventID x = eid then x\<lparr>oe_PublishedAt := Some t\<rparr> else x)"

definition MarkPublished :: "micros \<Rightarrow> u64 \<Rightarrow> micros \<Rightarrow> unit sql" where
  "MarkPublished published eid t d = (Inr (), outbox_events_update (mark eid published))"

definition row_message :: "row \<Rightarrow> string \<Rightarrow> message" where
  "row_message x header =
     \<lparr>mg_Topic = rw_Topic x, mg_Key = rw_EventKey x, mg_Value = rw_Payload x,
      mg_Headers = [(''event_id'', header)]\<rparr>"

text \<open>The loop over the batch, with the log of the broker, and the commit after it.\<close>

primrec publish_loop ::
  "env \<Rightarrow> broker \<Rightarrow> micros \<Rightarrow> row list \<Rightarrow> nat \<Rightarrow> message list \<Rightarrow> ((go_error + unit) \<times> message list) prog" where
  "publish_loop e b t [] i log =
     check_as (\<lambda>er. (Inl er, log)) (Commit e) (\<lambda>_. ret (Inr (), log))"
| "publish_loop e b t (x # xs) i log =
     (case formatUint (rw_EventID x) of
       None \<Rightarrow> ret (Inl (ErrorsNew ''panic: index out of range''), log)
     | Some header \<Rightarrow>
         (let msg = row_message x header in
          case send b i msg of
            Undelivered er \<Rightarrow> ret (Inl er, log)
          | Unconfirmed er \<Rightarrow> ret (Inl er, log @ [msg])
          | Delivered \<Rightarrow>
              check_as (\<lambda>er. (Inl er, log @ [msg])) (exec e (MarkPublished t (rw_EventID x)))
                (\<lambda>_. publish_loop e b t xs (Suc i) (log @ [msg]))))"

definition relay_tx ::
  "env \<Rightarrow> broker \<Rightarrow> int \<Rightarrow> message list \<Rightarrow> ((go_error + int) \<times> message list) prog" where
  "relay_tx e b batch log =
     check_as (\<lambda>er. (Inl er, log)) (exec e (SelectBatch e b batch)) (\<lambda>rows.
     if rows = [] then
       check_as (\<lambda>er. (Inl er, log)) (Commit e) (\<lambda>_. ret (Inr 0, log))
     else (\<lambda>c.
       (case publish_loop e b (now e (calls c)) rows 0 log c of
         ((Inl er, log'), c') \<Rightarrow> ((Inl er, log'), c')
       | ((Inr _, log'), c') \<Rightarrow> ((Inr (int (length rows)), log'), c'))))"

definition RunOnce ::
  "env \<Rightarrow> broker \<Rightarrow> int \<Rightarrow> db \<times> message list \<Rightarrow> (go_error + int) \<times> db \<times> message list" where
  "RunOnce e b batch s =
     (case in_tx e (relay_tx e b batch (snd s)) (\<lambda>er. (Inl er, snd s)) (fst s) of
       ((r, log), d) \<Rightarrow> (r, d, log))"

section \<open>What a run does\<close>

definition event_message :: "env \<Rightarrow> OutboxEvent \<Rightarrow> message" where
  "event_message e x = row_message (scan_row e x) (FormatUint (oe_EventID x))"

primrec mark_all :: "micros \<Rightarrow> u64 list \<Rightarrow> OutboxEvent list \<Rightarrow> OutboxEvent list" where
  "mark_all t [] os = os"
| "mark_all t (eid # eids) os = mark_all t eids (mark eid t os)"

lemma mark_all_eq:
  "mark_all t eids os =
     map (\<lambda>x. if oe_EventID x \<in> set eids then x\<lparr>oe_PublishedAt := Some t\<rparr> else x) os"
proof (induction eids arbitrary: os)
  case (Cons eid eids)
  show ?case by (auto simp: Cons.IH mark_def)
qed simp

definition published_batch :: "broker \<Rightarrow> int \<Rightarrow> db \<Rightarrow> OutboxEvent list" where
  "published_batch b n d = take (nat n) (pending b d)"

definition marked :: "micros \<Rightarrow> OutboxEvent list \<Rightarrow> db \<Rightarrow> db" where
  "marked t xs d = outbox_events_update (mark_all t (map oe_EventID xs)) d"

text \<open>
  Some prefix of the batch reached the broker; the rows are marked only when all of it did,
  and then all of them.
\<close>

definition relay_result ::
  "env \<Rightarrow> broker \<Rightarrow> int \<Rightarrow> db \<Rightarrow> message list \<Rightarrow> (go_error + int) \<Rightarrow> db \<Rightarrow> message list \<Rightarrow> bool" where
  "relay_result e b n d log r d' log' \<longleftrightarrow>
     (let xs = published_batch b n d in
      (\<exists>k. log' = log @ map (event_message e) (take k xs)) \<and> untouched d d' \<and> (\<exists>er. r = Inl er) \<or>
      log' = log @ map (event_message e) xs \<and> (\<exists>t. d' = marked t xs d) \<and>
        (r = Inr (int (length xs)) \<or> (\<exists>er. r = Inl er)))"

lemma mark_all_append: "mark_all t (eids @ [eid]) os = mark eid t (mark_all t eids os)"
  by (induction eids arbitrary: os) simp_all

lemma mark_all_Nil [simp]: "mark_all t [] = id"
  by (rule ext) simp

lemma outbox_update_id [simp]: "outbox_events_update id = id"
  by (rule ext) simp

lemma relay_statements [sql_spec]:
  "SelectBatch e b n t d = (Inr rows, w) \<longleftrightarrow> rows = map (scan_row e) (published_batch b n d) \<and> w = id"
  "MarkPublished p eid t d = (Inr x, w) \<longleftrightarrow> w = outbox_events_update (mark eid p)"
  by (auto simp: SelectBatch_def MarkPublished_def published_batch_def)

lemma mark_step:
  "outbox_events_update (mark (rw_EventID (scan_row e y)) t) \<circ>
     outbox_events_update (mark_all t (map oe_EventID past)) =
     outbox_events_update (mark_all t (map oe_EventID (past @ [y])))"
  by (rule ext) (simp add: mark_all_append scan_row_def comp_def)

lemma scanned_message:
  "row_message (scan_row e y) (FormatUint (rw_EventID (scan_row e y))) = event_message e y"
  by (simp add: event_message_def scan_row_def)

lemma publish_loop_wp:
  assumes q: "quiet e"
    and fail: "\<And>k er D. untouched d D \<Longrightarrow> P (Inl er) (log @ map (event_message e) (take k xs)) D"
    and fin: "\<And>r. r = Inr () \<or> (\<exists>er. r = Inl er) \<Longrightarrow> P r (log @ map (event_message e) xs) (marked t xs d)"
  shows "xs = past @ ys \<Longrightarrow>
    wp (publish_loop e b t (map (scan_row e) ys) i (log @ map (event_message e) past))
      (\<lambda>(r, l) c. P r l (cdb c))
      (at d (outbox_events_update (mark_all t (map oe_EventID past))) n)"
proof (induction ys arbitrary: past i n)
  case Nil
  have "abortable (\<lambda>er. (Inl er, log @ map (event_message e) xs)) d (\<lambda>(r, l) c. P r l (cdb c))"
    using fail [where k = "length xs"] by (simp add: abortable_def)
  with Nil fin show ?case
    by (simp, intro vc_commit [OF q]) (auto simp: marked_def)
next
  case (Cons y ys)
  let ?m = "event_message e y"
  have sent: "log @ map (event_message e) (past @ [y]) = (log @ map (event_message e) past) @ [?m]" by simp
  have fail0: "P (Inl er) (log @ map (event_message e) past) D" if "untouched d D" for er D
    using fail [OF that, of er "length past"] Cons.prems by simp
  have fail1: "P (Inl er) (log @ map (event_message e) past @ [?m]) D" if "untouched d D" for er D
    using fail [OF that, of er "Suc (length past)"] Cons.prems by simp
  have ab: "abortable (\<lambda>er. (Inl er, log @ map (event_message e) past @ [?m])) d (\<lambda>(r, l) c. P r l (cdb c))"
    using fail1 by (simp add: abortable_def)
  have next_wp: "wp (publish_loop e b t (map (scan_row e) ys) (Suc i) (log @ map (event_message e) past @ [?m]))
      (\<lambda>(r, l) c. P r l (cdb c))
      (at d (outbox_events_update (mark (rw_EventID (scan_row e y)) t) \<circ>
             outbox_events_update (mark_all t (map oe_EventID past))) (Suc n))"
    unfolding mark_step using Cons.IH [of "past @ [y]" "Suc i" "Suc n"] Cons.prems by simp
  show ?case
    by (auto simp: formatUint_eq scanned_message Let_def fail0 fail1 split: delivery.splits
        intro!: vc_exec [OF q ab] next_wp simp: sql_spec)
qed

lemma RunOnce_cases:
  assumes q: "quiet e" and run: "RunOnce e b batch (d, log) = (r, d', log')"
  shows "relay_result e b batch d log r d' log'"
proof -
  let ?P = "\<lambda>(r, l) D. relay_result e b batch d log r D l"
  let ?xs = "published_batch b batch d"
  have ab: "abortable (\<lambda>er. (Inl er, log)) d (\<lambda>rl c. ?P rl (cdb c))"
    unfolding abortable_def relay_result_def Let_def
    by (auto intro!: exI [of _ 0])
  have loop: "wp (\<lambda>c. case publish_loop e b (now e (calls c)) (map (scan_row e) ?xs) 0 log c of
        ((Inl er, l), c') \<Rightarrow> ((Inl er, l), c')
      | ((Inr _, l), c') \<Rightarrow> ((Inr (int (length (map (scan_row e) ?xs))), l), c'))
      (\<lambda>rl c. ?P rl (cdb c)) (at d id n)" for n
  proof -
    let ?R = "\<lambda>r l D. relay_result e b batch d log
        (case r of Inl er \<Rightarrow> Inl er | Inr _ \<Rightarrow> Inr (int (length ?xs))) D l"
    have A: "?R (Inl er) (log @ map (event_message e) (take k ?xs)) D" if "untouched d D" for k er D
      using that by (auto simp: relay_result_def Let_def)
    have B: "?R r (log @ map (event_message e) ?xs) (marked (now e n) ?xs d)" for r
      by (auto simp: relay_result_def Let_def split: sum.splits)
    have "wp (publish_loop e b (now e n) (map (scan_row e) ?xs) 0 log)
        (\<lambda>(r, l) c'. ?R r l (cdb c')) (at d id n)"
      using publish_loop_wp [where P = ?R and past = "[]" and xs = ?xs and ys = ?xs, OF q A B] by simp
    then show ?thesis
      by (auto simp: wp_def split: prod.splits sum.splits)
  qed
  have body: "wp (relay_tx e b batch log) (\<lambda>rl c. ?P rl (cdb c)) (at d id 1)"
    unfolding relay_tx_def
    apply (rule vc_exec [OF q ab], simp)
    apply (split if_split, intro conjI impI)
     apply (rule vc_commit [OF q ab], simp)
      apply (fastforce simp: sql_spec relay_result_def marked_def Let_def)
     apply (fastforce simp: sql_spec relay_result_def marked_def Let_def)
    apply (use loop in \<open>simp add: sql_spec\<close>)
    done
  obtain rl where run': "in_tx e (relay_tx e b batch log) (\<lambda>er. (Inl er, log)) d = (rl, d')"
    and rl: "rl = (r, log')"
    using run by (auto simp: RunOnce_def split: prod.splits)
  have "?P rl d'"
    by (rule in_tx_wp [OF run' _ body q]) (use ab in \<open>auto simp: abortable_def relay_result_def Let_def intro: exI [of _ 0]\<close>)
  then show ?thesis by (simp add: rl)
qed

section \<open>At least once\<close>

text \<open>
  A row is marked published only after the broker took its message: an invariant of the relay
  under every pattern of faults, on any table whose primary key is one.
\<close>

definition sent :: "(json \<Rightarrow> string) \<Rightarrow> OutboxEvent \<Rightarrow> message" where
  "sent cast x =
     \<lparr>mg_Topic = oe_Topic x, mg_Key = oe_EventKey x, mg_Value = cast (oe_PayloadJson x),
      mg_Headers = [(''event_id'', FormatUint (oe_EventID x))]\<rparr>"

lemma event_message_sent: "event_message e x = sent (cast_char e) x"
  by (simp add: event_message_def row_message_def scan_row_def sent_def)

definition event_ids :: "db \<Rightarrow> u64 list" where
  "event_ids d = map oe_EventID (outbox_events d)"

definition relay_inv :: "(json \<Rightarrow> string) \<Rightarrow> db \<times> message list \<Rightarrow> bool" where
  "relay_inv cast s \<longleftrightarrow>
     distinct (event_ids (fst s)) \<and>
     (\<forall>x \<in> set (outbox_events (fst s)). oe_PublishedAt x \<noteq> None \<longrightarrow> sent cast x \<in> set (snd s))"

lemma event_ids_marked [simp]: "event_ids (marked t xs d) = event_ids d"
  by (auto simp: event_ids_def marked_def mark_all_eq)

lemma sent_published [simp]: "sent cast (x\<lparr>oe_PublishedAt := p\<rparr>) = sent cast x"
  by (simp add: sent_def)

lemma published_batch_subset: "set (published_batch b n d) \<subseteq> set (outbox_events d)"
  by (auto simp: published_batch_def pending_def dest: in_set_takeD)

lemma same_event:
  assumes "distinct (event_ids d)" and "x \<in> set (outbox_events d)" and "y \<in> set (outbox_events d)"
    and "oe_EventID x = oe_EventID y"
  shows "x = y"
  using assms by (auto simp: event_ids_def distinct_map inj_on_def)

lemma relay_inv_marked:
  assumes inv: "relay_inv cast (d, log)"
  shows "relay_inv cast (marked t (published_batch b n d) d, log @ map (sent cast) (published_batch b n d))"
proof -
  let ?xs = "published_batch b n d"
  have dist: "distinct (event_ids d)" using inv by (simp add: relay_inv_def)
  have "sent cast x \<in> sent cast ` set ?xs"
    if x: "x \<in> set (outbox_events d)" "oe_EventID x \<in> oe_EventID ` set ?xs" for x
  proof -
    obtain y where y: "y \<in> set ?xs" "oe_EventID x = oe_EventID y" using x(2) by auto
    with same_event [OF dist x(1)] published_batch_subset have "x = y" by blast
    with y show ?thesis by simp
  qed
  with inv show ?thesis
    by (simp add: relay_inv_def) (auto simp: marked_def mark_all_eq split: if_splits)
qed

lemma RunOnce_inv:
  assumes q: "quiet e" and cast: "cast_char e = cast" and inv: "relay_inv cast (d, log)"
    and run: "RunOnce e b batch (d, log) = (r, s')"
  shows "relay_inv cast s'"
proof -
  obtain d' log' where s': "s' = (d', log')" by force
  let ?xs = "published_batch b batch d"
  consider (part) k where "log' = log @ map (event_message e) (take k ?xs)" "untouched d d'"
    | (all) t where "log' = log @ map (event_message e) ?xs" "d' = marked t ?xs d"
    using RunOnce_cases [OF q run [unfolded s']] by (auto simp: relay_result_def Let_def)
  then show ?thesis
  proof cases
    case part
    with inv show ?thesis by (auto simp: relay_inv_def untouched_iff event_ids_def s')
  next
    case all
    then show ?thesis
      using relay_inv_marked [OF inv, of t b batch] by (simp add: event_message_sent [abs_def] cast s')
  qed
qed

section \<open>Draining the outbox\<close>

text \<open>A broker that takes every message, and nobody else holding rows.\<close>

definition reliable :: "broker \<Rightarrow> bool" where
  "reliable b \<longleftrightarrow> (\<forall>i m. send b i m = Delivered) \<and> (\<forall>eid. \<not> locked b eid)"

lemma run_publish_loop:
  assumes c: "calm e" and r: "reliable b"
  shows "publish_loop e b t (map (scan_row e) ys) i l
      (at d (outbox_events_update (mark_all t (map oe_EventID past))) n) =
    ((Inr (), l @ map (event_message e) ys),
     at (marked t (past @ ys) d) id (Suc (n + length ys)))"
proof (induction ys arbitrary: past i n l)
  case Nil
  show ?case by (simp add: check_as_def run_commit [OF c] ret_def marked_def id_def)
next
  case (Cons y ys)
  show ?case
    using r Cons.IH [of "Suc i" "l @ [event_message e y]" "past @ [y]" "Suc n"]
    by (simp add: reliable_def formatUint_eq scanned_message check_as_def run_exec [OF c] MarkPublished_def
        mark_step Let_def del: comp_apply map_append)
qed

lemma RunOnce_runs:
  assumes c: "calm e" and r: "reliable b"
  shows "\<exists>t. RunOnce e b batch (d, log) =
    (Inr (int (length (published_batch b batch d))), marked t (published_batch b batch d) d,
     log @ map (event_message e) (published_batch b batch d))"
proof (cases "published_batch b batch d = []")
  case True
  then show ?thesis
    by (simp add: RunOnce_def run_in_tx [OF c] relay_tx_def SelectBatch_def
        published_batch_def [symmetric] ret_def marked_def check_as_def run_exec [OF c] run_commit [OF c])
next
  case False
  then show ?thesis
    using run_publish_loop [OF c r, of "now e 2" "published_batch b batch d" 0 log d "[]" 2]
    by (simp add: RunOnce_def run_in_tx [OF c] relay_tx_def check_as_def run_exec [OF c] SelectBatch_def
        published_batch_def [symmetric] numeral_2_eq_2) blast
qed

text \<open>Marking the batch removes it from the front of the pending rows.\<close>

lemma pending_marked:
  assumes dist: "distinct (event_ids d)"
  shows "pending b (marked t (published_batch b n d) d) = drop (nat n) (pending b d)"
proof -
  let ?xs = "published_batch b n d"
  let ?ids = "oe_EventID ` set ?xs"
  have "filter (\<lambda>x. oe_PublishedAt x = None \<and> \<not> locked b (oe_EventID x))
      (map (\<lambda>x. if oe_EventID x \<in> ?ids then x\<lparr>oe_PublishedAt := Some t\<rparr> else x) os) =
      filter (\<lambda>x. oe_EventID x \<notin> ?ids) (filter (\<lambda>x. oe_PublishedAt x = None \<and> \<not> locked b (oe_EventID x)) os)"
    for os :: "OutboxEvent list" by (induction os) auto
  then have "pending b (marked t ?xs d) = filter (\<lambda>x. oe_EventID x \<notin> ?ids) (pending b d)"
    by (simp add: pending_def marked_def mark_all_eq filter_sort)
  also have "\<dots> = drop (nat n) (pending b d)"
  proof -
    have "distinct (map oe_EventID (pending b d))"
      using dist by (simp add: pending_def event_ids_def distinct_map inj_on_def)
    then have "distinct (map oe_EventID (?xs @ drop (nat n) (pending b d)))"
      by (simp only: published_batch_def append_take_drop_id)
    then have "\<forall>x \<in> set (drop (nat n) (pending b d)). oe_EventID x \<notin> ?ids" by auto
    moreover have "filter (\<lambda>x. oe_EventID x \<notin> ?ids) ?xs = []" by (simp add: filter_empty_conv)
    ultimately have "filter (\<lambda>x. oe_EventID x \<notin> ?ids) (?xs @ drop (nat n) (pending b d)) =
        drop (nat n) (pending b d)"
      by (simp only: filter_append) (simp add: filter_id_conv)
    then show ?thesis by (simp add: published_batch_def)
  qed
  finally show ?thesis .
qed

text \<open>The polling loop of the relay binary: one run per tick.\<close>

primrec ticks :: "env list \<Rightarrow> broker \<Rightarrow> int \<Rightarrow> db \<times> message list \<Rightarrow> db \<times> message list" where
  "ticks [] b batch s = s"
| "ticks (e # es) b batch s = ticks es b batch (snd (RunOnce e b batch s))"

lemma ticks_drain:
  assumes r: "reliable b"
  shows "\<forall>e \<in> set es. calm e \<and> cast_char e = cast \<Longrightarrow> distinct (event_ids d) \<Longrightarrow>
    \<exists>d'. ticks es b batch (d, log) =
        (d', log @ map (sent cast) (take (length es * nat batch) (pending b d))) \<and>
      pending b d' = drop (length es * nat batch) (pending b d) \<and> distinct (event_ids d')"
proof (induction es arbitrary: d log)
  case (Cons e es)
  let ?xs = "published_batch b batch d"
  obtain t where run: "RunOnce e b batch (d, log) =
      (Inr (int (length ?xs)), marked t ?xs d, log @ map (event_message e) ?xs)"
    using RunOnce_runs [OF _ r] Cons.prems(1) by fastforce
  have p: "pending b (marked t ?xs d) = drop (nat batch) (pending b d)"
    by (rule pending_marked [OF Cons.prems(2)])
  have m: "map (event_message e) ?xs = map (sent cast) (take (nat batch) (pending b d))"
    using Cons.prems(1) by (simp add: published_batch_def event_message_sent)
  have "take (nat batch + length es * nat batch) (pending b d) =
      take (nat batch) (pending b d) @ take (length es * nat batch) (drop (nat batch) (pending b d))"
    by (simp add: take_add)
  with Cons.IH [of "marked t ?xs d" "log @ map (event_message e) ?xs"] Cons.prems show ?case
    by (auto simp: run p m add.commute)
qed simp

end
