(* ===== verification/Seed.thy ===== *)
theory Seed
  imports Gift
begin

text \<open>
  The demo data of \<open>migrations/00002\<close>, as the state a fresh installation starts from, and
  environments to run requests in: one without faults, and one that loses the reply of a given
  call. The collation is byte equality and the case folding that of the ASCII letters.
\<close>

definition seed_user :: "u64 \<Rightarrow> u8 \<Rightarrow> string \<Rightarrow> UsersAccountType \<Rightarrow> User" where
  "seed_user uid age region ty =
     \<lparr>us_UserID = uid, us_AgeYears = age, us_RegionCode = region, us_AccountStanding = GOOD,
      us_CanGoLive = True, us_LiveGiftsEnabled = True, us_AccountType = ty, us_CreatedAt = 0\<rparr>"

definition seed_account :: "u64 \<Rightarrow> i64 \<Rightarrow> WalletAccount" where
  "seed_account uid bal =
     \<lparr>wa_UserID = uid, wa_Currency = COIN, wa_AvailableBalance = bal, wa_UpdatedAt = 0\<rparr>"

definition seed_gift :: "string \<Rightarrow> string \<Rightarrow> u32 \<Rightarrow> GiftCatalog" where
  "seed_gift gid name price =
     \<lparr>gc_GiftID = gid, gc_DisplayName = name, gc_CoinPrice = price, gc_MatchPoints = price,
      gc_DiamondReward = price, gc_Enabled = True, gc_CreatedAt = 0\<rparr>"

definition seed_db :: db where
  "seed_db =
     \<lparr>users =
        [seed_user 1001 25 ''US'' NORMAL, seed_user 1002 27 ''US'' NORMAL,
         seed_user 2001 30 ''US'' NORMAL, seed_user 2002 28 ''US'' NORMAL,
         seed_user 3001 17 ''US'' NORMAL, seed_user 3002 20 ''KR'' NORMAL,
         seed_user 3003 19 ''KR'' NORMAL, seed_user 4001 42 ''US'' GOVERNMENT],
      live_sessions =
        [\<lparr>ls_LiveSessionID = 9001, ls_CreatorID = 1001, ls_CampaignID = Some 7001,
          ls_Status = SESSION_OPEN, ls_StartedAt = 0, ls_ClosedAt = None\<rparr>,
         \<lparr>ls_LiveSessionID = 9002, ls_CreatorID = 1002, ls_CampaignID = None,
          ls_Status = SESSION_OPEN, ls_StartedAt = 0, ls_ClosedAt = None\<rparr>],
      live_matches =
        [\<lparr>lm_MatchID = 8001, lm_LiveSessionID = 9001, lm_Mode = ALL_GIFTS,
          lm_SpecificGiftID = None, lm_Status = MATCH_OPEN\<rparr>,
         \<lparr>lm_MatchID = 8002, lm_LiveSessionID = 9002, lm_Mode = SPECIFIC_GIFT,
          lm_SpecificGiftID = Some ''ROSE'', lm_Status = MATCH_OPEN\<rparr>],
      gift_catalog =
        [seed_gift ''ROSE'' ''Rose'' 1, seed_gift ''HEART'' ''Heart'' 5,
         seed_gift ''GG'' ''GG'' 10, seed_gift ''DONUT'' ''Donut'' 30,
         seed_gift ''COFFEE'' ''Coffee'' 50, seed_gift ''CLOUD'' ''Cloud'' 99,
         seed_gift ''PERFUME'' ''Perfume'' 199, seed_gift ''RING'' ''Ring'' 299,
         seed_gift ''FIREWORK'' ''Firework'' 399, seed_gift ''DRUM'' ''Drum'' 499,
         seed_gift ''CASTLE'' ''Castle'' 999, seed_gift ''LION'' ''Lion'' 1999],
      wallet_accounts =
        [seed_account 1001 50000, seed_account 1002 50000, seed_account 2001 1000,
         seed_account 2002 1000],
      wallet_transactions = [], wallet_entries = [], recharge_requests = [], gift_orders = [],
      outbox_events = [], consumer_dedupe = [], fan_point_ledger = [],
      campaign_point_ledger = [], stream_settlements = [], reconciliation_results = [],
      next_tx_id = 1, next_gift_order_id = 1, next_event_id = 1\<rparr>"

definition demo_env :: env where
  "demo_env =
     \<lparr>fault_at = (\<lambda>_. None), others = (\<lambda>_ d. d), now = int, collate = (\<lambda>s. s),
      simple_fold = ascii_fold, error_text = (\<lambda>_. ''''), cast_char = json_text,
      column_time = (\<lambda>ns. Some ((ns + 500) div 1000)),
      enum_member = (\<lambda>names s. find (\<lambda>i. names ! i = s) [0..<length names])\<rparr>"

text \<open>The reply to the n-th call is lost, although the call took effect.\<close>

definition unacked_env :: "nat \<Rightarrow> env" where
  "unacked_env n =
     demo_env\<lparr>fault_at := (\<lambda>k. if k = n then Some (Unacked (Transport ''bad connection'')) else None)\<rparr>"

definition demo_recharge :: RechargeRequest where
  "demo_recharge =
     \<lparr>rq_RequestID = ''demo-recharge-1'', rq_ViewerID = 2001, rq_Coins = 500,
      rq_PaymentRef = ''pay-1''\<rparr>"

text \<open>The gift of \<open>docs/api-walkthrough.md\<close>.\<close>

definition demo_gift :: GiftRequest where
  "demo_gift =
     \<lparr>gq_RequestID = ''demo-gift-1'', gq_ViewerID = 2001, gq_CreatorID = 1001,
      gq_LiveSessionID = 9001, gq_MatchID = Some 8001, gq_GiftID = ''ROSE'', gq_Quantity = 1,
      gq_SentAtMS = 1735689600000\<rparr>"

lemmas seed_defs = seed_db_def seed_user_def seed_account_def seed_gift_def demo_env_def
  demo_recharge_def demo_gift_def

lemma demo_env_calm [simp]: "calm demo_env" "quiet demo_env" "quiet (unacked_env n)"
  by (simp_all add: calm_def quiet_def demo_env_def unacked_env_def)

lemma demo_env_collate [simp]:
  "collate demo_env = (\<lambda>s. s)" "collate (unacked_env n) = (\<lambda>s. s)" "cast_char demo_env = json_text"
  by (simp_all add: demo_env_def unacked_env_def)

lemma demo_recharge_ready:
  "recharge_valid demo_recharge" "recharge_enabled demo_env demo_recharge seed_db"
  "recharge_fits demo_env demo_recharge seed_db"
  by (simp_all add: seed_defs recharge_valid_def recharge_enabled_def recharge_fits_def
      recharge_known_def user_exists_def blank_def runes_def codes_def too_long_def
      unicode_space_def user_coins_def)

lemma demo_gift_ready:
  "gift_valid demo_gift" "gift_enabled demo_env demo_gift seed_db"
  "gift_fits demo_env demo_gift seed_db"
  by (simp_all add: seed_defs gift_valid_def gift_enabled_def gift_fits_def gift_known_def
      user_exists_def blank_def runes_def codes_def too_long_def unicode_space_def user_coins_def)

lemma demo_gift_charged: "gift_decision demo_env demo_gift seed_db = Charge (Some 7001) 1 1 1"
  by (simp add: gift_decision_def seed_defs eligible_def creator_policy_def open_match_def
      charge_verdict_def balance_of_def match_points_for_def fits_u32_def Let_def
      EqualFold_def runes_def codes_def ascii_fold_def)

lemma demo_gift_run:
  "SendGift demo_env demo_gift seed_db =
     (Ok (gift_created demo_gift 1 1 1 seed_db), snd (SendGift demo_env demo_gift seed_db))"
  using SendGift_decides [OF demo_env_calm(1) demo_gift_ready]
  by (simp add: demo_gift_charged verdict_answer_def prod_eq_iff)

text \<open>The same gift to a creator of seventeen.\<close>

definition underage_gift :: GiftRequest where
  "underage_gift = demo_gift\<lparr>gq_CreatorID := 3001\<rparr>"

lemma underage_gift_ready:
  "gift_valid underage_gift" "gift_enabled demo_env underage_gift seed_db"
  "gift_fits demo_env underage_gift seed_db"
  by (simp_all add: underage_gift_def seed_defs gift_valid_def gift_enabled_def gift_fits_def
      gift_known_def user_exists_def blank_def runes_def codes_def too_long_def unicode_space_def
      user_coins_def)

lemma underage_gift_rejected:
  "gift_decision demo_env underage_gift seed_db = Reject ''CREATOR_NOT_ELIGIBLE'' 403"
  by (simp add: underage_gift_def gift_decision_def seed_defs eligible_def creator_policy_def
      EqualFold_def runes_def codes_def ascii_fold_def)

lemma underage_gift_run:
  "SendGift demo_env underage_gift seed_db =
     (App (rejection ''CREATOR_NOT_ELIGIBLE'' 403), snd (SendGift demo_env underage_gift seed_db))"
  using SendGift_decides [OF demo_env_calm(1) underage_gift_ready]
  by (simp add: underage_gift_rejected verdict_answer_def prod_eq_iff)

end
