(* ===== verification/System.thy ===== *)
theory System
  imports Leaderboard Relay Seed
begin

text \<open>
  The service as a transition system: one step serves one request, under any faults, and the
  reachable states are those that any sequence of requests leads to. The invariants of the
  ledger and of the outbox hold in every reachable state.
\<close>

section \<open>Steps\<close>

text \<open>
  \<open>serve\<close> is one request or one event, handled by the service or by one of the
  projectors;  \<open>step\<close> is that or a run of the relay.
\<close>

inductive serve :: "(string \<Rightarrow> string) \<Rightarrow> db \<Rightarrow> db \<Rightarrow> bool" for coll where
  recharge: "quiet e \<Longrightarrow> collate e = coll \<Longrightarrow> serve coll d (snd (Recharge e req d))"
| gift: "quiet e \<Longrightarrow> collate e = coll \<Longrightarrow> serve coll d (snd (SendGift e greq d))"
| close: "quiet e \<Longrightarrow> collate e = coll \<Longrightarrow> serve coll d (snd (CloseLiveSession e sid d))"
| settle: "quiet e \<Longrightarrow> collate e = coll \<Longrightarrow> serve coll d (snd (GenerateSettlement e sid d))"
| comment: "quiet e \<Longrightarrow> collate e = coll \<Longrightarrow> serve coll d (snd (EnqueueCommentEvent e creq d))"
| watch: "quiet e \<Longrightarrow> collate e = coll \<Longrightarrow> EnqueueWatchMinuteEvents e wreq d = Some (r, d') \<Longrightarrow>
     serve coll d d'"
| points: "quiet e \<Longrightarrow> collate e = coll \<Longrightarrow> serve coll d (snd (project_points e ev d))"
| leaderboard: "quiet e \<Longrightarrow> collate e = coll \<Longrightarrow>
     ApplyAcceptedGift e rp eid evt (d, rs) = (r, d', rs') \<Longrightarrow> serve coll d d'"

inductive step :: "(string \<Rightarrow> string) \<Rightarrow> db \<Rightarrow> db \<Rightarrow> bool" for coll where
  request: "serve coll d d' \<Longrightarrow> step coll d d'"
| relay: "quiet e \<Longrightarrow> collate e = coll \<Longrightarrow> RunOnce e b batch (d, log) = (r, d', log') \<Longrightarrow> step coll d d'"

inductive_cases stepE: "step coll d d'"

definition reachable :: "(string \<Rightarrow> string) \<Rightarrow> db \<Rightarrow> db \<Rightarrow> bool" where
  "reachable coll = (step coll)\<^sup>*\<^sup>*"

text \<open>What a request does to the tables.\<close>

inductive change :: "(string \<Rightarrow> string) \<Rightarrow> db \<Rightarrow> db \<Rightarrow> bool" for coll where
  none: "untouched d d' \<Longrightarrow> change coll d d'"
| recharged: "recharge_effect e req d d' \<Longrightarrow> collate e = coll \<Longrightarrow> change coll d d'"
| gifted: "gift_effect e greq d d' \<Longrightarrow> collate e = coll \<Longrightarrow> change coll d d'"
| closed: "open_session sid d \<Longrightarrow> next_event_id d < 2 ^ 64 \<Longrightarrow> change coll d (session_closed e sid t t' d)"
| settled: "session_exists sid d \<Longrightarrow> change coll d (settled coll sid t t' d)"
| ingested: "ingest_rows (next_event_id d) rows \<Longrightarrow> next_event_id d + length rows \<le> 2 ^ 64 \<Longrightarrow>
     change coll d (ingested rows d)"
| projected: "points_effect e ev d d' \<Longrightarrow> collate e = coll \<Longrightarrow> change coll d d'"
| claimed: "claimed e eid d d' \<Longrightarrow> collate e = coll \<Longrightarrow> change coll d d'"

lemma serve_change: "serve coll d d' \<Longrightarrow> change coll d d'"
proof (induction rule: serve.induct)
  case (recharge e d req)
  then show ?case
    using recharge_requests.atomic [of e req d "fst (Recharge e req d)" "snd (Recharge e req d)"]
    by (auto intro: change.intros)
next
  case (gift e d greq)
  then show ?case
    using gift_requests.atomic [of e greq d "fst (SendGift e greq d)" "snd (SendGift e greq d)"]
    by (auto intro: change.intros)
next
  case (close e d sid)
  then show ?case
    using CloseLiveSession_cases [of e sid d "fst (CloseLiveSession e sid d)" "snd (CloseLiveSession e sid d)"]
    by (auto simp: close_result_def intro: change.none intro!: change.closed)
next
  case (settle e d sid)
  then show ?case
    using GenerateSettlement_cases [of e sid d "fst (GenerateSettlement e sid d)"
        "snd (GenerateSettlement e sid d)"]
    by (auto simp: settlement_result_def intro: change.intros)
next
  case (comment e d creq)
  then show ?case
    using comment_ingested [of e creq d "fst (EnqueueCommentEvent e creq d)" "snd (EnqueueCommentEvent e creq d)"]
    by (metis change.none change.ingested prod.collapse)
next
  case (watch e wreq d r d')
  then show ?case using watch_ingested by (blast intro: change.intros)
next
  case (points e d ev)
  then show ?case
    using points_events.atomic [of e ev d "fst (project_points e ev d)" "snd (project_points e ev d)"]
    by (auto intro: change.intros)
next
  case (leaderboard e rp eid evt d rs r d' rs')
  then show ?case using ApplyAcceptedGift_cases [of e] by (blast intro: change.intros)
qed

text \<open>
  A predicate that the changes and the marks of the relay preserve holds in every reachable
  state.
\<close>

definition stable :: "(string \<Rightarrow> string) \<Rightarrow> (db \<Rightarrow> bool) \<Rightarrow> bool" where
  "stable coll P \<longleftrightarrow>
     (\<forall>d d'. change coll d d' \<longrightarrow> P d \<longrightarrow> P d') \<and> (\<forall>t xs d. P d \<longrightarrow> P (marked t xs d))"

lemma step_cases:
  assumes "step coll d d'"
  obtains "change coll d d'" | t xs where "d' = marked t xs d"
  using assms
proof (cases rule: step.cases)
  case request
  then show ?thesis using that serve_change by blast
next
  case (relay e b batch log r log')
  from RunOnce_cases [OF relay(1,3)] show ?thesis
    using that change.none by (auto simp: relay_result_def Let_def)
qed

lemma reachable_invariant:
  assumes "reachable coll d0 d" and "P d0" and "stable coll P"
  shows "P d"
  using assms(1) unfolding reachable_def
proof (induction rule: rtranclp_induct)
  case (step d d')
  from step(2) show ?case
    by (cases rule: step_cases) (use assms(3) step.IH in \<open>auto simp: stable_def\<close>)
qed (rule assms(2))

section \<open>The ledger\<close>

lemma charge_fits:
  "gift_decision e req d = Charge campaign charged points diamonds \<Longrightarrow>
     fits_u32 charged \<and> fits_u32 points \<and> fits_u32 diamonds \<and> 0 < charged \<and>
     charged \<le> balance_of (gq_ViewerID req) d"
  by (auto simp: gift_decision_def charge_verdict_def Let_def split: option.splits if_splits)

definition charged_amount :: "verdict \<Rightarrow> int" where
  "charged_amount v = (case v of Charge _ charged _ _ \<Rightarrow> charged | _ \<Rightarrow> 0)"

lemma gift_effect_balance:
  assumes eff: "gift_effect e req d d'" and rng: "in_i64 (balance_of (gq_ViewerID req) d)"
  shows "balance_of u d' = balance_of u d -
           (if u = gq_ViewerID req then charged_amount (gift_decision e req d) else 0)"
proof (cases "gift_decision e req d")
  case (Reject code st)
  with eff show ?thesis
    by (auto simp: gift_effect_def balance_gift_rejected charged_amount_def)
next
  case (Charge campaign charged points diamonds)
  then have "wrap64 (balance_of (gq_ViewerID req) d - charged) = balance_of (gq_ViewerID req) d - charged"
    using charge_fits [OF Charge] rng by (intro wrap64_id) (auto simp: in_i64_def)
  with Charge eff show ?thesis
    by (auto simp: gift_effect_def balance_gift_accepted charged_amount_def)
next
  case Broken
  with eff show ?thesis by (simp add: gift_effect_def)
qed

lemma charged_amount_bounds:
  "0 \<le> charged_amount (gift_decision e req d)"
  "0 \<le> balance_of (gq_ViewerID req) d \<Longrightarrow>
     charged_amount (gift_decision e req d) \<le> balance_of (gq_ViewerID req) d"
  using charge_fits [of e req d] by (auto simp: charged_amount_def split: verdict.splits)

lemma ledger_inv_change:
  assumes "change coll d d'" and "ledger_inv coll d"
  shows "ledger_inv coll d'"
  using assms
proof (induction rule: change.induct)
  case (none d d')
  then show ?case using ledger_inv_untouched by blast
next
  case (recharged e req d d')
  then show ?case using ledger_inv_recharged by (auto simp: recharge_effect_def)
next
  case (gifted e req d d')
  then show ?case using ledger_inv_gift_rejected ledger_inv_gift_accepted charge_fits
    by (auto simp: gift_effect_def split: verdict.splits)
next
  case (closed sid d e t t')
  then show ?case by (elim ledger_inv_other) (simp_all add: session_closed_rows accepted_def)
next
  case (settled sid d t t')
  then show ?case by (elim ledger_inv_other) (simp_all add: settled_def accepted_def)
next
  case (ingested d rows)
  then show ?case by (elim ledger_inv_other) (simp_all add: ingested_def accepted_def)
next
  case (projected e ev d d')
  then show ?case
    by (elim ledger_inv_other) (auto simp: points_effect_def projected_def accepted_def)
next
  case (claimed e eid d d')
  then show ?case by (elim ledger_inv_other) (auto simp: claimed_def accepted_def)
qed

lemma ledger_stable: "stable coll (ledger_inv coll)"
proof -
  have "ledger_inv coll (marked t xs d)" if "ledger_inv coll d" for t xs d
    using that by (elim ledger_inv_other) (simp_all add: marked_def accepted_def)
  with ledger_inv_change show ?thesis by (auto simp: stable_def)
qed

lemma unposted_untouched: "untouched d d' \<Longrightarrow> unposted u d' = unposted u d"
  by (simp add: untouched_iff unposted_def balance_of_def user_total_def)

lemma unposted_change: "change coll d d' \<Longrightarrow> unposted u d' = unposted u d"
proof (induction rule: change.induct)
  case (recharged e req d d')
  then show ?case by (auto simp: recharge_effect_def unposted_recharged recharge_enabled_def)
next
  case (gifted e req d d')
  then show ?case
    by (auto simp: gift_effect_def gift_enabled_def unposted_gift_rejected unposted_gift_accepted
        split: verdict.splits)
next
  case (closed sid d e t t')
  then show ?case
    by (simp add: unposted_def balance_of_def user_total_def session_closed_rows)
next
  case (settled sid d t t')
  then show ?case
    by (simp add: unposted_def balance_of_def user_total_def settled_def)
next
  case (ingested d rows)
  then show ?case by (simp add: unposted_def balance_of_def user_total_def ingested_def)
next
  case (projected e ev d d')
  then show ?case
    by (auto simp: unposted_def balance_of_def user_total_def points_effect_def projected_def)
next
  case (claimed e eid d d')
  then show ?case by (auto simp: unposted_def balance_of_def user_total_def claimed_def)
qed (rule unposted_untouched)

lemma unposted_stable: "stable coll (\<lambda>d. unposted u d = k)"
proof -
  have "unposted u (marked t xs d) = unposted u d" for t xs d
    by (simp add: unposted_def balance_of_def user_total_def marked_def)
  with unposted_change show ?thesis by (auto simp: stable_def)
qed

section \<open>The outbox\<close>

text \<open>
  The event that announces a gift order, and the one that announces a wallet transaction. The
  campaign of an accepted gift is that of the session at the time.
\<close>

definition announces_order :: "OutboxEvent \<Rightarrow> GiftOrder \<Rightarrow> bool" where
  "announces_order o' g \<longleftrightarrow>
     oe_EventKey o' = FormatUint (go_LiveSessionID g) \<and>
     (if go_Status g = ACCEPTED
      then oe_Topic o' = giftAcceptedTopic \<and>
        (\<exists>campaign. oe_PayloadJson o' = marshal_gift_accepted
          \<lparr>lga_EventType = giftAcceptedTopic, lga_GiftOrderID = go_GiftOrderID g,
           lga_ViewerID = go_ViewerID g, lga_CreatorID = go_CreatorID g,
           lga_LiveSessionID = go_LiveSessionID g, lga_CampaignID = campaign,
           lga_MatchID = go_MatchID g, lga_GiftID = go_GiftID g, lga_Quantity = go_Quantity g,
           lga_ChargedCoins = go_ChargedCoins g, lga_MatchPoints = go_MatchPointsAdded g,
           lga_DiamondReward = go_DiamondReward g, lga_RequestID = go_RequestID g\<rparr>)
      else oe_Topic o' = giftRejectedTopic \<and>
        (\<exists>code. go_RejectCode g = Some code \<and> oe_PayloadJson o' = marshal_gift_rejected
          \<lparr>lgr_EventType = giftRejectedTopic, lgr_ViewerID = go_ViewerID g,
           lgr_CreatorID = go_CreatorID g, lgr_LiveSessionID = go_LiveSessionID g,
           lgr_MatchID = go_MatchID g, lgr_GiftID = go_GiftID g, lgr_Quantity = go_Quantity g,
           lgr_RequestID = go_RequestID g, lgr_RejectCode = code\<rparr>))"

definition announces_tx :: "OutboxEvent \<Rightarrow> WalletTransaction \<Rightarrow> bool" where
  "announces_tx o' w \<longleftrightarrow>
     oe_Topic o' = walletTopic \<and> oe_EventKey o' = FormatUint (wt_ActorUserID w) \<and>
     (\<exists>delta balance. oe_PayloadJson o' = marshal_wallet_posted
        \<lparr>wtp_TxID = wt_TxID w,
         wtp_TxType = (case wt_TxType w of RECHARGE \<Rightarrow> txTypeRecharge | GIFT_DEBIT \<Rightarrow> txTypeGiftDebit),
         wtp_ActorUserID = wt_ActorUserID w, wtp_RequestID = wt_RequestID w,
         wtp_DeltaCoins = delta, wtp_BalanceAfter = balance\<rparr>)"

definition gift_events :: "db \<Rightarrow> OutboxEvent list" where
  "gift_events d = filter (\<lambda>o'. oe_Topic o' \<in> {giftAcceptedTopic, giftRejectedTopic}) (outbox_events d)"

definition wallet_events :: "db \<Rightarrow> OutboxEvent list" where
  "wallet_events d = filter (\<lambda>o'. oe_Topic o' = walletTopic) (outbox_events d)"

definition outbox_inv :: "db \<Rightarrow> bool" where
  "outbox_inv d \<longleftrightarrow>
     list_all2 announces_order (gift_events d) (gift_orders d) \<and>
     list_all2 announces_tx (wallet_events d) (wallet_transactions d)"

lemma topics_distinct [simp]:
  "walletTopic \<noteq> giftAcceptedTopic" "walletTopic \<noteq> giftRejectedTopic"
  "giftAcceptedTopic \<noteq> giftRejectedTopic" "giftAcceptedTopic \<noteq> walletTopic"
  "giftRejectedTopic \<noteq> walletTopic" "giftRejectedTopic \<noteq> giftAcceptedTopic"
  "sessionClosedTopic \<noteq> walletTopic" "sessionClosedTopic \<noteq> giftAcceptedTopic"
  "sessionClosedTopic \<noteq> giftRejectedTopic"
  by (simp_all add: walletTopic_def giftAcceptedTopic_def giftRejectedTopic_def sessionClosedTopic_def)

lemma ingest_topics [simp]:
  "commentTopic \<noteq> walletTopic" "commentTopic \<noteq> giftAcceptedTopic" "commentTopic \<noteq> giftRejectedTopic"
  "commentTopic \<noteq> sessionClosedTopic" "watchTopic \<noteq> walletTopic" "watchTopic \<noteq> giftAcceptedTopic"
  "watchTopic \<noteq> giftRejectedTopic" "watchTopic \<noteq> sessionClosedTopic" "commentTopic \<noteq> watchTopic"
  by (simp_all add: commentTopic_def watchTopic_def walletTopic_def giftAcceptedTopic_def
      giftRejectedTopic_def sessionClosedTopic_def)

lemma announces_txI:
  assumes "oe_Topic o' = walletTopic" and "oe_EventKey o' = FormatUint (wt_ActorUserID w)"
    and "oe_PayloadJson o' = marshal_wallet_posted
        \<lparr>wtp_TxID = wt_TxID w,
         wtp_TxType = (case wt_TxType w of RECHARGE \<Rightarrow> txTypeRecharge | GIFT_DEBIT \<Rightarrow> txTypeGiftDebit),
         wtp_ActorUserID = wt_ActorUserID w, wtp_RequestID = wt_RequestID w,
         wtp_DeltaCoins = delta, wtp_BalanceAfter = balance\<rparr>"
  shows "announces_tx o' w"
  using assms unfolding announces_tx_def by blast

lemma announces_acceptedI:
  assumes "go_Status g = ACCEPTED" and "oe_EventKey o' = FormatUint (go_LiveSessionID g)"
    and "oe_Topic o' = giftAcceptedTopic"
    and "oe_PayloadJson o' = marshal_gift_accepted
          \<lparr>lga_EventType = giftAcceptedTopic, lga_GiftOrderID = go_GiftOrderID g,
           lga_ViewerID = go_ViewerID g, lga_CreatorID = go_CreatorID g,
           lga_LiveSessionID = go_LiveSessionID g, lga_CampaignID = campaign,
           lga_MatchID = go_MatchID g, lga_GiftID = go_GiftID g, lga_Quantity = go_Quantity g,
           lga_ChargedCoins = go_ChargedCoins g, lga_MatchPoints = go_MatchPointsAdded g,
           lga_DiamondReward = go_DiamondReward g, lga_RequestID = go_RequestID g\<rparr>"
  shows "announces_order o' g"
  using assms unfolding announces_order_def by simp blast

lemmas event_lists = gift_events_def wallet_events_def outbox_row_def

text \<open>The relay's marks do not change what an event announces.\<close>

definition marking :: "micros \<Rightarrow> OutboxEvent list \<Rightarrow> OutboxEvent \<Rightarrow> OutboxEvent" where
  "marking t xs x = (if oe_EventID x \<in> oe_EventID ` set xs then x\<lparr>oe_PublishedAt := Some t\<rparr> else x)"

lemma marking_keeps [simp]:
  "oe_EventID (marking t xs x) = oe_EventID x" "oe_Topic (marking t xs x) = oe_Topic x"
  "oe_EventKey (marking t xs x) = oe_EventKey x" "oe_PayloadJson (marking t xs x) = oe_PayloadJson x"
  by (simp_all add: marking_def)

lemma outbox_marked: "outbox_events (marked t xs d) = map (marking t xs) (outbox_events d)"
  by (simp add: marked_def mark_all_eq marking_def [abs_def])

lemma marked_events:
  "gift_events (marked t xs d) = map (marking t xs) (gift_events d)"
  "wallet_events (marked t xs d) = map (marking t xs) (wallet_events d)"
  "gift_orders (marked t xs d) = gift_orders d" "wallet_transactions (marked t xs d) = wallet_transactions d"
  by (simp_all add: gift_events_def wallet_events_def outbox_marked filter_map comp_def)
    (simp_all add: marked_def)

lemma marked_announces:
  "announces_order (marking t xs x) g = announces_order x g"
  "announces_tx (marking t xs x) w = announces_tx x w"
  by (simp_all add: announces_order_def announces_tx_def)

lemma outbox_inv_change:
  assumes "change coll d d'" and "outbox_inv d"
  shows "outbox_inv d'"
  using assms
proof (induction rule: change.induct)
  case (none d d')
  then show ?case by (simp add: untouched_iff outbox_inv_def event_lists)
next
  case (recharged e req d d')
  then show ?case
    by (auto simp: outbox_inv_def recharge_effect_def recharged_def Let_def event_lists
        intro!: list_all2_appendI announces_txI)
next
  case (gifted e req d d')
  show ?case
  proof (cases "gift_decision e req d")
    case (Reject code st)
    with gifted show ?thesis
      by (auto simp: outbox_inv_def gift_effect_def gift_rejected_def event_lists
          announces_order_def rejected_order_def order_row_def gift_rejected_event_def
          intro!: list_all2_appendI)
  next
    case (Charge campaign charged points diamonds)
    with gifted show ?thesis
      by (auto simp: outbox_inv_def gift_effect_def gift_accepted_def Let_def event_lists
          accepted_order_def order_row_def gift_accepted_event_def gift_debit_event_def
          intro!: list_all2_appendI announces_txI announces_acceptedI)
  next
    case Broken
    with gifted show ?thesis by (simp add: gift_effect_def)
  qed
next
  case (closed sid d e t t')
  then show ?case by (simp add: outbox_inv_def event_lists session_closed_rows)
next
  case (settled sid d t t')
  then show ?case by (simp add: outbox_inv_def event_lists settled_def)
next
  case (ingested d rows)
  then have "filter (\<lambda>x. oe_Topic x \<in> {giftAcceptedTopic, giftRejectedTopic}) rows = []"
    "filter (\<lambda>x. oe_Topic x = walletTopic) rows = []"
    using ingest_topics by (auto simp: ingest_rows_def list_all_iff filter_empty_conv)
  with ingested show ?case
    by (simp add: outbox_inv_def gift_events_def wallet_events_def ingested_def)
next
  case (projected e ev d d')
  then show ?case
    by (auto simp: outbox_inv_def gift_events_def wallet_events_def points_effect_def projected_def)
next
  case (claimed e eid d d')
  then show ?case by (auto simp: outbox_inv_def gift_events_def wallet_events_def claimed_def)
qed

lemma outbox_stable: "stable coll outbox_inv"
proof -
  have "outbox_inv (marked t xs d)" if "outbox_inv d" for t xs d
    using that by (simp add: outbox_inv_def marked_events list_all2_map1 marked_announces cong: list.rel_cong)
  with outbox_inv_change show ?thesis by (auto simp: stable_def)
qed

section \<open>Closed sessions stay closed\<close>

lemma close_rows_closes: "x \<in> set (close_rows s t ss) \<Longrightarrow> closes sid x \<Longrightarrow> x \<in> set ss"
  by (auto simp: close_rows_def closes_def split: if_splits)

lemma gift_needs_open_session:
  assumes "gift_decision e req d = Charge campaign charged points diamonds"
  shows "open_session (gq_LiveSessionID req) d"
proof -
  obtain s where "find (\<lambda>s. ls_LiveSessionID s = gq_LiveSessionID req) (live_sessions d) = Some s"
    "ls_Status s = SESSION_OPEN"
    using assms by (auto simp: gift_decision_def split: option.splits if_splits)
  then show ?thesis
    using find_SomeD by (fastforce simp: open_session_closes closes_def list_ex_iff)
qed

lemma closed_session_change:
  assumes "change coll d d'" and "\<not> open_session sid d"
  shows "\<not> open_session sid d' \<and> session_orders sid d' = session_orders sid d"
  using assms
proof (induction rule: change.induct)
  case (none d d')
  then show ?case by (simp add: untouched_iff open_session_closes session_orders_def)
next
  case (recharged e req d d')
  then show ?case
    by (auto simp: recharge_effect_def recharged_def Let_def open_session_closes session_orders_def)
next
  case (gifted e req d d')
  show ?case
  proof (cases "gift_decision e req d")
    case (Reject code st)
    with gifted show ?thesis
      by (auto simp: gift_effect_def gift_rejected_def open_session_closes session_orders_def
          rejected_order_def order_row_def)
  next
    case (Charge campaign charged points diamonds)
    then have "gq_LiveSessionID req \<noteq> sid" using gift_needs_open_session gifted by metis
    with Charge gifted show ?thesis
      by (auto simp: gift_effect_def gift_accepted_def Let_def open_session_closes
          session_orders_def accepted_order_def order_row_def)
  next
    case Broken
    with gifted show ?thesis by (simp add: gift_effect_def)
  qed
next
  case (closed s d e t t')
  then show ?case
    using close_rows_closes [of _ s t "live_sessions d" sid]
    by (auto simp: session_closed_rows open_session_closes session_orders_def list_ex_iff)
next
  case (settled s d t t')
  then show ?case by (simp add: settled_def open_session_closes session_orders_def)
next
  case (ingested d rows)
  then show ?case by (simp add: ingested_def open_session_closes session_orders_def)
next
  case (projected e ev d d')
  then show ?case
    by (auto simp: points_effect_def projected_def open_session_closes session_orders_def)
next
  case (claimed e eid d d')
  then show ?case by (auto simp: claimed_def open_session_closes session_orders_def)
qed

lemma closed_session_stable:
  "stable coll (\<lambda>d. \<not> open_session sid d \<and> session_orders sid d = gs)"
proof -
  have "open_session sid (marked t xs d) = open_session sid d"
    "session_orders sid (marked t xs d) = session_orders sid d" for t xs d
    by (simp_all add: marked_def open_session_closes session_orders_def)
  with closed_session_change show ?thesis by (auto simp: stable_def)
qed

section \<open>Points\<close>

lemma points_inv_change:
  assumes "change coll d d'" and "points_inv coll d"
  shows "points_inv coll d'"
  using assms
proof (induction rule: change.induct)
  case (none d d')
  then show ?case by (elim points_inv_other) (simp_all add: untouched_iff)
next
  case (recharged e req d d')
  then show ?case by (elim points_inv_other) (auto simp: recharge_effect_def recharged_def Let_def)
next
  case (gifted e req d d')
  then show ?case
    by (elim points_inv_other)
      (auto simp: gift_effect_def gift_rejected_def gift_accepted_def Let_def split: verdict.splits)
next
  case (closed sid d e t t')
  then show ?case by (elim points_inv_other) (simp_all add: session_closed_rows)
next
  case (settled sid d t t')
  then show ?case by (elim points_inv_other) (simp_all add: settled_def)
next
  case (ingested d rows)
  then show ?case by (elim points_inv_other) (simp_all add: ingested_def)
next
  case (projected e ev d d')
  then show ?case using points_inv_effect by blast
next
  case (claimed e eid d d')
  then show ?case by (auto simp: claimed_def points_inv_def dedupe_known_def fan_count_def)
qed

lemma points_stable_inv: "stable coll (points_inv coll)"
proof -
  have "points_inv coll (marked t xs d)" if "points_inv coll d" for t xs d
    using that by (elim points_inv_other) (simp_all add: marked_def)
  with points_inv_change show ?thesis by (auto simp: stable_def)
qed

section \<open>A demo run\<close>

text \<open>The state after one accepted gift, for witnesses.\<close>

definition after_gift :: db where
  "after_gift = snd (SendGift demo_env demo_gift seed_db)"

lemma after_gift_reachable: "reachable (\<lambda>s. s) seed_db after_gift"
  unfolding reachable_def after_gift_def
  by (rule r_into_rtranclp) (rule step.request, rule serve.gift; simp)

lemma seed_ledger [simp]: "ledger_inv coll seed_db"
  by (simp add: ledger_inv_def ids_fresh_def txs_of_def accepted_def seed_db_def)

lemma after_gift_accepted: "\<exists>ts. after_gift = gift_accepted demo_gift (Some 7001) 1 1 1 ts seed_db"
proof -
  have new: "gift_known demo_env demo_gift seed_db = None"
    using demo_gift_ready(2) by (simp add: gift_enabled_def)
  have run: "SendGift demo_env demo_gift seed_db = (Ok (gift_created demo_gift 1 1 1 seed_db), after_gift)"
    using demo_gift_run by (simp add: after_gift_def)
  from SendGift_cases [OF demo_env_calm(2) run] new show ?thesis
    by (auto simp: gift_result_def gift_kept_def demo_gift_charged)
qed

lemma after_gift_rows:
  "wallet_transactions after_gift \<noteq> []" "gift_orders after_gift \<noteq> []"
proof -
  obtain ts where a: "after_gift = gift_accepted demo_gift (Some 7001) 1 1 1 ts seed_db"
    using after_gift_accepted by blast
  show "wallet_transactions after_gift \<noteq> []" "gift_orders after_gift \<noteq> []"
    unfolding a by (simp_all add: gift_accepted_def Let_def)
qed

lemma after_gift_session:
  "session_exists 9001 after_gift" "gross_spend 9001 after_gift = 1" "diamond_total 9001 after_gift = 1"
proof -
  obtain ts where a: "after_gift = gift_accepted demo_gift (Some 7001) 1 1 1 ts seed_db"
    using after_gift_accepted by blast
  show "session_exists 9001 after_gift" "gross_spend 9001 after_gift = 1" "diamond_total 9001 after_gift = 1"
    unfolding a
    by (simp_all add: gift_accepted_def Let_def session_exists_def gross_spend_def diamond_total_def
        session_orders_def accepted_order_def order_row_def seed_db_def demo_gift_def)
qed

end
