(* ===== verification/World.thy ===== *)
theory World
  imports System
begin

text \<open>
  The whole system: the service and its database, the relay, and the broker with the log of the
  messages it has taken. A step of the world is a step of the service, which the broker does
  not see, or a run of the relay.
\<close>

section \<open>Event numbers\<close>

text \<open>The primary key of the outbox, which the relay's header and the consumers rely on.\<close>

definition event_ids_inv :: "db \<Rightarrow> bool" where
  "event_ids_inv d \<longleftrightarrow>
     distinct (event_ids d) \<and> 0 < next_event_id d \<and>
     (\<forall>i \<in> set (event_ids d). 0 < i \<and> unat i < next_event_id d)"

lemma event_ids_append:
  assumes inv: "event_ids_inv d" and fits: "next_event_id d + n \<le> 2 ^ 64"
    and ids: "event_ids d' = event_ids d @ map of_nat [next_event_id d ..< next_event_id d + n]"
    and le: "next_event_id d + n \<le> next_event_id d'"
  shows "event_ids_inv d'"
proof -
  let ?new = "[next_event_id d ..< next_event_id d + n]"
  have un: "unat (of_nat k :: u64) = k" if "k \<in> set ?new" for k
    using that fits by (simp add: unat_of_nat)
  have "inj_on (of_nat :: nat \<Rightarrow> u64) (set ?new)"
    by (rule inj_on_inverseI [where g = unat]) (rule un)
  moreover have "i \<notin> of_nat ` set ?new" if "i \<in> set (event_ids d)" for i
    using inv that un by (fastforce simp: event_ids_inv_def)
  moreover have "0 < (of_nat k :: u64) \<and> unat (of_nat k :: u64) < next_event_id d'" if "k \<in> set ?new" for k
    using that un [OF that] inv le by (simp add: event_ids_inv_def word_less_nat_alt)
  ultimately show ?thesis
    using inv le unfolding event_ids_inv_def ids by (auto simp: distinct_map) 
qed

lemma event_ids_change:
  assumes "change coll d d'" and "event_ids_inv d"
  shows "event_ids_inv d'"
  using assms
proof (induction rule: change.induct)
  case (none d d')
  then show ?case by (fastforce simp: event_ids_inv_def event_ids_def untouched_iff)
next
  case (recharged e req d d')
  then show ?case
    by (elim event_ids_append [where n = 1])
      (auto simp: recharge_effect_def recharged_def Let_def event_ids_def recharge_enabled_def)
next
  case (gifted e req d d')
  show ?case
  proof (cases "gift_decision e req d")
    case (Reject code st)
    with gifted show ?thesis
      by (elim event_ids_append [where n = 1])
        (auto simp: gift_effect_def gift_rejected_def event_ids_def outbox_row_def)
  next
    case (Charge campaign charged points diamonds)
    with gifted show ?thesis
      by (elim event_ids_append [where n = 2])
        (auto simp: gift_effect_def gift_accepted_def Let_def event_ids_def outbox_row_def
          gift_enabled_def upt_conv_Cons)
  next
    case Broken
    with gifted show ?thesis by (simp add: gift_effect_def)
  qed
next
  case (closed sid d e t t')
  then show ?case
    by (elim event_ids_append [where n = 1]) (auto simp: session_closed_rows event_ids_def outbox_row_def)
next
  case (settled sid d t t')
  then show ?case by (simp add: event_ids_inv_def event_ids_def settled_def)
next
  case (ingested d rows)
  then show ?case
    by (elim event_ids_append [where n = "length rows"])
      (auto simp: ingested_def event_ids_def ingest_rows_def)
next
  case (projected e ev d d')
  then show ?case by (auto simp: event_ids_inv_def event_ids_def points_effect_def projected_def)
next
  case (claimed e eid d d')
  then show ?case by (auto simp: event_ids_inv_def event_ids_def claimed_def)
qed

lemma event_ids_stable: "stable coll event_ids_inv"
proof -
  have "event_ids_inv (marked t xs d)" if "event_ids_inv d" for t xs d
    using that unfolding event_ids_inv_def event_ids_marked by (simp add: marked_def)
  with event_ids_change show ?thesis by (auto simp: stable_def)
qed

section \<open>The world\<close>

inductive world_step ::
  "(string \<Rightarrow> string) \<Rightarrow> (json \<Rightarrow> string) \<Rightarrow> db \<times> message list \<Rightarrow> db \<times> message list \<Rightarrow> bool"
  for coll cast where
  request: "serve coll d d' \<Longrightarrow> world_step coll cast (d, log) (d', log)"
| relay: "quiet e \<Longrightarrow> collate e = coll \<Longrightarrow> cast_char e = cast \<Longrightarrow>
     RunOnce e b batch s = (r, s') \<Longrightarrow> world_step coll cast s s'"

inductive_cases world_stepE: "world_step coll cast s s'"

definition world_reachable ::
  "(string \<Rightarrow> string) \<Rightarrow> (json \<Rightarrow> string) \<Rightarrow> db \<times> message list \<Rightarrow> db \<times> message list \<Rightarrow> bool" where
  "world_reachable coll cast = (world_step coll cast)\<^sup>*\<^sup>*"

text \<open>The database of the world moves as the service and the relay say, so its invariants hold.\<close>

lemma world_step_db: "world_step coll cast s s' \<Longrightarrow> step coll (fst s) (fst s')"
proof (induction rule: world_step.induct)
  case (relay e b batch s r s')
  obtain d log d' log' where "s = (d, log)" "s' = (d', log')" by (metis surj_pair)
  with relay show ?case by (auto intro: step.relay)
qed (simp add: step.request)

lemma world_reachable_db: "world_reachable coll cast s s' \<Longrightarrow> reachable coll (fst s) (fst s')"
  unfolding world_reachable_def reachable_def
  by (induction rule: rtranclp_induct) (auto intro: world_step_db rtranclp.rtrancl_into_rtrancl)

text \<open>A request only appends unpublished rows to the outbox.\<close>

lemma change_appends:
  assumes "change coll d d'"
  shows "\<exists>rows. outbox_events d' = outbox_events d @ rows \<and> list_all (\<lambda>x. oe_PublishedAt x = None) rows"
  using assms
proof (induction rule: change.induct)
  case (gifted e req d d')
  then show ?case
    by (cases "gift_decision e req d")
      (auto simp: gift_effect_def gift_rejected_def gift_accepted_def Let_def outbox_row_def)
next
  case (ingested d rows)
  then show ?case by (auto simp: ingested_def ingest_rows_def list_all_iff)
qed (auto simp: untouched_iff recharge_effect_def recharged_def Let_def session_closed_rows settled_def
    points_effect_def projected_def outbox_row_def claimed_def)

lemma relay_inv_step:
  assumes "world_step coll cast s s'" and "event_ids_inv (fst s)" and "relay_inv cast s"
  shows "relay_inv cast s'"
  using assms
proof (induction rule: world_step.induct)
  case (request d d' log)
  have c: "change coll d d'" by (rule serve_change [OF request(1)])
  then have ids: "distinct (event_ids d')"
    using event_ids_change [OF c] request(2) by (simp add: event_ids_inv_def)
  obtain rows where "outbox_events d' = outbox_events d @ rows" "list_all (\<lambda>x. oe_PublishedAt x = None) rows"
    using change_appends [OF c] by blast
  with ids request(3) show ?case by (auto simp: relay_inv_def list_all_iff)
next
  case (relay e b batch s r s')
  then show ?case using RunOnce_inv by (metis surj_pair)
qed

lemma relay_inv_reachable:
  assumes "world_reachable coll cast s0 s" and "event_ids_inv (fst s0)" and "relay_inv cast s0"
  shows "relay_inv cast s"
  using assms(1) unfolding world_reachable_def
proof (induction rule: rtranclp_induct)
  case (step s s')
  then have "world_reachable coll cast s0 s" by (simp add: world_reachable_def)
  then have "event_ids_inv (fst s)"
    using reachable_invariant [OF world_reachable_db assms(2) event_ids_stable] by blast
  with step show ?case using relay_inv_step by blast
qed (rule assms(3))

section \<open>A demo run of the relay\<close>

definition demo_broker :: broker where
  "demo_broker = \<lparr>send = (\<lambda>_ _. Delivered), locked = (\<lambda>_. False)\<rparr>"

lemma demo_broker_reliable [simp]: "reliable demo_broker"
  by (simp add: reliable_def demo_broker_def)

lemma seed_events [simp]: "event_ids_inv seed_db" "relay_inv cast (seed_db, [])" "points_inv coll seed_db"
  by (simp_all add: event_ids_inv_def relay_inv_def event_ids_def points_inv_def fan_count_def seed_db_def)

lemma after_gift_events: "event_ids_inv after_gift"
  by (rule reachable_invariant [OF after_gift_reachable _ event_ids_stable]) simp

definition after_relay :: "db \<times> message list" where
  "after_relay = snd (RunOnce demo_env demo_broker 200 (after_gift, []))"

definition demo_watch :: InternalWatchMinutesRequest where
  "demo_watch = \<lparr>iw_EventID = ''w-1'', iw_ViewerID = 2001, iw_CreatorID = 1001,
     iw_LiveSessionID = 9001, iw_Minutes = 3\<rparr>"

lemma demo_watch_valid: "watch_valid demo_watch"
  by (simp add: demo_watch_def watch_valid_def blank_def runes_def codes_def unicode_space_def)

definition demo_accepted :: LiveGiftAcceptedV1 where
  "demo_accepted = \<lparr>lga_EventType = giftAcceptedTopic, lga_GiftOrderID = 1, lga_ViewerID = 2001,
     lga_CreatorID = 1001, lga_LiveSessionID = 9001, lga_CampaignID = Some 7001,
     lga_MatchID = Some 8001, lga_GiftID = ''ROSE'', lga_Quantity = 1, lga_ChargedCoins = 1,
     lga_MatchPoints = 1, lga_DiamondReward = 1, lga_RequestID = ''demo-gift-1''\<rparr>"

definition demo_point :: point_event where
  "demo_point = GiftEvent demo_accepted"

lemma demo_point_ready:
  "projectable (1, demo_point) seed_db" "\<not> dedupe_known pointsConsumer coll 1 seed_db"
  by (simp_all add: demo_point_def demo_accepted_def projectable_def dedupe_known_def fan_row_def
      fits_int32_def user_exists_def session_exists_def seed_db_def seed_user_def)

lemma after_relay_reachable:
  "world_reachable (\<lambda>s. s) json_text (seed_db, []) (snd (RunOnce demo_env demo_broker 200 (after_gift, [])))"
proof -
  have "world_step (\<lambda>s. s) json_text (seed_db, []) (after_gift, [])"
    unfolding after_gift_def by (rule world_step.request) (rule serve.gift; simp)
  moreover have "world_step (\<lambda>s. s) json_text (after_gift, [])
      (snd (RunOnce demo_env demo_broker 200 (after_gift, [])))"
    by (rule world_step.relay [where e = demo_env and b = demo_broker and batch = 200
          and r = "fst (RunOnce demo_env demo_broker 200 (after_gift, []))"])
      simp_all
  ultimately show ?thesis unfolding world_reachable_def by (meson converse_rtranclp_into_rtranclp r_into_rtranclp)
qed

lemma after_relay_published: "\<exists>x \<in> set (outbox_events (fst after_relay)). oe_PublishedAt x \<noteq> None"
proof -
  obtain ts where a: "after_gift = gift_accepted demo_gift (Some 7001) 1 1 1 ts seed_db"
    using after_gift_accepted by blast
  have rows: "length (outbox_events after_gift) = 2"
    "\<forall>x \<in> set (outbox_events after_gift). oe_PublishedAt x = None"
    by (simp_all add: a gift_accepted_def Let_def outbox_row_def seed_db_def)
  then obtain x where x: "x \<in> set (outbox_events after_gift)" by (cases "outbox_events after_gift") auto
  have "length (pending demo_broker after_gift) \<le> 2"
    using rows(1) length_filter_le [of _ "outbox_events after_gift"] by (simp add: pending_def)
  then have "x \<in> set (published_batch demo_broker 200 after_gift)"
    using x rows(2) by (simp add: published_batch_def pending_def demo_broker_def)
  then have m: "x\<lparr>oe_PublishedAt := Some t\<rparr> \<in>
      set (outbox_events (marked t (published_batch demo_broker 200 after_gift) after_gift))" for t
    using x by (auto simp: marked_def mark_all_eq intro!: image_eqI [of _ _ x])
  obtain t where "fst after_relay = marked t (published_batch demo_broker 200 after_gift) after_gift"
    using RunOnce_runs [OF demo_env_calm(1) demo_broker_reliable, of 200 after_gift "[]"]
    by (auto simp: after_relay_def)
  with m [of t] show ?thesis by (intro bexI) auto
qed

end
