(* ===== verification/Boards.thy ===== *)
theory Boards
  imports Leaderboard
begin

text \<open>
  What the leaderboards hold: the boards that MySQL determines, and that a rebuild writes
  exactly these, whatever Redis held before, however often the client repeats a command and in
  whatever order Go walks its maps.
\<close>

section \<open>Boards\<close>

abbreviation coins :: "GiftOrder \<Rightarrow> int" where "coins g \<equiv> uint (go_ChargedCoins g)"
abbreviation match_points :: "GiftOrder \<Rightarrow> int" where "match_points g \<equiv> uint (go_MatchPointsAdded g)"

text \<open>One line per key with its total, under the name that the projector gives the key.\<close>

definition board ::
  "(u64 \<Rightarrow> string) \<Rightarrow> ('r \<Rightarrow> u64) \<Rightarrow> ('r \<Rightarrow> int) \<Rightarrow> 'r list \<Rightarrow> string \<rightharpoonup> int" where
  "board name key amount rs = map_of (map (\<lambda>k. (name k, total_by key amount k rs)) (remdups (map key rs)))"

definition match_orders :: "u64 \<Rightarrow> GiftOrder list \<Rightarrow> GiftOrder list" where
  "match_orders m rs = filter (\<lambda>g. go_MatchID g = Some m) rs"

lemma inj_FormatUint [simp]: "inj FormatUint"
  by (simp add: inj_def)

lemma inj_creator_field [simp]: "inj creator_field"
  by (simp add: inj_def creator_field_def)

lemma key_inject [simp]:
  "contributorKey a = contributorKey b \<longleftrightarrow> a = b"
  "campaignKey a = campaignKey b \<longleftrightarrow> a = b"
  "matchScoreKey a = matchScoreKey b \<longleftrightarrow> a = b"
  by (simp_all add: contributorKey_def campaignKey_def matchScoreKey_def)

lemma key_distinct [simp]:
  "contributorKey a \<noteq> campaignKey b" "campaignKey b \<noteq> contributorKey a"
  "contributorKey a \<noteq> matchScoreKey b" "matchScoreKey b \<noteq> contributorKey a"
  "campaignKey a \<noteq> matchScoreKey b" "matchScoreKey b \<noteq> campaignKey a"
  by (simp_all add: contributorKey_def campaignKey_def matchScoreKey_def)

section \<open>The totals of a rebuild\<close>

lemma entry_Nil [simp]: "entry [] k = 0"
  by (simp add: entry_def)

lemma inner_Nil [simp]: "inner [] k = []"
  by (simp add: inner_def)

definition int64_ids :: "GiftOrder list \<Rightarrow> bool" where
  "int64_ids rs \<longleftrightarrow> (\<forall>g \<in> set rs. \<forall>m. go_MatchID g = Some m \<longrightarrow> uint m < 2 ^ 63)"

lemma entry_update: "entry (AList.update k v al) j = (if j = k then v else entry al j)"
  by (simp add: entry_def update_conv')

lemma inner_update: "inner (AList.update k v al) j = (if j = k then v else inner al j)"
  by (simp add: inner_def update_conv')

lemma scan_null_int64_ok [simp]:
  "scan_null_int64 None = Inr None"
  "uint m < 2 ^ 63 \<Longrightarrow> scan_null_int64 (Some m) = Inr (Some (uint m))"
  by (simp_all add: scan_null_int64_def scan_int64_def in_i64_def order_trans [OF _ uint_nonnegative])

lemma lb_int64ToUint64_uint [simp]: "lb_int64ToUint64 (uint m) name = Inr m"
  by (simp add: lb_int64ToUint64_def linorder_not_less)

text \<open>The step of the loop for one order, when its numbers are in range.\<close>

definition add_contrib :: "GiftOrder \<Rightarrow> scores \<Rightarrow> scores" where
  "add_contrib g contrib = AList.update (go_ViewerID g) (entry contrib (go_ViewerID g) + coins g) contrib"

definition add_match :: "GiftOrder \<Rightarrow> (u64 \<times> scores) list \<Rightarrow> (u64 \<times> scores) list" where
  "add_match g ms = (case go_MatchID g of
     None \<Rightarrow> ms
   | Some m \<Rightarrow> AList.update m (AList.update (go_CreatorID g)
       (entry (inner ms m) (go_CreatorID g) + match_points g) (inner ms m)) ms)"

text \<open>Every number stays below its limit while the remaining orders are added.\<close>

definition below :: "int \<Rightarrow> int \<Rightarrow> scores \<Rightarrow> bool" where
  "below B s al \<longleftrightarrow> (\<forall>k. 0 \<le> entry al k \<and> entry al k + s < B)"

lemma below_skip: "below B (x + s) al \<Longrightarrow> 0 \<le> x \<Longrightarrow> below B s al"
  unfolding below_def by (smt (verit))

lemma below_step:
  "below B (x + s) al \<Longrightarrow> 0 \<le> x \<Longrightarrow> below B s (AList.update k (entry al k + x) al)"
  unfolding below_def entry_update by (smt (verit))

lemma below_sum:
  "below B (x + s) al \<Longrightarrow> 0 \<le> x \<Longrightarrow> 0 \<le> s \<Longrightarrow> 0 \<le> entry al k + x \<and> entry al k + x < B"
  unfolding below_def by (smt (verit))

definition room :: "GiftOrder list \<Rightarrow> scores \<Rightarrow> (u64 \<times> scores) list \<Rightarrow> bool" where
  "room rs contrib ms \<longleftrightarrow>
     below (2 ^ 53) (sum_list (map coins rs)) contrib \<and>
     (\<forall>m. below (2 ^ 63) (sum_list (map match_points rs)) (inner ms m))"

lemma room_step:
  assumes "room (g # rs) contrib ms"
  shows "room rs (add_contrib g contrib) (add_match g ms)"
  using assms
  by (auto simp: room_def add_contrib_def add_match_def inner_update
      intro: below_step below_skip split: option.splits)

lemma in_i64_nonneg: "0 \<le> x \<Longrightarrow> x < 2 ^ 63 \<Longrightarrow> in_i64 x"
  by (simp add: in_i64_def)

lemma rebuild_rows_ok:
  assumes "int64_ids rs" and "room rs contrib ms"
  shows "rebuild_rows rs contrib ms = Inr (fold add_contrib rs contrib, fold add_match rs ms)"
  using assms
proof (induction rs arbitrary: contrib ms)
  case (Cons g rs)
  have ids: "scan_null_int64 (go_MatchID g) = Inr (map_option uint (go_MatchID g))" "int64_ids rs"
    using Cons.prems(1) by (cases "go_MatchID g"; simp add: int64_ids_def)+
  have nn: "0 \<le> sum_list (map coins rs)" "0 \<le> sum_list (map match_points rs)"
    by (simp_all add: sum_list_map_nonneg)
  have c53: "f64 (coins g) = coins g"
    using uint_lt2p [of "go_ChargedCoins g"] by (intro f64_exact) simp
  have r: "below (2 ^ 53) (coins g + sum_list (map coins rs)) contrib"
    "\<And>m. below (2 ^ 63) (match_points g + sum_list (map match_points rs)) (inner ms m)"
    using Cons.prems(2) by (simp_all add: room_def)
  have f: "f64 (entry contrib (go_ViewerID g) + f64 (coins g)) = entry contrib (go_ViewerID g) + coins g"
    using below_sum [OF r(1) _ nn(1)] by (simp add: c53 f64_exact)
  have w: "wrap64 (entry (inner ms m) c + match_points g) = entry (inner ms m) c + match_points g" for m c
    using below_sum [OF r(2) _ nn(2)] by (intro wrap64_id in_i64_nonneg) simp_all
  show ?case
    using Cons.IH [OF ids(2) room_step [OF Cons.prems(2)]] f w ids(1)
    by (cases "go_MatchID g") (simp_all add: add_contrib_def add_match_def Let_def)
qed simp

text \<open>What the two maps hold at the end.\<close>

lemma fold_add_contrib:
  "entry (fold add_contrib rs contrib) v = entry contrib v + total_by go_ViewerID coins v rs"
  by (induction rs arbitrary: contrib) (auto simp: add_contrib_def entry_update total_by_Cons)

lemma fold_add_contrib_keys:
  "set (map fst (fold add_contrib rs contrib)) = go_ViewerID ` set rs \<union> set (map fst contrib)"
  by (induction rs arbitrary: contrib) (auto simp: add_contrib_def dom_update)

lemma fold_add_match:
  "entry (inner (fold add_match rs ms) m) c =
     entry (inner ms m) c + total_by go_CreatorID match_points c (match_orders m rs)"
  by (induction rs arbitrary: ms)
    (auto simp: add_match_def entry_update inner_update total_by_Cons match_orders_def
      split: option.splits)

lemma fold_add_match_keys:
  "set (map fst (fold add_match rs ms)) =
     {m. Some m \<in> go_MatchID ` set rs} \<union> set (map fst ms)"
  by (induction rs arbitrary: ms) (auto simp: add_match_def dom_update split: option.splits)

lemma fold_add_match_inner_keys:
  "set (map fst (inner (fold add_match rs ms) m)) =
     go_CreatorID ` set (match_orders m rs) \<union> set (map fst (inner ms m))"
  by (induction rs arbitrary: ms)
    (auto simp: add_match_def inner_update dom_update match_orders_def split: option.splits)

section \<open>The rebuild writes the boards\<close>

definition permutes_keys :: "map_order \<Rightarrow> bool" where
  "permutes_keys ord \<longleftrightarrow> (\<forall>ks. mset (ord ks) = mset ks)"

lemma permutes_keysD [simp]:
  assumes "permutes_keys ord"
  shows "set (ord ks) = set ks" and "distinct (ord ks) = distinct ks" and "ord ks = [] \<longleftrightarrow> ks = []"
  using assms mset_eq_setD mset_eq_imp_distinct_iff unfolding permutes_keys_def
  by (blast, blast, metis mset_zero_iff)

lemma distinct_fold_add_contrib:
  "distinct (map fst contrib) \<Longrightarrow> distinct (map fst (fold add_contrib rs contrib))"
  by (induction rs arbitrary: contrib) (auto simp: add_contrib_def distinct_update)

lemma distinct_fold_add_match_inner:
  "distinct (map fst (inner ms m)) \<Longrightarrow> distinct (map fst (inner (fold add_match rs ms) m))"
  by (induction rs arbitrary: ms)
    (auto simp: add_match_def inner_update distinct_update split: option.splits)

lemma distinct_keyed: "inj f \<Longrightarrow> distinct ks \<Longrightarrow> distinct (map fst (map (\<lambda>k. (f k, g k)) ks))"
  by (simp add: comp_def distinct_map inj_on_def inj_def)

lemma keyed_empty: "(fold add_contrib rs [] = []) = (rs = [])"
  using fold_add_contrib_keys [of rs "[]"] by (cases rs) auto

text \<open>The contributors: the key is gone, or holds the totals of the orders.\<close>

definition board_value :: "(string \<rightharpoonup> int) \<Rightarrow> redis_value option" where
  "board_value b = (if b = Map.empty then None else Some (ZSet b))"

lemma board_empty: "board name key amount rs = Map.empty \<longleftrightarrow> rs = []"
  by (simp add: board_def)

lemma rebuild_contributors_ok:
  assumes rp: "answering rp" and ord: "permutes_keys ord"
  shows "\<exists>n'. rebuild_contributors rp ord sid (fold add_contrib rs []) (s, n) =
     (Inr (), s(contributorKey sid := board_value (board FormatUint go_ViewerID coins rs)), n')"
proof -
  let ?al = "fold add_contrib rs []"
  let ?ms = "map (\<lambda>v. (FormatUint v, entry ?al v)) (ord (map fst ?al))"
  have "distinct (map fst ?ms)"
    using ord distinct_fold_add_contrib [of "[]" rs] by (intro distinct_keyed) simp_all
  moreover have "map_of ?ms = board FormatUint go_ViewerID coins rs"
    unfolding board_def
    by (rule map_of_keyed_cong)
      (use ord in \<open>simp_all add: fold_add_contrib fold_add_contrib_keys [of rs "[]", simplified]\<close>)
  ultimately show ?thesis
    using rp
    by (auto simp: rebuild_contributors_def redis_then_def redis_call_del redis_call_zadd
        redis_return_def keyed_empty board_value_def board_empty)
qed

text \<open>The matches of the session, each with the points of its creators.\<close>

definition match_board :: "u64 \<Rightarrow> GiftOrder list \<Rightarrow> string \<rightharpoonup> i64" where
  "match_board m rs = board creator_field go_CreatorID match_points (match_orders m rs)"

primrec with_matches :: "u64 list \<Rightarrow> GiftOrder list \<Rightarrow> redis \<Rightarrow> redis" where
  "with_matches [] rs s = s"
| "with_matches (m # mids) rs s = with_matches mids rs (s(matchScoreKey m \<mapsto> Hash (match_board m rs)))"

lemma with_matches_at:
  "with_matches mids rs s (matchScoreKey m) =
     (if m \<in> set mids then Some (Hash (match_board m rs)) else s (matchScoreKey m))"
  by (induction mids arbitrary: s) auto

lemma with_matches_other:
  "(\<And>m. m \<in> set mids \<Longrightarrow> k \<noteq> matchScoreKey m) \<Longrightarrow> with_matches mids rs s k = s k"
  by (induction mids arbitrary: s) auto

lemma with_matches_range: "k \<notin> range matchScoreKey \<Longrightarrow> with_matches mids rs s k = s k"
  by (rule with_matches_other) blast

lemma upd_other: "k \<notin> range f \<Longrightarrow> (s(f x := v)) k = s k"
  by auto

lemma rebuild_matches_ok:
  assumes rp: "answering rp" and ord: "permutes_keys ord"
    and mids: "\<forall>m \<in> set mids. match_orders m rs \<noteq> []"
  shows "\<exists>n'. rebuild_matches rp ord (fold add_match rs []) mids (s, n) =
     (Inr (), with_matches mids rs s, n')"
  using mids
proof (induction mids arbitrary: s n)
  case Nil
  then show ?case by (simp add: redis_return_def)
next
  case (Cons m mids)
  let ?per = "inner (fold add_match rs []) m"
  let ?fvs = "map (\<lambda>c. (creator_field c, entry ?per c)) (ord (map fst ?per))"
  let ?s = "s(matchScoreKey m \<mapsto> Hash (match_board m rs))"
  have keys: "fst ` set ?per = go_CreatorID ` set (match_orders m rs)"
    using fold_add_match_inner_keys [of rs "[]" m] by (simp add: inner_def)
  have d: "distinct (map fst ?fvs)"
    using ord distinct_fold_add_match_inner [of "[]" m rs] by (intro distinct_keyed) (simp_all add: inner_def)
  have b: "map_of ?fvs = match_board m rs"
    unfolding match_board_def board_def
    by (rule map_of_keyed_cong)
      (use ord keys in \<open>simp_all add: fold_add_match\<close>)
  have ne: "?per \<noteq> []" using keys Cons.prems by force
  have "rebuild_matches rp ord (fold add_match rs []) (m # mids) (s, n) =
      rebuild_matches rp ord (fold add_match rs []) mids (?s, Suc (Suc n))"
    using ne ord d b
    by (simp add: Let_def redis_then_def redis_call_del [OF rp] redis_call_hset [OF rp])
  moreover obtain n' where "rebuild_matches rp ord (fold add_match rs []) mids (?s, Suc (Suc n)) =
      (Inr (), with_matches mids rs ?s, n')"
    using Cons.IH [of ?s "Suc (Suc n)"] Cons.prems by (metis list.set_intros(2))
  ultimately show ?case by (simp only: with_matches.simps) blast
qed

text \<open>The campaign: the totals of its creators over all its sessions.\<close>

definition campaign_board :: "u64 \<Rightarrow> db \<Rightarrow> string \<rightharpoonup> int" where
  "campaign_board cid d = board FormatUint go_CreatorID coins (campaign_orders cid d)"

lemma scan_campaign_ok:
  "\<forall>p \<in> set rows. 0 \<le> snd p \<and> snd p < 2 ^ 53 \<Longrightarrow>
     scan_campaign rows = Inr (map (\<lambda>p. (FormatUint (fst p), snd p)) rows)"
  by (induction rows rule: scan_campaign.induct)
    (auto simp: scan_int64_def in_i64_def f64_exact)

lemma campaign_scores_ok:
  assumes "sum_list (map coins (campaign_orders cid d)) < 2 ^ 53"
  shows "\<exists>zs. SelectCampaignScores cid t d = (Inr zs, id) \<and> distinct (map fst zs) \<and>
     map_of zs = campaign_board cid d \<and> (zs = [] \<longleftrightarrow> campaign_orders cid d = [])"
proof -
  let ?rs = "campaign_orders cid d"
  let ?ps = "groups_by go_CreatorID coins ?rs"
  have "\<forall>p \<in> set ?ps. 0 \<le> snd p \<and> snd p < 2 ^ 53"
    using assms total_by_le [of ?rs coins go_CreatorID] total_by_nonneg [of ?rs coins go_CreatorID]
    by (auto simp: set_groups_by intro: le_less_trans)
  then have scan: "scan_campaign ?ps =
      Inr (map (\<lambda>k. (FormatUint k, total_by go_CreatorID coins k ?rs)) (sort (remdups (map go_CreatorID ?rs))))"
    by (simp add: scan_campaign_ok) (simp add: groups_by_def comp_def)
  have none: "sort (remdups (map go_CreatorID ?rs)) = [] \<longleftrightarrow> ?rs = []"
    using groups_by_empty [of go_CreatorID coins ?rs] by (simp add: groups_by_def)
  show ?thesis
    unfolding SelectCampaignScores_def scan campaign_board_def board_def
    by (intro exI conjI, rule refl, rule distinct_keyed, simp, simp, rule map_of_keyed_cong, simp, simp,
        rule refl) (simp add: none)
qed

text \<open>
  What a session needs for its rebuild: it exists, its identifiers can be scanned, and its
  totals stay exact as \<open>float64\<close> and \<open>int64\<close>.
\<close>

definition rebuildable :: "u64 \<Rightarrow> db \<Rightarrow> bool" where
  "rebuildable sid d \<longleftrightarrow>
     int64_ids (session_orders sid d) \<and>
     sum_list (map coins (session_orders sid d)) < 2 ^ 53 \<and>
     sum_list (map match_points (session_orders sid d)) < 2 ^ 63 \<and>
     (case find (\<lambda>s. ls_LiveSessionID s = sid) (live_sessions d) of
       None \<Rightarrow> False
     | Some s \<Rightarrow> (case ls_CampaignID s of
         None \<Rightarrow> True
       | Some cid \<Rightarrow> uint cid < 2 ^ 63 \<and> sum_list (map coins (campaign_orders cid d)) < 2 ^ 53))"

definition session_campaign :: "u64 \<Rightarrow> db \<Rightarrow> u64 option" where
  "session_campaign sid d = (case find (\<lambda>s. ls_LiveSessionID s = sid) (live_sessions d) of
     None \<Rightarrow> None | Some s \<Rightarrow> ls_CampaignID s)"

definition rebuilt :: "u64 \<Rightarrow> db \<Rightarrow> redis \<Rightarrow> redis \<Rightarrow> bool" where
  "rebuilt sid d s s' \<longleftrightarrow> (let rs = session_orders sid d in
     (\<forall>k. s' (contributorKey k) =
        (if k = sid then board_value (board FormatUint go_ViewerID coins rs) else s (contributorKey k))) \<and>
     (\<forall>m. s' (matchScoreKey m) =
        (if match_orders m rs = [] then s (matchScoreKey m) else Some (Hash (match_board m rs)))) \<and>
     (\<forall>cid. s' (campaignKey cid) =
        (if session_campaign sid d = Some cid then board_value (campaign_board cid d)
         else s (campaignKey cid))) \<and>
     (\<forall>key. key \<notin> range contributorKey \<union> range matchScoreKey \<union> range campaignKey \<longrightarrow> s' key = s key))"

text \<open>A query outside a transaction, when nothing fails.\<close>

lemma calm_read:
  assumes "calm e" and "snd (q (now e m) d) = id"
  shows "auto_exec e q (at d id m) = (fst (q (now e m) d), at d id (Suc m))"
  using assms by (cases "q (now e m) d")
    (simp add: auto_exec_def auto_exec_alloc_def exec_alloc_def calm_def Let_def view_def)

lemma campaign_phase:
  assumes c: "calm e" and rp: "answering rp" and ok: "rebuildable sid d"
  shows "\<exists>n'. rebuild_session_campaign e rp sid (at d id k) (s, n) =
    (Inr (), at d id n',
     case session_campaign sid d of None \<Rightarrow> s
     | Some cid \<Rightarrow> s(campaignKey cid := board_value (campaign_board cid d)))"
proof -
  obtain x where x: "find (\<lambda>s. ls_LiveSessionID s = sid) (live_sessions d) = Some x"
    using ok by (auto simp: rebuildable_def split: option.splits)
  have scan: "SelectCampaignID sid t d = (Inr (map_option uint (ls_CampaignID x)), id)" for t
    using ok x by (cases "ls_CampaignID x")
      (simp_all add: SelectCampaignID_def rebuildable_def)
  show ?thesis
  proof (cases "ls_CampaignID x")
    case None
    with scan x show ?thesis
      by (simp add: rebuild_session_campaign_def session_campaign_def calm_read [OF c])
  next
    case (Some cid)
    then have "sum_list (map coins (campaign_orders cid d)) < 2 ^ 53"
      using ok x by (simp add: rebuildable_def)
    then obtain zs where zs: "\<And>t. SelectCampaignScores cid t d = (Inr zs, id)" "distinct (map fst zs)"
      "map_of zs = campaign_board cid d" "zs = [] \<longleftrightarrow> campaign_orders cid d = []"
      using campaign_scores_ok [of cid d] unfolding SelectCampaignScores_def by blast
    with Some scan x show ?thesis
      by (auto simp: rebuild_session_campaign_def rebuild_campaign_def session_campaign_def calm_read [OF c]
          redis_call_del [OF rp] redis_call_zadd [OF rp] board_value_def campaign_board_def board_empty)
  qed
qed

theorem RebuildLiveSession_runs:
  assumes c: "calm e" and rp: "answering rp" and ord: "permutes_keys ord" and ok: "rebuildable sid d"
  shows "\<exists>s'. RebuildLiveSession e rp ord sid (d, s) = (Inr (), d, s') \<and> rebuilt sid d s s'"
proof -
  let ?rs = "session_orders sid d"
  let ?mids = "ord (map fst (fold add_match ?rs []))"
  let ?s1 = "s(contributorKey sid := board_value (board FormatUint go_ViewerID coins ?rs))"
  let ?s2 = "with_matches ?mids ?rs ?s1"
  have rows: "rebuild_rows ?rs [] [] = Inr (fold add_contrib ?rs [], fold add_match ?rs [])"
    using ok by (intro rebuild_rows_ok) (simp_all add: rebuildable_def room_def below_def)
  have mids: "set ?mids = {m. match_orders m ?rs \<noteq> []}"
    using fold_add_match_keys [of ?rs "[]"] ord
    by (auto simp: match_orders_def filter_empty_conv image_iff) (metis)+
  obtain n1 where p1: "rebuild_contributors rp ord sid (fold add_contrib ?rs []) (s, 0) = (Inr (), ?s1, n1)"
    using rebuild_contributors_ok [OF rp ord] by blast
  obtain n2 where p2: "rebuild_matches rp ord (fold add_match ?rs []) ?mids (?s1, n1) = (Inr (), ?s2, n2)"
    using rebuild_matches_ok [OF rp ord, of ?mids ?rs ?s1 n1] mids by blast
  obtain n3 where p3: "rebuild_session_campaign e rp sid (at d id 1) (?s2, n2) =
    (Inr (), at d id n3, case session_campaign sid d of None \<Rightarrow> ?s2
     | Some cid \<Rightarrow> ?s2(campaignKey cid := board_value (campaign_board cid d)))"
    using campaign_phase [OF c rp ok] by blast
  show ?thesis
  proof (intro exI conjI)
    show "RebuildLiveSession e rp ord sid (d, s) = (Inr (), d, case session_campaign sid d of
        None \<Rightarrow> ?s2 | Some cid \<Rightarrow> ?s2(campaignKey cid := board_value (campaign_board cid d)))"
      using p1 p2 p3 rows
      by (simp add: RebuildLiveSession_def connect_def calm_read [OF c] SelectAccepted_def redis_then_def)
    show "rebuilt sid d s (case session_campaign sid d of
        None \<Rightarrow> ?s2 | Some cid \<Rightarrow> ?s2(campaignKey cid := board_value (campaign_board cid d)))"
      using mids by (auto simp: rebuilt_def Let_def with_matches_at with_matches_other with_matches_range upd_other
          split: option.splits)
  qed
qed

end
