(* ===== verification/LiveBoards.thy ===== *)
theory LiveBoards
  imports Boards
begin

text \<open>
  The boards as they grow event by event. When every accepted gift has reached the projector
  once, the boards are those that a rebuild computes from the orders, so that a rebuild changes
  nothing.
\<close>

section \<open>Boards over events\<close>

abbreviation event_coins :: "LiveGiftAcceptedV1 \<Rightarrow> int" where
  "event_coins x \<equiv> uint (lga_ChargedCoins x)"

abbreviation event_points :: "LiveGiftAcceptedV1 \<Rightarrow> int" where
  "event_points x \<equiv> uint (lga_MatchPoints x)"

definition session_board :: "u64 \<Rightarrow> LiveGiftAcceptedV1 list \<Rightarrow> string \<rightharpoonup> int" where
  "session_board sid xs =
     board FormatUint lga_ViewerID event_coins (filter (\<lambda>x. lga_LiveSessionID x = sid) xs)"

definition creators_board :: "u64 \<Rightarrow> LiveGiftAcceptedV1 list \<Rightarrow> string \<rightharpoonup> int" where
  "creators_board cid xs =
     board FormatUint lga_CreatorID event_coins (filter (\<lambda>x. lga_CampaignID x = Some cid) xs)"

definition points_board :: "u64 \<Rightarrow> LiveGiftAcceptedV1 list \<Rightarrow> string \<rightharpoonup> i64" where
  "points_board m xs =
     board creator_field lga_CreatorID event_points (filter (\<lambda>x. lga_MatchID x = Some m) xs)"

definition hash_value :: "(string \<rightharpoonup> i64) \<Rightarrow> redis_value option" where
  "hash_value b = (if b = Map.empty then None else Some (Hash b))"

definition tracks :: "LiveGiftAcceptedV1 list \<Rightarrow> redis \<Rightarrow> bool" where
  "tracks xs s \<longleftrightarrow>
     (\<forall>sid. s (contributorKey sid) = board_value (session_board sid xs)) \<and>
     (\<forall>cid. s (campaignKey cid) = board_value (creators_board cid xs)) \<and>
     (\<forall>m. s (matchScoreKey m) = hash_value (points_board m xs))"

lemma tracks_empty: "tracks [] Map.empty"
  by (simp add: tracks_def session_board_def creators_board_def points_board_def board_def
      board_value_def hash_value_def)

lemma board_other: "x \<notin> name ` key ` set rs \<Longrightarrow> board name key amount rs x = None"
  by (force simp: board_def map_of_eq_None_iff)

lemma board_at:
  assumes "inj name"
  shows "board name key amount rs (name k) =
     (if k \<in> key ` set rs then Some (total_by key amount k rs) else None)"
proof (cases "k \<in> key ` set rs")
  case True
  then have "k \<in> set (remdups (map key rs))" by simp
  then have "board name key amount rs (name k) = Some (total_by key amount k rs)"
    unfolding board_def by (intro iffD2 [OF map_of_keyed [OF assms]] bexI [of _ k]) simp_all
  with True show ?thesis by simp
next
  case False
  then have "name k \<notin> name ` key ` set rs" using assms by (auto dest: injD)
  with False show ?thesis by (simp add: board_other)
qed

lemma board_snoc:
  assumes "inj name"
  shows "board name key amount (rs @ [r]) =
    (board name key amount rs)(name (key r) \<mapsto> total_by key amount (key r) rs + amount r)"
proof
  fix x
  show "board name key amount (rs @ [r]) x =
    ((board name key amount rs)(name (key r) \<mapsto> total_by key amount (key r) rs + amount r)) x"
  proof (cases "x \<in> range name")
    case True
    then obtain k where "x = name k" by blast
    with assms show ?thesis by (auto simp: board_at inj_eq total_by_Cons)
  next
    case False
    then have "x \<notin> name ` key ` set ys" for ys by blast
    with False show ?thesis by (auto simp: board_other)
  qed
qed

lemma board_Nil [simp]: "board name key amount [] = Map.empty"
  by (simp add: board_def)

lemma board_single [simp]: "board name key amount [r] = [name (key r) \<mapsto> amount r]"
  by (simp add: board_def total_by_Cons)

text \<open>The score an increment finds.\<close>

lemma board_old:
  assumes "inj name"
  shows "(case board name key amount rs (name k) of None \<Rightarrow> 0 | Some v \<Rightarrow> v) = total_by key amount k rs"
  using assms by (simp add: board_at total_by_none)

section \<open>One event\<close>

definition once :: "(nat \<Rightarrow> reply) \<Rightarrow> bool" where
  "once rp \<longleftrightarrow> (\<forall>n. rp n = Acked 0)"

lemma redis_call_once: "once rp \<Longrightarrow> redis_call rp cmd (s, n) = (fst (cmd s), snd (cmd s), Suc n)"
  by (simp add: once_def redis_call_def split: prod.splits)

lemma ZIncrBy_board:
  assumes "inj name" and "s key = board_value (board name f am rs)"
    and "\<bar>total_by f am (f r) rs + am r\<bar> < 2 ^ 53"
  shows "ZIncrBy key (am r) (name (f r)) s =
    (Inr (), s(key := board_value (board name f am (rs @ [r]))))"
proof -
  have "zset_at key s = board name f am rs" using assms(2) by (simp add: zset_at_def board_value_def)
  with assms show ?thesis
    by (cases "rs = []") (simp_all add: ZIncrBy_def board_value_def board_empty board_old board_snoc f64_exact Let_def)
qed

lemma HIncrBy_board:
  assumes "inj name" and "s key = hash_value (board name f am rs)"
    and "in_i64 (total_by f am (f r) rs + am r)"
  shows "HIncrBy key (name (f r)) (am r) s =
    (Inr (), s(key := hash_value (board name f am (rs @ [r]))))"
proof -
  have "hash_at key s = board name f am rs" using assms(2) by (simp add: hash_at_def hash_value_def)
  with assms show ?thesis
    by (cases "rs = []") (simp_all add: HIncrBy_def hash_value_def board_empty board_old board_snoc Let_def)
qed

text \<open>The totals that \<open>float64\<close> and \<open>int64\<close> keep exactly.\<close>

definition exact_totals :: "LiveGiftAcceptedV1 list \<Rightarrow> bool" where
  "exact_totals xs \<longleftrightarrow> sum_list (map event_coins xs) < 2 ^ 53 \<and> sum_list (map event_points xs) < 2 ^ 63"

lemma total_filter_bound:
  assumes "sum_list (map am xs) + am x < B" and "\<And>y. 0 \<le> (am y :: int)"
  shows "0 \<le> total_by f am k (filter P xs) + am x \<and> total_by f am k (filter P xs) + am x < B"
proof -
  have "total_by f am k (filter P xs) \<le> sum_list (map am (filter P xs))"
    using assms(2) by (intro total_by_le)
  also have "\<dots> \<le> sum_list (map am xs)" using assms(2) by (intro sum_list_filter_le)
  finally have "total_by f am k (filter P xs) + am x < B" using assms(1) by simp
  moreover have "0 \<le> total_by f am k (filter P xs)" using assms(2) by (intro total_by_nonneg)
  ultimately show ?thesis using assms(2) [of x] by simp
qed

lemma apply_scores_tracks:
  assumes rp: "once rp" and tr: "tracks xs s" and ex: "exact_totals (xs @ [x])"
  shows "\<exists>s' n. apply_scores rp x (s, 0) = (Inr (), s', n) \<and> tracks (xs @ [x]) s'"
proof -
  have f: "f64 (event_coins x) = event_coins x"
    using uint_lt2p [of "lga_ChargedCoins x"] by (intro f64_exact) simp
  have bc: "\<bar>total_by f event_coins k (filter P xs) + event_coins x\<bar> < 2 ^ 53" for f k P
    using total_filter_bound [of event_coins xs x "2 ^ 53"] ex by (simp add: exact_totals_def)
  have bp: "in_i64 (total_by f event_points k (filter P xs) + event_points x)" for f k P
    using total_filter_bound [of event_points xs x "2 ^ 63"] ex
    by (intro in_i64_nonneg) (simp_all add: exact_totals_def)
  note unf = tracks_def session_board_def creators_board_def points_board_def
  let ?P = "\<lambda>y. lga_LiveSessionID y = lga_LiveSessionID x"
  let ?s1 = "s(contributorKey (lga_LiveSessionID x) :=
     board_value (board FormatUint lga_ViewerID event_coins (filter ?P xs @ [x])))"
  have z1: "ZIncrBy (contributorKey (lga_LiveSessionID x)) (event_coins x) (FormatUint (lga_ViewerID x)) s =
     (Inr (), ?s1)"
    using tr bc by (intro ZIncrBy_board [where r = x]) (simp_all add: unf)
  have z2: "ZIncrBy (campaignKey cid) (event_coins x) (FormatUint (lga_CreatorID x)) t =
     (Inr (), t(campaignKey cid := board_value (board FormatUint lga_CreatorID event_coins
        (filter (\<lambda>y. lga_CampaignID y = Some cid) xs @ [x]))))"
    if "t (campaignKey cid) = s (campaignKey cid)" for t cid
    using tr bc that by (intro ZIncrBy_board [where r = x]) (simp_all add: unf)
  have z3: "HIncrBy (matchScoreKey m) (creator_field (lga_CreatorID x)) (event_points x) t =
     (Inr (), t(matchScoreKey m := hash_value (board creator_field lga_CreatorID event_points
        (filter (\<lambda>y. lga_MatchID y = Some m) xs @ [x]))))"
    if "t (matchScoreKey m) = s (matchScoreKey m)" for t m
    using tr bp that by (intro HIncrBy_board [where r = x]) (simp_all add: unf)
  show ?thesis
    using tr
    by (cases "lga_CampaignID x"; cases "lga_MatchID x")
      (auto simp: apply_scores_def redis_then_def redis_return_def redis_call_once [OF rp] f z1 z2 z3 unf)
qed

section \<open>All events\<close>

text \<open>A consumer that works through the events, each delivered once.\<close>

primrec consume_all ::
  "env \<Rightarrow> (nat \<Rightarrow> reply) \<Rightarrow> (u64 \<times> LiveGiftAcceptedV1) list \<Rightarrow> db \<times> redis \<Rightarrow> db \<times> redis" where
  "consume_all e rp [] st = st"
| "consume_all e rp (x # xs) st = consume_all e rp xs (snd (ApplyAcceptedGift e rp (fst x) (snd x) st))"

definition new_events :: "(string \<Rightarrow> string) \<Rightarrow> u64 list \<Rightarrow> db \<Rightarrow> bool" where
  "new_events coll eids d \<longleftrightarrow> distinct eids \<and> (\<forall>i \<in> set eids. \<not> dedupe_known consumerName coll i d)"

lemma exact_totals_prefix:
  assumes "exact_totals (xs @ ys)" shows "exact_totals xs"
proof -
  have "0 \<le> sum_list (map event_coins ys)" "0 \<le> sum_list (map event_points ys)"
    by (simp_all add: sum_list_map_nonneg)
  with assms show ?thesis by (simp add: exact_totals_def)
qed

lemma consume_all_tracks:
  assumes c: "calm e" and rp: "once rp"
    and "new_events (collate e) (map fst evs) d" and "tracks xs s" and "exact_totals (xs @ map snd evs)"
  shows "tracks (xs @ map snd evs) (snd (consume_all e rp evs (d, s)))"
  using assms(3-)
proof (induction evs arbitrary: xs d s)
  case (Cons x evs)
  obtain eid evt where x: "x = (eid, evt)" by force
  let ?d = "consumer_dedupe_update (\<lambda>rs. rs @ [dedupe_row consumerName eid (now e 1)]) d"
  have "exact_totals ((xs @ [evt]) @ map snd evs)" using Cons.prems(3) x by simp
  then have "exact_totals (xs @ [evt])" by (rule exact_totals_prefix)
  then obtain s' n where s': "apply_scores rp evt (s, 0) = (Inr (), s', n)" "tracks (xs @ [evt]) s'"
    using apply_scores_tracks [OF rp Cons.prems(2)] by blast
  have "ApplyAcceptedGift e rp eid evt (d, s) = (Inr (), ?d, s')"
    using Cons.prems(1) x s'(1) by (simp add: ApplyAcceptedGift_def claim_event_runs [OF c] new_events_def)
  moreover have "new_events (collate e) (map fst evs) ?d"
    using Cons.prems(1) x by (auto simp: new_events_def dedupe_known_def dedupe_row_def)
  ultimately show ?case
    using Cons.IH [of ?d "xs @ [evt]" s'] Cons.prems(3) s'(2) x by simp
qed simp

section \<open>The events of the orders\<close>

text \<open>The event that announces an accepted order; its campaign is that of the session.\<close>

definition order_event :: "db \<Rightarrow> GiftOrder \<Rightarrow> LiveGiftAcceptedV1" where
  "order_event d g =
     \<lparr>lga_EventType = giftAcceptedTopic, lga_GiftOrderID = go_GiftOrderID g,
      lga_ViewerID = go_ViewerID g, lga_CreatorID = go_CreatorID g,
      lga_LiveSessionID = go_LiveSessionID g, lga_CampaignID = session_campaign (go_LiveSessionID g) d,
      lga_MatchID = go_MatchID g, lga_GiftID = go_GiftID g, lga_Quantity = go_Quantity g,
      lga_ChargedCoins = go_ChargedCoins g, lga_MatchPoints = go_MatchPointsAdded g,
      lga_DiamondReward = go_DiamondReward g, lga_RequestID = go_RequestID g\<rparr>"

definition accepted_orders :: "db \<Rightarrow> GiftOrder list" where
  "accepted_orders d = filter (\<lambda>g. go_Status g = ACCEPTED) (gift_orders d)"

lemma total_by_map: "total_by key amount k (map f rs) = total_by (\<lambda>r. key (f r)) (\<lambda>r. amount (f r)) k rs"
  by (simp add: total_by_def filter_map comp_def)

lemma board_map: "board name key amount (map f rs) = board name (\<lambda>r. key (f r)) (\<lambda>r. amount (f r)) rs"
  by (simp add: board_def total_by_map comp_def)

text \<open>
  What the tables keep of sessions and matches: one row per identifier, and a gift is accepted
  only for a match of its session.
\<close>

definition placed :: "db \<Rightarrow> bool" where
  "placed d \<longleftrightarrow>
     distinct (map ls_LiveSessionID (live_sessions d)) \<and> distinct (map lm_MatchID (live_matches d)) \<and>
     (\<forall>g \<in> set (accepted_orders d). \<forall>m. go_MatchID g = Some m \<longrightarrow>
        (\<exists>r \<in> set (live_matches d). lm_MatchID r = m \<and> lm_LiveSessionID r = go_LiveSessionID g))"

lemma session_board_orders:
  "session_board sid (map (order_event d) (accepted_orders d)) =
     board FormatUint go_ViewerID coins (session_orders sid d)"
  by (simp add: session_board_def accepted_orders_def session_orders_def filter_map comp_def
      order_event_def board_map conj_commute)

lemma points_board_orders:
  assumes pl: "placed d" and some: "match_orders m (session_orders sid d) \<noteq> []"
  shows "points_board m (map (order_event d) (accepted_orders d)) = match_board m (session_orders sid d)"
proof -
  obtain g0 where g0: "g0 \<in> set (accepted_orders d)" "go_MatchID g0 = Some m" "go_LiveSessionID g0 = sid"
    using some by (auto simp: match_orders_def session_orders_def accepted_orders_def filter_empty_conv)
  have "go_LiveSessionID g = sid" if g: "g \<in> set (accepted_orders d)" "go_MatchID g = Some m" for g
  proof -
    obtain r where r: "r \<in> set (live_matches d)" "lm_MatchID r = m" "lm_LiveSessionID r = go_LiveSessionID g"
      using pl g unfolding placed_def by blast
    obtain r0 where r0: "r0 \<in> set (live_matches d)" "lm_MatchID r0 = m" "lm_LiveSessionID r0 = sid"
      using pl g0 unfolding placed_def by blast
    have "r = r0" using pl r r0 by (auto simp: placed_def distinct_map dest: inj_onD)
    with r r0 show ?thesis by simp
  qed
  then have "filter (\<lambda>g. go_MatchID g = Some m) (accepted_orders d) = match_orders m (session_orders sid d)"
    unfolding match_orders_def session_orders_def accepted_orders_def filter_filter
    by (intro filter_cong) (auto simp: accepted_orders_def)
  then show ?thesis
    by (simp add: points_board_def match_board_def filter_map comp_def order_event_def board_map)
qed

lemma creators_board_orders:
  assumes "placed d"
  shows "creators_board cid (map (order_event d) (accepted_orders d)) = campaign_board cid d"
proof -
  have "session_campaign sid d = Some cid \<longleftrightarrow>
      list_ex (\<lambda>s. ls_LiveSessionID s = sid \<and> ls_CampaignID s = Some cid) (live_sessions d)" for sid
  proof
    assume "session_campaign sid d = Some cid"
    then show "list_ex (\<lambda>s. ls_LiveSessionID s = sid \<and> ls_CampaignID s = Some cid) (live_sessions d)"
      by (auto simp: session_campaign_def list_ex_iff split: option.splits dest!: find_SomeD)
  next
    assume "list_ex (\<lambda>s. ls_LiveSessionID s = sid \<and> ls_CampaignID s = Some cid) (live_sessions d)"
    then obtain x where x: "x \<in> set (live_sessions d)" "ls_LiveSessionID x = sid" "ls_CampaignID x = Some cid"
      by (auto simp: list_ex_iff)
    then have "find (\<lambda>s. ls_LiveSessionID s = sid) (live_sessions d) = Some x"
      using assms by (intro find_unique [where k = ls_LiveSessionID]) (auto simp: placed_def)
    with x show "session_campaign sid d = Some cid" by (simp add: session_campaign_def)
  qed
  then show ?thesis
    by (simp add: creators_board_def campaign_board_def campaign_orders_def accepted_orders_def filter_map
        comp_def order_event_def board_map conj_commute)
qed

text \<open>So a rebuild of any session leaves boards that have seen every order as they are.\<close>

lemma rebuilt_tracks:
  assumes tr: "tracks (map (order_event d) (accepted_orders d)) s" and pl: "placed d"
    and re: "rebuilt sid d s s'"
  shows "s' = s"
proof
  fix key
  have "s' (contributorKey k) = s (contributorKey k)" for k
    using re tr by (simp add: rebuilt_def Let_def tracks_def session_board_orders)
  moreover have "s' (campaignKey k) = s (campaignKey k)" for k
    using re tr by (simp add: rebuilt_def Let_def tracks_def creators_board_orders [OF pl])
  moreover have "s' (matchScoreKey k) = s (matchScoreKey k)" for k
    using re tr points_board_orders [OF pl, of k sid]
    by (auto simp: rebuilt_def Let_def tracks_def hash_value_def match_board_def board_empty)
  moreover have "\<forall>key. key \<notin> range contributorKey \<union> range matchScoreKey \<union> range campaignKey \<longrightarrow>
      s' key = s key"
    using re unfolding rebuilt_def Let_def by (elim conjE)
  ultimately show "s' key = s key"
    by (cases "key \<in> range contributorKey \<union> range matchScoreKey \<union> range campaignKey") auto
qed

end
