(* ===== verification/Projection.thy ===== *)
theory Projection
  imports World LiveBoards
begin

text \<open>
  From the orders to the boards: in every reachable state the outbox holds, in order, exactly
  the events of the accepted orders, so that a projector that has seen each of them once shows
  what a rebuild would compute.
\<close>

definition accepted_rows :: "db \<Rightarrow> OutboxEvent list" where
  "accepted_rows d = filter (\<lambda>x. oe_Topic x = giftAcceptedTopic) (outbox_events d)"

definition projection_inv :: "db \<Rightarrow> bool" where
  "projection_inv d \<longleftrightarrow> placed d \<and>
     map oe_PayloadJson (accepted_rows d) =
       map (\<lambda>g. marshal_gift_accepted (order_event d g)) (accepted_orders d)"

lemma projection_inv_other:
  assumes "projection_inv d" and "live_sessions d' = live_sessions d"
    and "live_matches d' = live_matches d" and "accepted_orders d' = accepted_orders d"
    and "accepted_rows d' = accepted_rows d"
  shows "projection_inv d'"
proof -
  have "order_event d' = order_event d"
    using assms(2) by (simp add: order_event_def session_campaign_def fun_eq_iff)
  with assms show ?thesis by (simp add: projection_inv_def placed_def)
qed

lemma close_rows_campaigns:
  "session_campaign k (d\<lparr>live_sessions := close_rows sid t (live_sessions d)\<rparr>) = session_campaign k d"
proof -
  let ?camp = "\<lambda>ss. case find (\<lambda>s. ls_LiveSessionID s = k) ss of None \<Rightarrow> None | Some s \<Rightarrow> ls_CampaignID s"
  have "?camp (close_rows sid t ss) = ?camp ss" for ss
    by (induction ss) (auto simp: close_rows_def)
  then show ?thesis by (simp add: session_campaign_def)
qed

lemma decision_charge:
  assumes "gift_decision e req d = Charge campaign charged points diamonds"
  shows "campaign = session_campaign (gq_LiveSessionID req) d"
    and "\<And>m. gq_MatchID req = Some m \<Longrightarrow>
      \<exists>r \<in> set (live_matches d). lm_MatchID r = m \<and> lm_LiveSessionID r = gq_LiveSessionID req"
  using assms
  by (auto simp: gift_decision_def session_campaign_def charge_verdict_def open_match_def Let_def
      split: option.splits if_splits dest!: find_SomeD find_SomeD [OF sym])

lemma projection_inv_append:
  assumes inv: "projection_inv d" and ss: "live_sessions d' = live_sessions d"
    and ms: "live_matches d' = live_matches d" and gs: "accepted_orders d' = accepted_orders d @ [g]"
    and rows: "accepted_rows d' = accepted_rows d @ [x]"
    and x: "oe_PayloadJson x = marshal_gift_accepted (order_event d g)"
    and match: "\<And>m. go_MatchID g = Some m \<Longrightarrow>
      \<exists>r \<in> set (live_matches d). lm_MatchID r = m \<and> lm_LiveSessionID r = go_LiveSessionID g"
  shows "projection_inv d'"
proof -
  have "order_event d' = order_event d"
    using ss by (simp add: order_event_def session_campaign_def fun_eq_iff)
  with assms show ?thesis by (auto simp: projection_inv_def placed_def)
qed

lemma projection_gift:
  assumes eff: "gift_effect e req d d'" and inv: "projection_inv d"
  shows "projection_inv d'"
proof (cases "gift_decision e req d")
  case (Reject code st)
  with eff obtain ts where d': "d' = gift_rejected req code ts d" by (auto simp: gift_effect_def)
  show ?thesis
    by (rule projection_inv_other [OF inv])
      (simp_all add: d' gift_rejected_def accepted_orders_def accepted_rows_def outbox_row_def
        rejected_order_def order_row_def)
next
  case (Charge campaign charged points diamonds)
  with eff obtain ts where d': "d' = gift_accepted req campaign charged points diamonds ts d"
    by (auto simp: gift_effect_def)
  note dec = decision_charge [OF Charge]
  show ?thesis
    by (rule projection_inv_append [OF inv,
          where g = "accepted_order req charged points diamonds (wrap64 (balance_of (gq_ViewerID req) d - charged))
            (next_gift_order_id d) (ts 3)"
          and x = "outbox_row (Suc (next_event_id d)) giftAcceptedTopic (FormatUint (gq_LiveSessionID req))
             (gift_accepted_event req (of_nat (next_gift_order_id d)) campaign
                (of_int charged) (of_int points) (of_int diamonds)) (ts 5)"])
      (simp_all add: d' gift_accepted_def Let_def accepted_orders_def accepted_rows_def outbox_row_def
        accepted_order_def order_row_def gift_accepted_event_def order_event_def dec)
next
  case Broken
  with eff show ?thesis by (simp add: gift_effect_def)
qed

lemma projection_change:
  assumes "change coll d d'" and "projection_inv d"
  shows "projection_inv d'"
  using assms
proof (induction rule: change.induct)
  case (none d d')
  then show ?case
    by (elim projection_inv_other) (simp_all add: untouched_iff accepted_orders_def accepted_rows_def)
next
  case (recharged e req d d')
  then show ?case
    by (elim projection_inv_other)
      (auto simp: recharge_effect_def recharged_def Let_def accepted_orders_def accepted_rows_def outbox_row_def)
next
  case (gifted e req d d')
  then show ?case using projection_gift by blast
next
  case (closed sid d e t t')
  let ?d = "session_closed e sid t t' d"
  have "order_event ?d = order_event d"
    using close_rows_campaigns [where d = d and sid = sid and t = t]
    by (simp add: order_event_def session_closed_rows session_campaign_def fun_eq_iff)
  moreover have "map ls_LiveSessionID (live_sessions ?d) = map ls_LiveSessionID (live_sessions d)"
    by (simp add: session_closed_rows close_rows_def)
  ultimately show ?case using closed
    by (simp add: projection_inv_def placed_def)
      (simp add: session_closed_rows accepted_orders_def accepted_rows_def outbox_row_def)
next
  case (settled sid d t t')
  then show ?case
    by (elim projection_inv_other) (simp_all add: settled_def accepted_orders_def accepted_rows_def)
next
  case (ingested d rows)
  then show ?case
    by (elim projection_inv_other)
      (auto simp: ingested_def accepted_orders_def accepted_rows_def ingest_rows_def list_all_iff filter_empty_conv)
next
  case (projected e ev d d')
  then show ?case
    by (elim projection_inv_other)
      (auto simp: points_effect_def projected_def accepted_orders_def accepted_rows_def)
next
  case (claimed e eid d d')
  then show ?case
    by (elim projection_inv_other) (auto simp: claimed_def accepted_orders_def accepted_rows_def)
qed

lemma projection_stable: "stable coll projection_inv"
proof -
  have "projection_inv (marked t xs d)" if inv: "projection_inv d" for t xs d
  proof -
    have "map oe_PayloadJson (accepted_rows (marked t xs d)) = map oe_PayloadJson (accepted_rows d)"
      by (simp add: accepted_rows_def outbox_marked filter_map comp_def)
    moreover have "order_event (marked t xs d) = order_event d"
      by (simp add: order_event_def session_campaign_def marked_def fun_eq_iff)
    ultimately show ?thesis
      using inv by (simp add: projection_inv_def placed_def) (simp add: accepted_orders_def marked_def)
  qed
  with projection_change show ?thesis by (auto simp: stable_def)
qed

section \<open>The boards\<close>

lemma json_word_inject [simp]: "json_word a = json_word b \<longleftrightarrow> a = b"
  by (simp add: json_word_def word_uint_eq_iff)

lemma marshal_gift_accepted_inject:
  "marshal_gift_accepted x = marshal_gift_accepted y \<Longrightarrow> x = y"
  by (cases x; cases y)
    (auto simp: marshal_gift_accepted_def omitempty_def split: option.splits)

text \<open>The numbered events that the rows of the outbox carry.\<close>

definition carries :: "(u64 \<times> LiveGiftAcceptedV1) list \<Rightarrow> OutboxEvent list \<Rightarrow> bool" where
  "carries evs rows \<longleftrightarrow>
     map fst evs = map oe_EventID rows \<and>
     map (\<lambda>x. marshal_gift_accepted (snd x)) evs = map oe_PayloadJson rows"

lemma carries_orders:
  assumes "carries evs (accepted_rows d)" and "projection_inv d"
  shows "map snd evs = map (order_event d) (accepted_orders d)"
proof -
  have "map marshal_gift_accepted (map snd evs) = map marshal_gift_accepted (map (order_event d) (accepted_orders d))"
    using assms by (simp add: carries_def projection_inv_def comp_def)
  then show ?thesis
    by (rule map_injective) (auto simp: inj_def dest: marshal_gift_accepted_inject)
qed

lemma carries_new:
  assumes "carries evs (accepted_rows d)" and "event_ids_inv d"
    and "\<forall>r \<in> set (consumer_dedupe d). coll (cd_ConsumerName r) \<noteq> coll consumerName"
  shows "new_events coll (map fst evs) d"
proof -
  have "distinct (map oe_EventID (accepted_rows d))"
    using assms(2) by (simp add: event_ids_inv_def event_ids_def accepted_rows_def distinct_map_filter)
  with assms(1,3) show ?thesis by (auto simp: new_events_def carries_def dedupe_known_def list_ex_iff)
qed

text \<open>The projector changes no table but its own.\<close>

lemma ApplyAcceptedGift_db:
  assumes c: "calm e"
  shows "\<exists>f. fst (snd (ApplyAcceptedGift e rp eid evt st)) = consumer_dedupe_update f (fst st)"
proof (cases "dedupe_known consumerName (collate e) eid (fst st)")
  case True
  then show ?thesis
    by (intro exI [of _ id]) (simp add: ApplyAcceptedGift_def claim_event_runs [OF c])
next
  case False
  then show ?thesis
    by (intro exI [of _ "\<lambda>rs. rs @ [dedupe_row consumerName eid (now e 1)]"])
      (simp add: ApplyAcceptedGift_def claim_event_runs [OF c] split: prod.splits)
qed

lemma consume_all_db:
  assumes c: "calm e"
  shows "\<exists>f. fst (consume_all e rp evs st) = consumer_dedupe_update f (fst st)"
proof (induction evs arbitrary: st)
  case Nil
  show ?case by (rule exI [of _ id]) simp
next
  case (Cons x evs)
  obtain f where f: "fst (snd (ApplyAcceptedGift e rp (fst x) (snd x) st)) = consumer_dedupe_update f (fst st)"
    using ApplyAcceptedGift_db [OF c] by blast
  obtain g where "fst (consume_all e rp (x # evs) st) =
      consumer_dedupe_update g (fst (snd (ApplyAcceptedGift e rp (fst x) (snd x) st)))"
    using Cons.IH [of "snd (ApplyAcceptedGift e rp (fst x) (snd x) st)"] by auto
  then show ?case by (intro exI [of _ "g \<circ> f"]) (simp add: f)
qed

lemma dedupe_irrelevant [simp]:
  "accepted_orders (consumer_dedupe_update f d) = accepted_orders d"
  "placed (consumer_dedupe_update f d) = placed d"
  "order_event (consumer_dedupe_update f d) = order_event d"
  "session_orders sid (consumer_dedupe_update f d) = session_orders sid d"
  "campaign_orders cid (consumer_dedupe_update f d) = campaign_orders cid d"
  by (simp_all add: accepted_orders_def placed_def order_event_def session_campaign_def fun_eq_iff
      session_orders_def campaign_orders_def)

lemma dedupe_rebuildable [simp]: "rebuildable sid (consumer_dedupe_update f d) = rebuildable sid d"
  by (simp add: rebuildable_def cong: option.case_cong)

theorem boards_settled:
  assumes inv: "projection_inv d" and ids: "event_ids_inv d"
    and fresh: "\<forall>r \<in> set (consumer_dedupe d). collate e (cd_ConsumerName r) \<noteq> collate e consumerName"
    and evs: "carries evs (accepted_rows d)" and c: "calm e" "once rp"
    and ex: "exact_totals (map snd evs)"
    and re: "calm e'" "answering rp'" "permutes_keys ord" "rebuildable sid d"
  defines "st \<equiv> consume_all e rp evs (d, Map.empty)"
  shows "RebuildLiveSession e' rp' ord sid st = (Inr (), st)"
proof -
  obtain f where f: "fst st = consumer_dedupe_update f d"
    using consume_all_db [OF c(1), of rp evs "(d, Map.empty)"] by (auto simp: st_def)
  have "tracks (map snd evs) (snd st)"
    using consume_all_tracks [OF c carries_new [OF evs ids fresh] tracks_empty] ex by (simp add: st_def)
  then have tr: "tracks (map (order_event (fst st)) (accepted_orders (fst st))) (snd st)"
    using carries_orders [OF evs inv] by (simp add: f)
  obtain s' where s': "RebuildLiveSession e' rp' ord sid (fst st, snd st) = (Inr (), fst st, s')"
    "rebuilt sid (fst st) (snd st) s'"
    using RebuildLiveSession_runs [OF re(1-3), of sid "fst st" "snd st"] re(4) f by auto
  have "placed (fst st)" using inv by (simp add: f projection_inv_def)
  then have "s' = snd st" by (rule rebuilt_tracks [OF tr _ s'(2)])
  with s'(1) show ?thesis by simp
qed

end
