(* ===== verification/Json.thy ===== *)
theory Json
  imports GoStrings
begin

text \<open>
  \<open>encoding/json\<close> as a reader: what \<open>json.Unmarshal\<close> and \<open>json.Decoder\<close> make of a text, and how
  they fill a struct of strings and integers. A number stays the literal it is until it meets a
  field, as in the package.
\<close>

section \<open>Strings\<close>

definition skip_ws :: "nat list \<Rightarrow> nat list" where
  "skip_ws s = dropWhile (\<lambda>b. b \<in> {32, 9, 10, 13}) s"

definition hex_value :: "nat \<Rightarrow> nat option" where
  "hex_value b =
     (if 48 \<le> b \<and> b \<le> 57 then Some (b - 48)
      else if 97 \<le> b \<and> b \<le> 102 then Some (b - 87)
      else if 65 \<le> b \<and> b \<le> 70 then Some (b - 55) else None)"

definition hex4 :: "nat list \<Rightarrow> (nat \<times> nat list) option" where
  "hex4 s = (case s of
     a # b # c # d # rest \<Rightarrow>
       (case (hex_value a, hex_value b, hex_value c, hex_value d) of
         (Some w, Some x, Some y, Some z) \<Rightarrow> Some (((w * 16 + x) * 16 + y) * 16 + z, rest)
       | _ \<Rightarrow> None)
   | _ \<Rightarrow> None)"

text \<open>\<open>utf8.EncodeRune\<close>.\<close>

definition encode_rune :: "nat \<Rightarrow> nat list" where
  "encode_rune r =
     (if r < 0x80 then [r]
      else if r < 0x800 then [0xC0 + r div 64, 0x80 + r mod 64]
      else if r < 0x10000 then [0xE0 + r div 4096, 0x80 + r div 64 mod 64, 0x80 + r mod 64]
      else [0xF0 + r div 262144, 0x80 + r div 4096 mod 64, 0x80 + r div 64 mod 64, 0x80 + r mod 64])"

definition escape_value :: "nat \<Rightarrow> nat option" where
  "escape_value c = map_of [(34, 34), (92, 92), (47, 47), (98, 8), (102, 12), (110, 10), (114, 13), (116, 9)] c"

text \<open>
  The rune of \<open>\uXXXX\<close>, of which the digits follow: a pair of surrogates is one rune, and a lone
  surrogate is replaced.
\<close>

definition unicode_escape :: "nat list \<Rightarrow> (nat \<times> nat list) option" where
  "unicode_escape s =
     (case hex4 s of
       None \<Rightarrow> None
     | Some (r, s1) \<Rightarrow>
         if r < 0xD800 \<or> 0xE000 \<le> r then Some (r, s1)
         else
           (case s1 of
             b # c # s2 \<Rightarrow>
               (case (if b = 92 \<and> c = 117 then hex4 s2 else None) of
                 Some (r', s3) \<Rightarrow>
                   if r < 0xDC00 \<and> 0xDC00 \<le> r' \<and> r' < 0xE000
                   then Some (0x10000 + (r - 0xD800) * 1024 + (r' - 0xDC00), s3)
                   else Some (0xFFFD, s1)
               | None \<Rightarrow> Some (0xFFFD, s1))
           | _ \<Rightarrow> Some (0xFFFD, s1)))"

text \<open>The bytes of a string after its opening quote, and what follows its closing one.\<close>

lemma hex4_shorter: "hex4 s = Some (r, s') \<Longrightarrow> length s' < length s"
  by (auto simp: hex4_def split: list.splits option.splits)

lemma unicode_escape_shorter: "unicode_escape s = Some (r, s') \<Longrightarrow> length s' < length s"
  by (auto simp: unicode_escape_def split: option.splits if_splits list.splits dest!: hex4_shorter)

function unquote :: "nat list \<Rightarrow> (nat list \<times> nat list) option" where
  "unquote s =
     (case s of
       [] \<Rightarrow> None
     | b # bs \<Rightarrow>
         if b = 34 then Some ([], bs)
         else if b = 92 then
           (case bs of
             [] \<Rightarrow> None
           | c # cs \<Rightarrow>
               if c = 117 then
                 (case unicode_escape cs of
                   None \<Rightarrow> None
                 | Some (r, cs') \<Rightarrow> map_option (apfst ((@) (encode_rune r))) (unquote cs'))
               else
                 (case escape_value c of
                   None \<Rightarrow> None
                 | Some x \<Rightarrow> map_option (apfst ((#) x)) (unquote cs)))
         else if b < 32 then None
         else if b < 128 then map_option (apfst ((#) b)) (unquote bs)
         else
           (case decode_rune (b # bs) of
             (r, n) \<Rightarrow> map_option (apfst ((@) (encode_rune r))) (unquote (drop (n - 1) bs))))"
  by auto
termination
  by (relation "measure length") (auto dest!: unicode_escape_shorter)

declare unquote.simps [simp del]

section \<open>Numbers\<close>

definition digits :: "nat list \<Rightarrow> nat list \<times> nat list" where
  "digits s = (takeWhile (\<lambda>b. 48 \<le> b \<and> b \<le> 57) s, dropWhile (\<lambda>b. 48 \<le> b \<and> b \<le> 57) s)"

definition int_part :: "nat list \<Rightarrow> (nat list \<times> nat list) option" where
  "int_part s = (case s of
     [] \<Rightarrow> None
   | b # bs \<Rightarrow> if b = 48 then Some ([48], bs)
       else if 49 \<le> b \<and> b \<le> 57 then Some (digits s) else None)"

definition frac_part :: "nat list \<Rightarrow> (nat list \<times> nat list) option" where
  "frac_part s = (case s of
     [] \<Rightarrow> Some ([], [])
   | b # bs \<Rightarrow>
       if b = 46 then
         (if fst (digits bs) = [] then None else Some (46 # fst (digits bs), snd (digits bs)))
       else Some ([], s))"

definition exp_part :: "nat list \<Rightarrow> (nat list \<times> nat list) option" where
  "exp_part s = (case s of
     [] \<Rightarrow> Some ([], [])
   | b # bs \<Rightarrow>
       if b = 69 \<or> b = 101 then
         (let (sgn, ds) = (case bs of c # cs \<Rightarrow> if c = 43 \<or> c = 45 then ([c], cs) else ([], bs) | [] \<Rightarrow> ([], []))
          in if fst (digits ds) = [] then None
             else Some (b # sgn @ fst (digits ds), snd (digits ds)))
       else Some ([], s))"

definition parse_number :: "nat list \<Rightarrow> (string \<times> nat list) option" where
  "parse_number s =
     (let (minus, s0) = (case s of b # bs \<Rightarrow> if b = 45 then ([45], bs) else ([], s) | [] \<Rightarrow> ([], [])) in
      case int_part s0 of
        None \<Rightarrow> None
      | Some (i, s1) \<Rightarrow>
          (case frac_part s1 of
            None \<Rightarrow> None
          | Some (f, s2) \<Rightarrow>
              (case exp_part s2 of
                None \<Rightarrow> None
              | Some (x, s3) \<Rightarrow> Some (map char_of (minus @ i @ f @ x), s3))))"

section \<open>Values\<close>

datatype jvalue =
    VNull
  | VBool bool
  | VNumber string
  | VString string
  | VArray "jvalue list"
  | VObject "(string \<times> jvalue) list"

definition expect :: "nat \<Rightarrow> nat list \<Rightarrow> nat list option" where
  "expect c s = (case skip_ws s of [] \<Rightarrow> None | b # bs \<Rightarrow> if b = c then Some bs else None)"

definition literal :: "string \<Rightarrow> jvalue \<Rightarrow> nat list \<Rightarrow> (jvalue \<times> nat list) option" where
  "literal w v s = (if take (length w) s = codes w then Some (v, drop (length w) s) else None)"

definition parse_string :: "nat list \<Rightarrow> (string \<times> nat list) option" where
  "parse_string s = (case unquote s of None \<Rightarrow> None | Some (bs, s') \<Rightarrow> Some (map char_of bs, s'))"

text \<open>
  The first argument bounds the recursion, the second counts the nesting, which the package
  limits to 10000.
\<close>

fun parse_value :: "nat \<Rightarrow> nat \<Rightarrow> nat list \<Rightarrow> (jvalue \<times> nat list) option"
  and parse_members :: "nat \<Rightarrow> nat \<Rightarrow> nat list \<Rightarrow> ((string \<times> jvalue) list \<times> nat list) option"
  and parse_elements :: "nat \<Rightarrow> nat \<Rightarrow> nat list \<Rightarrow> (jvalue list \<times> nat list) option"
where
  "parse_value 0 dp s = None"
| "parse_value (Suc n) dp s =
     (case skip_ws s of
       [] \<Rightarrow> None
     | b # bs \<Rightarrow>
         if b = 123 then
           (if dp \<ge> 10000 then None
            else case expect 125 bs of
              Some r \<Rightarrow> Some (VObject [], r)
            | None \<Rightarrow> (case parse_members n (Suc dp) bs of
                None \<Rightarrow> None | Some (kvs, r) \<Rightarrow> Some (VObject kvs, r)))
         else if b = 91 then
           (if dp \<ge> 10000 then None
            else case expect 93 bs of
              Some r \<Rightarrow> Some (VArray [], r)
            | None \<Rightarrow> (case parse_elements n (Suc dp) bs of
                None \<Rightarrow> None | Some (vs, r) \<Rightarrow> Some (VArray vs, r)))
         else if b = 34 then
           (case parse_string bs of None \<Rightarrow> None | Some (t, r) \<Rightarrow> Some (VString t, r))
         else if b = 110 then literal ''ull'' VNull bs
         else if b = 116 then literal ''rue'' (VBool True) bs
         else if b = 102 then literal ''alse'' (VBool False) bs
         else (case parse_number (b # bs) of None \<Rightarrow> None | Some (t, r) \<Rightarrow> Some (VNumber t, r)))"
| "parse_members 0 dp s = None"
| "parse_members (Suc n) dp s =
     (case expect 34 s of
       None \<Rightarrow> None
     | Some s1 \<Rightarrow>
         (case parse_string s1 of
           None \<Rightarrow> None
         | Some (k, s2) \<Rightarrow>
             (case expect 58 s2 of
               None \<Rightarrow> None
             | Some s3 \<Rightarrow>
                 (case parse_value n dp s3 of
                   None \<Rightarrow> None
                 | Some (v, s4) \<Rightarrow>
                     (case expect 125 s4 of
                       Some r \<Rightarrow> Some ([(k, v)], r)
                     | None \<Rightarrow>
                         (case expect 44 s4 of
                           None \<Rightarrow> None
                         | Some s5 \<Rightarrow>
                             (case parse_members n dp s5 of
                               None \<Rightarrow> None
                             | Some (kvs, r) \<Rightarrow> Some ((k, v) # kvs, r))))))))"
| "parse_elements 0 dp s = None"
| "parse_elements (Suc n) dp s =
     (case parse_value n dp s of
       None \<Rightarrow> None
     | Some (v, s1) \<Rightarrow>
         (case expect 93 s1 of
           Some r \<Rightarrow> Some ([v], r)
         | None \<Rightarrow>
             (case expect 44 s1 of
               None \<Rightarrow> None
             | Some s2 \<Rightarrow>
                 (case parse_elements n dp s2 of
                   None \<Rightarrow> None
                 | Some (vs, r) \<Rightarrow> Some (v # vs, r)))))"

definition parse_first :: "nat list \<Rightarrow> (jvalue \<times> nat list) option" where
  "parse_first s = parse_value (2 * length s + 2) 0 s"

text \<open>\<open>json.Unmarshal\<close> wants the whole text, \<open>Decoder.Decode\<close> takes the first value of the stream.\<close>

definition unmarshal_text :: "string \<Rightarrow> jvalue option" where
  "unmarshal_text t =
     (case parse_first (codes t) of
       None \<Rightarrow> None
     | Some (v, rest) \<Rightarrow> if skip_ws rest = [] then Some v else None)"

definition decode_text :: "string \<Rightarrow> jvalue option" where
  "decode_text t = map_option fst (parse_first (codes t))"

section \<open>Structs\<close>

text \<open>
  A field is its name in JSON and how it takes a value; \<open>None\<close> is a type error. A key names the
  field it equals, or else one it equals up to case; other keys are skipped. An error does not
  stop the decoder but is what it returns.
\<close>

type_synonym 'r field = "string \<times> (jvalue \<Rightarrow> 'r \<Rightarrow> 'r option)"

definition field_of :: "(nat \<Rightarrow> nat) \<Rightarrow> 'r field list \<Rightarrow> string \<Rightarrow> 'r field option" where
  "field_of sf fs k =
     (case find (\<lambda>f. fst f = k) fs of
       Some f \<Rightarrow> Some f
     | None \<Rightarrow> find (\<lambda>f. EqualFold sf (fst f) k) fs)"

primrec decode_members :: "(nat \<Rightarrow> nat) \<Rightarrow> 'r field list \<Rightarrow> (string \<times> jvalue) list \<Rightarrow> 'r \<Rightarrow> 'r option" where
  "decode_members sf fs [] r = Some r"
| "decode_members sf fs (kv # kvs) r =
     (case field_of sf fs (fst kv) of
       None \<Rightarrow> decode_members sf fs kvs r
     | Some f \<Rightarrow>
         (case snd f (snd kv) r of
           None \<Rightarrow> None
         | Some r' \<Rightarrow> decode_members sf fs kvs r'))"

definition decode_struct :: "(nat \<Rightarrow> nat) \<Rightarrow> 'r field list \<Rightarrow> jvalue \<Rightarrow> 'r \<Rightarrow> 'r option" where
  "decode_struct sf fs v r =
     (case v of VObject kvs \<Rightarrow> decode_members sf fs kvs r | VNull \<Rightarrow> Some r | _ \<Rightarrow> None)"

text \<open>A number literal as an unsigned integer of a width, and as an \<open>int64\<close>.\<close>

definition uint_literal :: "string \<Rightarrow> nat \<Rightarrow> nat option" where
  "uint_literal t w =
     (case ParseUint t of None \<Rightarrow> None | Some u \<Rightarrow> if unat u < 2 ^ w then Some (unat u) else None)"

definition int_literal :: "string \<Rightarrow> i64 option" where
  "int_literal t =
     (let (neg, ds) = (case t of c # cs \<Rightarrow> if c = CHR ''-'' then (True, cs) else (False, t) | [] \<Rightarrow> (False, [])) in
      if ds = [] \<or> \<not> list_all is_digit ds then None
      else let n = (if neg then - int (undec ds) else int (undec ds)) in
        if in_i64 n then Some n else None)"

definition take_word :: "('a::len word \<Rightarrow> 'r \<Rightarrow> 'r) \<Rightarrow> jvalue \<Rightarrow> 'r \<Rightarrow> 'r option" where
  "take_word put v r = (case v of
     VNull \<Rightarrow> Some r
   | VNumber t \<Rightarrow> map_option (\<lambda>n. put (of_nat n) r) (uint_literal t LENGTH('a))
   | _ \<Rightarrow> None)"

definition take_int64 :: "(i64 \<Rightarrow> 'r \<Rightarrow> 'r) \<Rightarrow> jvalue \<Rightarrow> 'r \<Rightarrow> 'r option" where
  "take_int64 put v r = (case v of
     VNull \<Rightarrow> Some r
   | VNumber t \<Rightarrow> map_option (\<lambda>n. put n r) (int_literal t)
   | _ \<Rightarrow> None)"

definition take_string :: "(string \<Rightarrow> 'r \<Rightarrow> 'r) \<Rightarrow> jvalue \<Rightarrow> 'r \<Rightarrow> 'r option" where
  "take_string put v r = (case v of VNull \<Rightarrow> Some r | VString s \<Rightarrow> Some (put s r) | _ \<Rightarrow> None)"

definition take_pointer :: "(u64 option \<Rightarrow> 'r \<Rightarrow> 'r) \<Rightarrow> jvalue \<Rightarrow> 'r \<Rightarrow> 'r option" where
  "take_pointer put v r = (case v of
     VNull \<Rightarrow> Some (put None r)
   | VNumber t \<Rightarrow> map_option (\<lambda>n. put (Some (of_nat n)) r) (uint_literal t 64)
   | _ \<Rightarrow> None)"

end
