(* ===== verification/JsonText.thy ===== *)
theory JsonText
  imports Json Digest
begin

text \<open>
  The reader undoes the printer: a value whose strings are valid UTF-8 is read back from the text
  that \<open>json.Marshal\<close> writes for it.
\<close>

section \<open>Strings\<close>

fun valid_utf8 :: "nat list \<Rightarrow> bool" where
  "valid_utf8 [] = True"
| "valid_utf8 (b # bs) =
     (case decode_rune (b # bs) of
       (r, n) \<Rightarrow> (r, n) \<noteq> rune_error \<and> valid_utf8 (drop (n - 1) bs))"

lemma codes_char_of [simp]: "list_all (\<lambda>b. b < 256) bs \<Longrightarrow> codes (map char_of bs) = bs"
  by (induction bs) (auto simp: codes_def)

lemma char_of_codes [simp]: "map char_of (codes s) = s"
  by (simp add: codes_def comp_def)

lemma codes_append [simp]: "codes (s @ t) = codes s @ codes t"
  by (simp add: codes_def)

lemma codes_Cons [simp]: "codes (c # s) = of_char c # codes s"
  by (simp add: codes_def)

lemma codes_Nil [simp]: "codes [] = []"
  by (simp add: codes_def)

text \<open>The bytes of a valid rune are its encoding, and what follows them does not matter.\<close>

lemma two_bytes:
  fixes a b :: nat
  assumes "0xC2 \<le> a" "a < 0xE0" "0x80 \<le> b" "b \<le> 0xBF"
  shows "encode_rune ((a - 0xC0) * 64 + (b - 0x80)) = [a, b]"
proof -
  obtain x y where "a = 0xC0 + x" "b = 0x80 + y" "2 \<le> x" "x < 32" "y < 64"
    using assms by (intro that [of "a - 0xC0" "b - 0x80"]) auto
  then show ?thesis by (simp add: encode_rune_def)
qed

lemma three_bytes:
  fixes a b c :: nat
  assumes "0xE0 \<le> a" "a < 0xF0" "0x80 \<le> b" "b \<le> 0xBF" "a = 0xE0 \<Longrightarrow> 0xA0 \<le> b" "0x80 \<le> c" "c \<le> 0xBF"
  shows "encode_rune ((a - 0xE0) * 4096 + (b - 0x80) * 64 + (c - 0x80)) = [a, b, c]"
proof -
  obtain x y z where v: "a = 0xE0 + x" "b = 0x80 + y" "c = 0x80 + z" "x < 16" "y < 64" "z < 64"
    "x = 0 \<Longrightarrow> 32 \<le> y"
    using assms by (intro that [of "a - 0xE0" "b - 0x80" "c - 0x80"]) auto
  let ?r = "x * 4096 + y * 64 + z"
  have "0x800 \<le> ?r" "?r < 0x10000" using v by (cases "x = 0"; simp)+
  moreover have "?r div 4096 = x" "?r div 64 = x * 64 + y" using v by auto
  moreover have "(z + (x * 64 + y) * 64) mod 64 = z" using v(6) by (subst mod_mult_self1) simp
  then have "?r mod 64 = z" by (simp add: algebra_simps)
  ultimately show ?thesis using v by (simp add: encode_rune_def)
qed

lemma four_bytes:
  fixes a b c d :: nat
  assumes "0xF0 \<le> a" "a \<le> 0xF4" "0x80 \<le> b" "b \<le> 0xBF" "a = 0xF0 \<Longrightarrow> 0x90 \<le> b"
    "0x80 \<le> c" "c \<le> 0xBF" "0x80 \<le> d" "d \<le> 0xBF"
  shows "encode_rune ((a - 0xF0) * 262144 + (b - 0x80) * 4096 + (c - 0x80) * 64 + (d - 0x80)) = [a, b, c, d]"
proof -
  obtain x y z w where v: "a = 0xF0 + x" "b = 0x80 + y" "c = 0x80 + z" "d = 0x80 + w"
    "x < 5" "y < 64" "z < 64" "w < 64" "x = 0 \<Longrightarrow> 16 \<le> y"
    using assms by (intro that [of "a - 0xF0" "b - 0x80" "c - 0x80" "d - 0x80"]) auto
  let ?r = "x * 262144 + y * 4096 + z * 64 + w"
  have "0x10000 \<le> ?r" using v by (cases "x = 0"; simp)
  moreover have "?r div 262144 = x" "?r div 4096 = x * 64 + y" "?r div 64 = z + (x * 64 + y) * 64"
    using v by auto
  moreover have "(z + (x * 64 + y) * 64) mod 64 = z" using v(7) by (subst mod_mult_self1) simp
  moreover have "(w + ((x * 64 + y) * 64 + z) * 64) mod 64 = w" using v(8) by (subst mod_mult_self1) simp
  then have "?r mod 64 = w" by (simp add: algebra_simps)
  ultimately show ?thesis using v by (simp add: encode_rune_def del: mod_mult_self1)
qed

lemma decode_rune_cases:
  assumes "decode_rune (b # bs) = (r, n)" and "(r, n) \<noteq> rune_error"
  obtains "b < 0x80" "r = b" "n = 1"
  | c cs where "bs = c # cs" "0xC2 \<le> b" "b < 0xE0" "0x80 \<le> c" "c \<le> 0xBF" "utf8_second b c"
      "r = (b - 0xC0) * 64 + (c - 0x80)" "n = 2"
  | c d ds where "bs = c # d # ds" "0xE0 \<le> b" "b < 0xF0" "0x80 \<le> c" "c \<le> 0xBF" "b = 0xE0 \<Longrightarrow> 0xA0 \<le> c"
      "utf8_second b c" "utf8_cont d" "r = (b - 0xE0) * 4096 + (c - 0x80) * 64 + (d - 0x80)" "n = 3"
  | c d f fs where "bs = c # d # f # fs" "0xF0 \<le> b" "b \<le> 0xF4" "0x80 \<le> c" "c \<le> 0xBF"
      "b = 0xF0 \<Longrightarrow> 0x90 \<le> c" "utf8_second b c" "utf8_cont d" "utf8_cont f"
      "r = (b - 0xF0) * 262144 + (c - 0x80) * 4096 + (d - 0x80) * 64 + (f - 0x80)" "n = 4"
proof -
  have sec: "0x80 \<le> c \<and> c \<le> 0xBF \<and> (b = 0xE0 \<longrightarrow> 0xA0 \<le> c) \<and> (b = 0xF0 \<longrightarrow> 0x90 \<le> c)"
    if "utf8_second b c" for c
    using that by (simp add: utf8_second_def split: if_splits)
  show thesis
  proof (cases "b < 0x80")
    case True
    then have "decode_rune (b # bs) = (b, 1)" by simp
    then have "r = b" "n = 1" using assms(1) by (metis prod.inject)+
    with True show thesis by (rule that(1))
  next
    case big: False
    have "decode_rune (b # bs) = rune_error" if bad: "b < 0xC2 \<or> 0xF4 < b" using bad big by simp
    then have "\<not> (b < 0xC2 \<or> 0xF4 < b)" using assms by metis
    then have rng: "0xC2 \<le> b" "b \<le> 0xF4" by (simp_all add: linorder_not_less)
    have "decode_rune [b] = rune_error" using big by simp
    then obtain c cs where bs: "bs = c # cs" using assms by (cases bs) auto
    have "decode_rune (b # c # cs) = rune_error" if bad: "\<not> utf8_second b c" using bad big by simp
    then have c: "utf8_second b c" using assms bs by auto
    note c2 = sec [OF c]
    show thesis
    proof (cases "b < 0xE0")
      case True
      then have "decode_rune (b # bs) = ((b - 0xC0) * 64 + (c - 0x80), 2)" using big rng c by (simp add: bs)
      then show thesis using assms(1) bs big rng c c2 True by (intro that(2) [of c cs]) simp_all
    next
      case b3: False
      have "decode_rune [b, c] = rune_error" using big rng c b3 by simp
      then obtain d ds where cs: "cs = d # ds" using assms bs by (cases cs) auto
      have "decode_rune (b # c # d # ds) = rune_error" if bad: "\<not> utf8_cont d" using bad big rng c b3 by simp
      then have d: "utf8_cont d" using assms bs cs by auto
      show thesis
      proof (cases "b < 0xF0")
        case True
        then have "decode_rune (b # bs) = ((b - 0xE0) * 4096 + (c - 0x80) * 64 + (d - 0x80), 3)"
          using big rng c b3 d by (simp add: bs cs)
        then show thesis
          using assms(1) bs cs big rng c c2 b3 d True by (intro that(3) [of c d ds]) simp_all
      next
        case b4: False
        have "decode_rune [b, c, d] = rune_error" using big rng c b3 b4 d by simp
        then obtain f fs where ds: "ds = f # fs" using assms bs cs by (cases ds) auto
        have "decode_rune (b # c # d # f # fs) = rune_error" if bad: "\<not> utf8_cont f"
          using bad big rng c b3 b4 d by simp
        then have f: "utf8_cont f" using assms bs cs ds by auto
        have "decode_rune (b # bs) =
            ((b - 0xF0) * 262144 + (c - 0x80) * 4096 + (d - 0x80) * 64 + (f - 0x80), 4)"
          using big rng c b3 b4 d f by (simp add: bs cs ds)
        then show thesis
          using assms(1) bs cs ds big rng c c2 b3 b4 d f by (intro that(4) [of c d f fs]) simp_all
      qed
    qed
  qed
qed

lemma decode_rune_bytes:
  assumes "decode_rune (b # bs) = (r, n)" and "(r, n) \<noteq> rune_error"
  shows "take n (b # bs) = encode_rune r" and "decode_rune (take n (b # bs) @ rest) = (r, n)"
    and "1 \<le> n" and "list_all (\<lambda>x. x < 256) (take n (b # bs))" and "n \<le> length (b # bs)"
proof -
  have "take n (b # bs) = encode_rune r \<and> decode_rune (take n (b # bs) @ rest) = (r, n) \<and> 1 \<le> n \<and>
      list_all (\<lambda>x. x < 256) (take n (b # bs)) \<and> n \<le> length (b # bs)"
    using assms
  proof (cases rule: decode_rune_cases)
    case 1
    then show ?thesis by (simp add: encode_rune_def)
  next
    case (2 c cs)
    have "encode_rune r = [b, c]" unfolding 2 by (rule two_bytes) (use 2 in simp_all)
    with 2 show ?thesis by simp
  next
    case (3 c d ds)
    have "encode_rune r = [b, c, d]" unfolding 3 by (rule three_bytes) (use 3 in \<open>simp_all add: utf8_cont_def\<close>)
    moreover have "take n (b # bs) = [b, c, d]" by (simp add: 3)
    moreover have "decode_rune ([b, c, d] @ rest) = (r, n)" using 3 by (simp only: append.simps) simp
    ultimately show ?thesis using 3(1,3,5,8,10) by (simp add: utf8_cont_def)
  next
    case (4 c d f fs)
    have "encode_rune r = [b, c, d, f]" unfolding 4 by (rule four_bytes) (use 4 in \<open>simp_all add: utf8_cont_def\<close>)
    moreover have "take n (b # bs) = [b, c, d, f]" by (simp add: 4)
    moreover have "decode_rune ([b, c, d, f] @ rest) = (r, n)" using 4 by (simp only: append.simps) simp
    ultimately show ?thesis using 4(1,3,5,8,9,11) by (simp add: utf8_cont_def)
  qed
  then show "take n (b # bs) = encode_rune r" and "decode_rune (take n (b # bs) @ rest) = (r, n)"
    and "1 \<le> n" and "list_all (\<lambda>x. x < 256) (take n (b # bs))" and "n \<le> length (b # bs)"
    by blast+
qed

text \<open>What the escapes of the printer stand for.\<close>

lemma hex_value_digit: "d < 16 \<Longrightarrow> hex_value (of_char (hex_digit d)) = Some d"
proof -
  assume "d < 16"
  moreover have "\<forall>d \<in> set [0..<16]. hex_value (of_char (hex_digit d)) = Some d" by code_simp
  ultimately show ?thesis by simp
qed

lemma hex_value_zero [simp]: "hex_value 48 = Some 0" "hex_value 50 = Some 2"
  by (simp_all add: hex_value_def)

lemma unquote_escape_u:
  assumes "hex4 s = Some (r, s')" and "r < 0xD800"
  shows "unquote (92 # 117 # s) = map_option (apfst ((@) (encode_rune r))) (unquote s')"
  using assms by (subst unquote.simps) (simp add: unicode_escape_def)

lemma unquote_ascii:
  assumes "b < 128"
  shows "unquote (codes (quote_ascii b) @ rest) = map_option (apfst ((#) b)) (unquote rest)"
proof -
  have hex: "hex4 (48 # 48 # of_char (hex_digit (b div 16)) # of_char (hex_digit (b mod 16)) # rest) = Some (b, rest)"
    if "b < 64"
    using that by (simp add: hex4_def hex_value_digit)
  have enc: "(@) (encode_rune b) = (#) b" using assms by (auto simp: encode_rune_def)
  consider "b = 34 \<or> b = 92" | "b \<in> {8, 12, 10, 13, 9}"
    | "b \<notin> {34, 92, 8, 12, 10, 13, 9}" "b < 32 \<or> b = 60 \<or> b = 62 \<or> b = 38"
    | "b \<notin> {34, 92, 8, 12, 10, 13, 9}" "\<not> (b < 32 \<or> b = 60 \<or> b = 62 \<or> b = 38)"
    by blast
  then show ?thesis
  proof cases
    case 1
    then show ?thesis by (subst unquote.simps) (auto simp: quote_ascii_def escape_value_def)
  next
    case 2
    then show ?thesis by (subst unquote.simps) (auto simp: quote_ascii_def escape_value_def)
  next
    case 3
    then have "b < 64" by auto
    then have "unquote (92 # 117 # 48 # 48 # of_char (hex_digit (b div 16)) # of_char (hex_digit (b mod 16)) # rest) =
        map_option (apfst ((#) b)) (unquote rest)"
      by (subst unquote_escape_u [OF hex]) (simp_all add: enc)
    with 3 show ?thesis by (simp add: quote_ascii_def)
  next
    case 4
    with assms show ?thesis by (subst unquote.simps) (simp add: quote_ascii_def)
  qed
qed

lemma unquote_quote_bytes:
  assumes "valid_utf8 bs"
  shows "unquote (codes (quote_bytes bs) @ 34 # rest) = Some (bs, rest)"
  using assms
proof (induction bs rule: valid_utf8.induct)
  case 1
  show ?case by (subst unquote.simps) simp
next
  case (2 b bs)
  obtain r n where dec: "decode_rune (b # bs) = (r, n)" by force
  with 2 have ok: "(r, n) \<noteq> rune_error" "valid_utf8 (drop (n - 1) bs)" by simp_all
  have IH: "unquote (codes (quote_bytes (drop (n - 1) bs)) @ 34 # rest) = Some (drop (n - 1) bs, rest)"
    using "2.IH" [OF dec [symmetric] ok(2)] .
  note rb = decode_rune_bytes [OF dec ok(1)]
  have whole: "encode_rune r @ drop (n - 1) bs = b # bs"
    using rb(1,3) append_take_drop_id [of n "b # bs"] by (cases n) simp_all
  show ?case
  proof (cases "b < 128")
    case True
    then have n: "n = 1" using dec by simp
    with True IH show ?thesis by (simp add: unquote_ascii)
  next
    case False
    have "unquote (codes (if r = 0x2028 \<or> r = 0x2029 then CHR 0x5C # ''u202'' @ [hex_digit (r mod 16)]
          else map char_of (take n (b # bs))) @ codes (quote_bytes (drop (n - 1) bs)) @ 34 # rest) =
        map_option (apfst ((@) (encode_rune r))) (unquote (codes (quote_bytes (drop (n - 1) bs)) @ 34 # rest))"
    proof (cases "r = 0x2028 \<or> r = 0x2029")
      case True
      have "hex4 (50 # 48 # 50 # of_char (hex_digit (r mod 16)) # s) = Some (r, s)" for s
        using True by (auto simp: hex4_def hex_value_digit)
      with True show ?thesis by (auto simp: unquote_escape_u)
    next
      case esc: False
      let ?t = "codes (quote_bytes (drop (n - 1) bs)) @ 34 # rest"
      have tk: "take n (b # bs) = b # take (n - 1) bs" using rb(3) by (cases n) simp_all
      have "unquote (b # take (n - 1) bs @ ?t) = map_option (apfst ((@) (encode_rune r))) (unquote ?t)"
        using False rb(2) [of ?t] rb(5) unfolding tk by (subst unquote.simps) simp
      with esc tk rb(4) show ?thesis by simp
    qed
    moreover have "quote_bytes (b # bs) =
        (if r = 0x2028 \<or> r = 0x2029 then CHR 0x5C # ''u202'' @ [hex_digit (r mod 16)]
         else map char_of (take n (b # bs))) @ quote_bytes (drop (n - 1) bs)"
      using False ok(1) by (simp add: dec rune_error_def del: decode_rune.simps)
    ultimately show ?thesis
      using IH whole by (simp only: codes_append append_assoc) simp
  qed
qed


lemma parse_string_quote:
  "valid_utf8 (codes t) \<Longrightarrow> parse_string (codes (quote_bytes (codes t)) @ 34 # rest) = Some (t, rest)"
  by (simp add: parse_string_def unquote_quote_bytes)

section \<open>Numbers\<close>

definition ends_number :: "nat list \<Rightarrow> bool" where
  "ends_number s = (case s of [] \<Rightarrow> True | b # _ \<Rightarrow> \<not> (48 \<le> b \<and> b \<le> 57) \<and> b \<notin> {46, 69, 101})"

lemma ends_number_simps [simp]:
  "ends_number []" "ends_number (44 # s)" "ends_number (93 # s)" "ends_number (125 # s)"
  by (simp_all add: ends_number_def)

lemma digits_append:
  "\<lbrakk>list_all is_digit ds; ends_number rest\<rbrakk> \<Longrightarrow> digits (codes ds @ rest) = (codes ds, rest)"
  by (induction ds) (auto simp: digits_def is_digit_def ends_number_def codes_def split: list.splits)

lemma dec_hd: "0 < n \<Longrightarrow> \<exists>c cs. dec n = c # cs \<and> 49 \<le> (of_char c :: nat) \<and> (of_char c :: nat) \<le> 57"
proof (induction n rule: dec.induct)
  case (1 n)
  show ?case
  proof (cases "n < 10")
    case True
    with 1 have "n \<in> {1, 2, 3, 4, 5, 6, 7, 8, 9}" by auto
    with True show ?thesis by (subst dec.simps) (auto simp: digit_def)
  next
    case False
    then have "0 < n div 10" by (simp add: div_greater_zero_iff)
    with 1 False obtain c cs where "dec (n div 10) = c # cs" "49 \<le> (of_char c :: nat)" "(of_char c :: nat) \<le> 57"
      by blast
    with False show ?thesis by (subst dec.simps) auto
  qed
qed

lemma int_part_dec:
  assumes "ends_number rest"
  shows "int_part (codes (dec n) @ rest) = Some (codes (dec n), rest)"
proof (cases "n = 0")
  case True
  then show ?thesis by (subst (1 2) dec.simps) (simp add: int_part_def digit_def)
next
  case False
  then obtain c cs where c: "dec n = c # cs" "49 \<le> (of_char c :: nat)" "(of_char c :: nat) \<le> 57"
    using dec_hd by blast
  then have "int_part (codes (dec n) @ rest) = Some (digits (codes (dec n) @ rest))"
    by (simp add: int_part_def)
  with assms show ?thesis by (simp add: digits_append dec_digits)
qed

lemma number_tail:
  "ends_number rest \<Longrightarrow> frac_part rest = Some ([], rest)"
  "ends_number rest \<Longrightarrow> exp_part rest = Some ([], rest)"
  by (auto simp: frac_part_def exp_part_def ends_number_def split: list.splits)

lemma dec_no_minus: "hd (codes (dec n)) \<noteq> 45"
  using dec_digits [of n] by (cases "dec n") (auto simp: is_digit_def)

lemma char_of_45: "char_of (45 :: nat) = CHR ''-''"
  using char_of_char [where 'a = nat, of "CHR ''-''"] by simp

lemma parse_number_FormatInt:
  assumes "ends_number rest"
  shows "parse_number (codes (FormatInt n) @ rest) = Some (FormatInt n, rest)"
proof (cases "n < 0")
  case True
  with assms show ?thesis
    by (simp add: parse_number_def FormatInt_def int_part_dec number_tail char_of_45)
next
  case False
  obtain b bs where b: "codes (dec (nat n)) = b # bs" "b \<noteq> 45"
    using dec_no_minus [of "nat n"] by (cases "codes (dec (nat n))") (auto simp: codes_def)
  have "int_part (b # bs @ rest) = Some (b # bs, rest)"
    using int_part_dec [OF assms, of "nat n"] b by simp
  moreover have "map char_of (b # bs) = dec (nat n)"
    using b(1) char_of_codes by metis
  ultimately show ?thesis
    using False b assms by (simp add: parse_number_def FormatInt_def number_tail)
qed

section \<open>Values\<close>

fun jv_of :: "json \<Rightarrow> jvalue" where
  "jv_of JNull = VNull"
| "jv_of (JBool b) = VBool b"
| "jv_of (JNum n) = VNumber (FormatInt n)"
| "jv_of (JStr s) = VString s"
| "jv_of (JArr vs) = VArray (map jv_of vs)"
| "jv_of (JObj kvs) = VObject (map (\<lambda>(k, v). (k, jv_of v)) kvs)"

fun json_utf8 :: "json \<Rightarrow> bool" where
  "json_utf8 (JStr s) = valid_utf8 (codes s)"
| "json_utf8 (JArr vs) = list_all json_utf8 vs"
| "json_utf8 (JObj kvs) = list_all (\<lambda>(k, v). valid_utf8 (codes k) \<and> json_utf8 v) kvs"
| "json_utf8 _ = True"

fun json_depth :: "json \<Rightarrow> nat" where
  "json_depth (JArr vs) = Suc (fold max (map json_depth vs) 0)"
| "json_depth (JObj kvs) = Suc (fold max (map (\<lambda>(k, v). json_depth v) kvs) 0)"
| "json_depth _ = 0"

lemma fold_max_le: "fold max xs (a :: nat) \<le> m \<longleftrightarrow> a \<le> m \<and> list_all (\<lambda>x. x \<le> m) xs"
  by (induction xs arbitrary: a) auto

lemma fold_max_bound:
  assumes "fold max (map f xs) (0 :: nat) + d \<le> m"
  shows "list_all (\<lambda>x. f x + d \<le> m) xs"
  using fold_max_le [of "map f xs" 0 "fold max (map f xs) 0"] assms by (fastforce simp: list_all_iff)

text \<open>Every text of a value starts with a byte that is neither a space nor a closing bracket.\<close>

definition starts_value :: "nat list \<Rightarrow> bool" where
  "starts_value s = (case s of [] \<Rightarrow> False | b # _ \<Rightarrow> b \<notin> {32, 9, 10, 13, 93, 125})"

lemma starts_value_skip [simp]: "starts_value s \<Longrightarrow> skip_ws s = s"
  by (auto simp: starts_value_def skip_ws_def split: list.splits)

lemma starts_value_append: "starts_value s \<Longrightarrow> starts_value (s @ t)"
  by (auto simp: starts_value_def split: list.splits)

lemma starts_value_text: "starts_value (codes (json_text v))"
proof (cases v)
  case (JNum n)
  have "\<exists>c cs. dec m = c # cs \<and> 48 \<le> (of_char c :: nat) \<and> (of_char c :: nat) \<le> 57" for m
    using dec_digits [of m] dec_nonempty [of m] by (cases "dec m") (auto simp: is_digit_def)
  then obtain c cs where "dec (nat n) = c # cs" "48 \<le> (of_char c :: nat)" "(of_char c :: nat) \<le> 57"
    by blast
  with JNum show ?thesis by (auto simp: starts_value_def FormatInt_def)
qed (simp_all add: starts_value_def quote_def)

lemma expect_simps [simp]:
  "expect c (c # s) = (if c \<in> {32, 9, 10, 13} then expect c s else Some s)"
  by (simp add: expect_def skip_ws_def)

lemma expect_other: "\<lbrakk>b \<noteq> c; b \<notin> {32, 9, 10, 13}\<rbrakk> \<Longrightarrow> expect c (b # s) = None"
  by (simp add: expect_def skip_ws_def)

text \<open>Reading one value back, with enough fuel and whatever follows it.\<close>

definition reads_back :: "json \<Rightarrow> bool" where
  "reads_back v \<longleftrightarrow>
     (\<forall>n dp rest. json_depth v + dp \<le> 10000 \<longrightarrow> ends_number rest \<longrightarrow> length (json_text v) \<le> n \<longrightarrow>
        parse_value n dp (codes (json_text v) @ rest) = Some (jv_of v, rest))"

lemma reads_backD:
  "\<lbrakk>reads_back v; json_depth v + dp \<le> 10000; ends_number rest; length (json_text v) \<le> n\<rbrakk> \<Longrightarrow>
     parse_value n dp (codes (json_text v) @ rest) = Some (jv_of v, rest)"
  by (simp add: reads_back_def)

lemma parse_elements_text:
  assumes "vs \<noteq> []" "list_all reads_back vs" "list_all (\<lambda>v. json_depth v + dp \<le> 10000) vs"
    and "length (sep_by '','' (map json_text vs)) < n"
  shows "parse_elements n dp (codes (sep_by '','' (map json_text vs)) @ 93 # rest) = Some (map jv_of vs, rest)"
  using assms
proof (induction vs arbitrary: n rule: list_nonempty_induct)
  case (single v)
  then obtain m where m: "n = Suc m" "length (json_text v) \<le> m" by (cases n) auto
  with single reads_backD [of v dp "93 # rest" m] show ?case by simp
next
  case (cons v vs)
  obtain w ws where vs: "vs = w # ws" using cons.hyps by (cases vs) auto
  obtain m where m: "n = Suc m" "length (json_text v) \<le> m" "length (sep_by '','' (map json_text vs)) < m"
    using cons.prems by (cases n) (auto simp: vs)
  have "parse_value m dp (codes (json_text v) @ 44 # codes (sep_by '','' (map json_text vs)) @ 93 # rest) =
      Some (jv_of v, 44 # codes (sep_by '','' (map json_text vs)) @ 93 # rest)"
    using cons.prems m by (intro reads_backD) auto
  moreover have "parse_elements m dp (codes (sep_by '','' (map json_text vs)) @ 93 # rest) = Some (map jv_of vs, rest)"
    using cons m by auto
  ultimately show ?case by (simp add: m(1) vs expect_other)
qed

definition member_text :: "string \<times> json \<Rightarrow> string" where
  "member_text kv = quote (fst kv) @ '':'' @ json_text (snd kv)"

lemma json_text_JObj [simp]:
  "json_text (JObj kvs) = CHR ''{'' # sep_by '','' (map member_text kvs) @ ''}''"
proof -
  have "(\<lambda>(k, v). quote k @ '':'' @ json_text v) = member_text"
    by (auto simp: member_text_def fun_eq_iff)
  then show ?thesis by simp
qed

declare json_text.simps(6) [simp del]

lemma codes_member_text:
  "codes (member_text kv) = 34 # codes (quote_bytes (codes (fst kv))) @ 34 # 58 # codes (json_text (snd kv))"
  by (simp add: member_text_def quote_def)

lemma length_member_text: "length (json_text (snd kv)) < length (member_text kv)"
  by (simp add: member_text_def)

lemma parse_members_text:
  assumes "kvs \<noteq> []" "list_all (\<lambda>kv. valid_utf8 (codes (fst kv)) \<and> reads_back (snd kv)) kvs"
    and "list_all (\<lambda>kv. json_depth (snd kv) + dp \<le> 10000) kvs"
    and "length (sep_by '','' (map member_text kvs)) < n"
  shows "parse_members n dp (codes (sep_by '','' (map member_text kvs)) @ 125 # rest) =
    Some (map (apsnd jv_of) kvs, rest)"
  using assms
proof (induction kvs arbitrary: n rule: list_nonempty_induct)
  case (single kv)
  then obtain m where m: "n = Suc m" "length (json_text (snd kv)) \<le> m" using length_member_text [of kv] by (cases n) auto
  with single reads_backD [of "snd kv" dp "125 # rest" m] show ?case
    by (cases kv) (simp add: codes_member_text parse_string_quote)
next
  case (cons kv kvs)
  let ?more = "codes (sep_by '','' (map member_text kvs)) @ 125 # rest"
  obtain w ws where kvs: "kvs = w # ws" using cons.hyps by (cases kvs) auto
  obtain m where m: "n = Suc m" "length (json_text (snd kv)) \<le> m" "length (sep_by '','' (map member_text kvs)) < m"
    using cons.prems length_member_text [of kv] by (cases n) (auto simp: kvs)
  have "parse_value m dp (codes (json_text (snd kv)) @ 44 # ?more) = Some (jv_of (snd kv), 44 # ?more)"
    using cons.prems m by (intro reads_backD) auto
  moreover have "parse_members m dp ?more = Some (map (apsnd jv_of) kvs, rest)"
    using cons m by auto
  ultimately show ?case
    using cons.prems by (cases kv) (simp add: m(1) kvs codes_member_text parse_string_quote expect_other)
qed

lemma literal_codes: "literal w v (codes w @ rest) = Some (v, rest)"
  by (simp add: literal_def codes_def)

lemma reads_back_scalar:
  assumes "json_utf8 v" "\<forall>vs. v \<noteq> JArr vs" "\<forall>kvs. v \<noteq> JObj kvs"
  shows "reads_back v"
  unfolding reads_back_def
proof (intro allI impI)
  fix n dp rest
  assume rest: "ends_number rest" and "length (json_text v) \<le> n"
  then obtain m where n: "n = Suc m"
    using starts_value_text [of v] by (cases n) (auto simp: starts_value_def)
  note lits = literal_codes [of "''ull''" VNull rest] literal_codes [of "''rue''" "VBool True" rest]
    literal_codes [of "''alse''" "VBool False" rest]
  have num: "b \<notin> {123, 91, 34, 110, 116, 102}" if "codes (FormatInt i) = b # bs" for i b bs
    using that dec_digits [of "nat i"]
    by (cases "dec (nat i)") (auto simp: FormatInt_def is_digit_def split: if_splits)
  show "parse_value n dp (codes (json_text v) @ rest) = Some (jv_of v, rest)"
  proof (cases v)
    case (JNum i)
    obtain b bs where b: "codes (FormatInt i) = b # bs"
      using starts_value_text [of v] by (cases "codes (FormatInt i)") (auto simp: JNum starts_value_def)
    have "skip_ws (b # bs @ rest) = b # bs @ rest"
      using starts_value_append [OF starts_value_text [of v], of rest] by (simp add: JNum b)
    moreover have "parse_number (b # bs @ rest) = Some (FormatInt i, rest)"
      using parse_number_FormatInt [OF rest, of i] by (simp add: b)
    ultimately show ?thesis using num [OF b] by (simp add: JNum n b)
  qed (use assms lits in \<open>auto simp: n skip_ws_def quote_def parse_string_quote\<close>)
qed

lemma not_closed: "starts_value s \<Longrightarrow> expect 93 s = None" "starts_value s \<Longrightarrow> expect 125 s = None"
  by (auto simp: starts_value_def intro!: expect_other split: list.splits)

lemma starts_value_sep_by: "\<lbrakk>xs \<noteq> []; starts_value (codes (hd xs))\<rbrakk> \<Longrightarrow> starts_value (codes (sep_by t xs) @ rest)"
  by (cases xs; cases "tl xs") (auto intro: starts_value_append simp flip: append_assoc)

lemma starts_value_member: "starts_value (codes (member_text kv))"
  by (simp add: codes_member_text starts_value_def)

lemma reads_back_JArr:
  assumes "list_all reads_back vs"
  shows "reads_back (JArr vs)"
  unfolding reads_back_def
proof (intro allI impI)
  fix n dp rest
  assume "json_depth (JArr vs) + dp \<le> 10000" "length (json_text (JArr vs)) \<le> n"
  then obtain m where m: "n = Suc m" "length (sep_by '','' (map json_text vs)) < m" "dp < 10000"
      "list_all (\<lambda>v. json_depth v + Suc dp \<le> 10000) vs"
    using fold_max_bound [of json_depth vs "Suc dp" 10000] by (cases n) auto
  show "parse_value n dp (codes (json_text (JArr vs)) @ rest) = Some (jv_of (JArr vs), rest)"
  proof (cases "vs = []")
    case False
    have "starts_value (codes (sep_by '','' (map json_text vs)) @ 93 # rest)"
      using False by (intro starts_value_sep_by) (simp_all add: hd_map starts_value_text)
    then show ?thesis
      using parse_elements_text [OF False assms m(4,2)] m by (simp add: skip_ws_def not_closed)
  qed (use m in \<open>simp add: skip_ws_def\<close>)
qed

lemma reads_back_JObj:
  assumes "list_all (\<lambda>kv. valid_utf8 (codes (fst kv)) \<and> reads_back (snd kv)) kvs"
  shows "reads_back (JObj kvs)"
  unfolding reads_back_def
proof (intro allI impI)
  fix n dp rest
  assume "json_depth (JObj kvs) + dp \<le> 10000" "length (json_text (JObj kvs)) \<le> n"
  then obtain m where m: "n = Suc m" "length (sep_by '','' (map member_text kvs)) < m" "dp < 10000"
      "list_all (\<lambda>kv. json_depth (snd kv) + Suc dp \<le> 10000) kvs"
    using fold_max_bound [of "\<lambda>kv. json_depth (snd kv)" kvs "Suc dp" 10000]
    by (cases n) (auto simp: case_prod_beta')
  show "parse_value n dp (codes (json_text (JObj kvs)) @ rest) = Some (jv_of (JObj kvs), rest)"
  proof (cases "kvs = []")
    case False
    have "starts_value (codes (sep_by '','' (map member_text kvs)) @ 125 # rest)"
      using False by (intro starts_value_sep_by) (simp_all add: hd_map starts_value_member)
    then show ?thesis
      using parse_members_text [OF False assms m(4,2)] m
      by (simp add: skip_ws_def not_closed apsnd_def map_prod_def)
  qed (use m in \<open>simp add: skip_ws_def\<close>)
qed

lemma reads_back_json: "json_utf8 v \<Longrightarrow> reads_back v"
proof (induction v)
  case (JArr vs)
  then show ?case by (auto intro!: reads_back_JArr simp: list_all_iff)
next
  case (JObj kvs)
  then show ?case by (fastforce intro!: reads_back_JObj simp: list_all_iff)
qed (auto intro: reads_back_scalar)

text \<open>\<open>json.Unmarshal\<close> after \<open>json.Marshal\<close>.\<close>

lemma unmarshal_json_text:
  assumes "json_utf8 v" "json_depth v \<le> 10000"
  shows "unmarshal_text (json_text v) = Some (jv_of v)"
  using reads_backD [OF reads_back_json [OF assms(1)], of 0 "[]" "2 * length (json_text v) + 2"] assms(2)
  by (simp add: unmarshal_text_def parse_first_def codes_def skip_ws_def)

end
