(* ===== verification/JsonFuel.thy ===== *)
theory JsonFuel
  imports Json
begin

text \<open>
  The bound on the parser's recursion is never met: with fuel for twice the length of the text the
  result is that of any larger fuel.
\<close>

lemma skip_ws_le: "length (skip_ws s) \<le> length s"
  by (simp add: skip_ws_def length_dropWhile_le)

lemma skip_ws_Cons: "skip_ws s = b # bs \<Longrightarrow> length bs < length s"
  using skip_ws_le [of s] by simp

lemma expect_shorter: "expect c s = Some s' \<Longrightarrow> length s' < length s"
  using skip_ws_le [of s] by (auto simp: expect_def split: list.splits if_splits)

lemma literal_shorter: "literal w v s = Some (x, s') \<Longrightarrow> length s' \<le> length s"
  by (auto simp: literal_def split: if_splits)

lemma unquote_step:
  assumes "unquote s = Some (t, s')"
  shows "length s' < length s \<or> (\<exists>r u. length r < length s \<and> unquote r = Some (u, s'))"
proof -
  have less: "length r < length (b # bs)" if "r = drop n bs \<or> r = bs" for r b n and bs :: "nat list"
    using that by auto
  show ?thesis
    using assms
    by (subst (asm) unquote.simps)
      (auto split: list.splits if_splits option.splits prod.splits simp del: decode_rune.simps
        dest!: unicode_escape_shorter intro: less)
qed

lemma unquote_shorter: "unquote s = Some (t, s') \<Longrightarrow> length s' < length s"
proof (induction s arbitrary: t rule: length_induct)
  case (1 s)
  then show ?case using unquote_step [OF 1(2)] by fastforce
qed

lemma parse_string_shorter: "parse_string s = Some (t, s') \<Longrightarrow> length s' < length s"
  by (auto simp: parse_string_def split: option.splits dest: unquote_shorter)

lemma digits_le: "length (snd (digits s)) \<le> length s"
  by (simp add: digits_def length_dropWhile_le)

lemma int_part_shorter: "int_part s = Some (i, s') \<Longrightarrow> length s' < length s"
  using length_dropWhile_le [of "\<lambda>b. 48 \<le> b \<and> b \<le> 57" "tl s"]
  by (auto simp: int_part_def digits_def split: list.splits if_splits)

lemma frac_part_le: "frac_part s = Some (i, s') \<Longrightarrow> length s' \<le> length s"
  using digits_le [of "tl s"] by (auto simp: frac_part_def split: list.splits if_splits)

lemma exp_part_le: "exp_part s = Some (i, s') \<Longrightarrow> length s' \<le> length s"
  using digits_le [of "tl s"] digits_le [of "tl (tl s)"]
  by (auto simp: exp_part_def Let_def split: list.splits if_splits)

lemma parse_number_shorter: "parse_number s = Some (t, s') \<Longrightarrow> length s' < length s"
  by (auto simp: parse_number_def Let_def split: list.splits option.splits if_splits
      dest!: int_part_shorter frac_part_le exp_part_le)

lemmas token_shorter = skip_ws_Cons expect_shorter literal_shorter parse_string_shorter parse_number_shorter

lemma parse_shorter:
  "parse_value n dp s = Some (v, s') \<Longrightarrow> length s' < length s"
  "parse_members n dp s = Some (kvs, s') \<Longrightarrow> length s' < length s"
  "parse_elements n dp s = Some (vs, s') \<Longrightarrow> length s' < length s"
  by (induction n dp s and n dp s and n dp s arbitrary: v s' and kvs s' and vs s'
      rule: parse_value_parse_members_parse_elements.induct)
    (fastforce split: list.splits if_splits option.splits prod.splits dest!: token_shorter)+

lemma parse_fuel:
  "\<lbrakk>2 * length s < n; 2 * length s < m\<rbrakk> \<Longrightarrow> parse_value n dp s = parse_value m dp s"
  "\<lbrakk>2 * length s < n; 2 * length s < m\<rbrakk> \<Longrightarrow> parse_members n dp s = parse_members m dp s"
  "\<lbrakk>2 * length s + 1 < n; 2 * length s + 1 < m\<rbrakk> \<Longrightarrow> parse_elements n dp s = parse_elements m dp s"
proof (induction n arbitrary: m dp s)
  case (Suc n)
  { case 1
    then obtain k where m: "m = Suc k" by (cases m) auto
    have "parse_members n (Suc dp) bs = parse_members k (Suc dp) bs"
      "parse_elements n (Suc dp) bs = parse_elements k (Suc dp) bs" if "skip_ws s = b # bs" for b bs
      using 1 m skip_ws_Cons [OF that] by (intro Suc.IH; simp)+
    then show ?case by (cases "skip_ws s") (simp_all add: m split: option.split)
  next
    case 2
    then obtain k where m: "m = Suc k" by (cases m) auto
    have shorter: "parse_value n dp r = parse_value k dp r" "parse_members n dp r = parse_members k dp r"
      if "length r < length s" for r
      using 2 m that by (intro Suc.IH; simp)+
    show ?case unfolding m parse_members.simps
      by (intro option.case_cong prod.case_cong refl; rule shorter)
        (auto dest!: token_shorter parse_shorter)
  next
    case 3
    then obtain k where m: "m = Suc k" by (cases m) auto
    have same: "parse_value n dp s = parse_value k dp s"
      using 3 m by (intro Suc.IH) simp_all
    have shorter: "parse_elements n dp r = parse_elements k dp r" if "length r < length s" for r
      using 3 m that by (intro Suc.IH) simp_all
    show ?case unfolding m parse_elements.simps same
      by (intro option.case_cong prod.case_cong refl; rule shorter)
        (auto dest!: token_shorter parse_shorter) }
qed auto

lemma parse_first_fuel:
  assumes "2 * length s < n"
  shows "parse_first s = parse_value n 0 s"
  unfolding parse_first_def using assms by (intro parse_fuel) simp_all

end
