(* ===== verification/Codec.thy ===== *)
theory Codec
  imports JsonText JsonFuel Ingest "HOL-Library.Multiset"
begin

text \<open>
  How the structs of the repository are read from JSON: the events that the consumers decode with
  \<open>json.Unmarshal\<close> and the request bodies that the API decodes with \<open>json.NewDecoder(...).Decode\<close>.
  A schema lists the fields with the names of their tags; what no member names keeps the zero
  value. An event is read back from what was written for it, in whatever order its members come.
\<close>

section \<open>Events\<close>

definition gift_accepted_fields :: "LiveGiftAcceptedV1 field list" where
  "gift_accepted_fields =
     [(''event_type'', take_string (\<lambda>x. lga_EventType_update (\<lambda>_. x))),
      (''gift_order_id'', take_word (\<lambda>x. lga_GiftOrderID_update (\<lambda>_. x))),
      (''viewer_id'', take_word (\<lambda>x. lga_ViewerID_update (\<lambda>_. x))),
      (''creator_id'', take_word (\<lambda>x. lga_CreatorID_update (\<lambda>_. x))),
      (''live_session_id'', take_word (\<lambda>x. lga_LiveSessionID_update (\<lambda>_. x))),
      (''campaign_id'', take_pointer (\<lambda>x. lga_CampaignID_update (\<lambda>_. x))),
      (''match_id'', take_pointer (\<lambda>x. lga_MatchID_update (\<lambda>_. x))),
      (''gift_id'', take_string (\<lambda>x. lga_GiftID_update (\<lambda>_. x))),
      (''quantity'', take_word (\<lambda>x. lga_Quantity_update (\<lambda>_. x))),
      (''charged_coins'', take_word (\<lambda>x. lga_ChargedCoins_update (\<lambda>_. x))),
      (''match_points_added'', take_word (\<lambda>x. lga_MatchPoints_update (\<lambda>_. x))),
      (''diamond_reward'', take_word (\<lambda>x. lga_DiamondReward_update (\<lambda>_. x))),
      (''request_id'', take_string (\<lambda>x. lga_RequestID_update (\<lambda>_. x)))]"

definition zero_gift_accepted :: LiveGiftAcceptedV1 where
  "zero_gift_accepted =
     \<lparr>lga_EventType = '''', lga_GiftOrderID = 0, lga_ViewerID = 0, lga_CreatorID = 0,
      lga_LiveSessionID = 0, lga_CampaignID = None, lga_MatchID = None,
      lga_GiftID = '''', lga_Quantity = 0, lga_ChargedCoins = 0, lga_MatchPoints = 0,
      lga_DiamondReward = 0, lga_RequestID = ''''\<rparr>"

definition comment_fields :: "LiveCommentCreatedV1 field list" where
  "comment_fields =
     [(''event_id'', take_string (\<lambda>x. lcc_EventID_update (\<lambda>_. x))),
      (''viewer_id'', take_word (\<lambda>x. lcc_ViewerID_update (\<lambda>_. x))),
      (''creator_id'', take_word (\<lambda>x. lcc_CreatorID_update (\<lambda>_. x))),
      (''live_session_id'', take_word (\<lambda>x. lcc_LiveSessionID_update (\<lambda>_. x)))]"

definition zero_comment :: LiveCommentCreatedV1 where
  "zero_comment =
     \<lparr>lcc_EventID = '''', lcc_ViewerID = 0, lcc_CreatorID = 0, lcc_LiveSessionID = 0\<rparr>"

definition watch_minute_fields :: "LiveWatchMinuteV1 field list" where
  "watch_minute_fields =
     [(''event_id'', take_string (\<lambda>x. lwm_EventID_update (\<lambda>_. x))),
      (''viewer_id'', take_word (\<lambda>x. lwm_ViewerID_update (\<lambda>_. x))),
      (''creator_id'', take_word (\<lambda>x. lwm_CreatorID_update (\<lambda>_. x))),
      (''live_session_id'', take_word (\<lambda>x. lwm_LiveSessionID_update (\<lambda>_. x)))]"

definition zero_watch_minute :: LiveWatchMinuteV1 where
  "zero_watch_minute =
     \<lparr>lwm_EventID = '''', lwm_ViewerID = 0, lwm_CreatorID = 0, lwm_LiveSessionID = 0\<rparr>"

definition session_closed_fields :: "LiveSessionClosedV1 field list" where
  "session_closed_fields =
     [(''live_session_id'', take_word (\<lambda>x. lsc_LiveSessionID_update (\<lambda>_. x))),
      (''closed_at_ms'', take_int64 (\<lambda>x. lsc_ClosedAtMs_update (\<lambda>_. x)))]"

definition zero_session_closed :: LiveSessionClosedV1 where
  "zero_session_closed =
     \<lparr>lsc_LiveSessionID = 0, lsc_ClosedAtMs = 0\<rparr>"

section \<open>Request bodies\<close>

definition recharge_fields :: "RechargeRequest field list" where
  "recharge_fields =
     [(''request_id'', take_string (\<lambda>x. rq_RequestID_update (\<lambda>_. x))),
      (''viewer_id'', take_word (\<lambda>x. rq_ViewerID_update (\<lambda>_. x))),
      (''coins'', take_word (\<lambda>x. rq_Coins_update (\<lambda>_. x))),
      (''payment_ref'', take_string (\<lambda>x. rq_PaymentRef_update (\<lambda>_. x)))]"

definition zero_recharge :: RechargeRequest where
  "zero_recharge =
     \<lparr>rq_RequestID = '''', rq_ViewerID = 0, rq_Coins = 0, rq_PaymentRef = ''''\<rparr>"

definition gift_fields :: "GiftRequest field list" where
  "gift_fields =
     [(''request_id'', take_string (\<lambda>x. gq_RequestID_update (\<lambda>_. x))),
      (''viewer_id'', take_word (\<lambda>x. gq_ViewerID_update (\<lambda>_. x))),
      (''creator_id'', take_word (\<lambda>x. gq_CreatorID_update (\<lambda>_. x))),
      (''live_session_id'', take_word (\<lambda>x. gq_LiveSessionID_update (\<lambda>_. x))),
      (''match_id'', take_pointer (\<lambda>x. gq_MatchID_update (\<lambda>_. x))),
      (''gift_id'', take_string (\<lambda>x. gq_GiftID_update (\<lambda>_. x))),
      (''quantity'', take_word (\<lambda>x. gq_Quantity_update (\<lambda>_. x))),
      (''sent_at_ms'', take_int64 (\<lambda>x. gq_SentAtMS_update (\<lambda>_. x)))]"

definition zero_gift :: GiftRequest where
  "zero_gift =
     \<lparr>gq_RequestID = '''', gq_ViewerID = 0, gq_CreatorID = 0, gq_LiveSessionID = 0,
      gq_MatchID = None, gq_GiftID = '''', gq_Quantity = 0, gq_SentAtMS = 0\<rparr>"

definition comment_request_fields :: "InternalCommentRequest field list" where
  "comment_request_fields =
     [(''event_id'', take_string (\<lambda>x. ic_EventID_update (\<lambda>_. x))),
      (''viewer_id'', take_word (\<lambda>x. ic_ViewerID_update (\<lambda>_. x))),
      (''creator_id'', take_word (\<lambda>x. ic_CreatorID_update (\<lambda>_. x))),
      (''live_session_id'', take_word (\<lambda>x. ic_LiveSessionID_update (\<lambda>_. x)))]"

definition zero_comment_request :: InternalCommentRequest where
  "zero_comment_request =
     \<lparr>ic_EventID = '''', ic_ViewerID = 0, ic_CreatorID = 0, ic_LiveSessionID = 0\<rparr>"

definition watch_request_fields :: "InternalWatchMinutesRequest field list" where
  "watch_request_fields =
     [(''event_id'', take_string (\<lambda>x. iw_EventID_update (\<lambda>_. x))),
      (''viewer_id'', take_word (\<lambda>x. iw_ViewerID_update (\<lambda>_. x))),
      (''creator_id'', take_word (\<lambda>x. iw_CreatorID_update (\<lambda>_. x))),
      (''live_session_id'', take_word (\<lambda>x. iw_LiveSessionID_update (\<lambda>_. x))),
      (''minutes'', take_word (\<lambda>x. iw_Minutes_update (\<lambda>_. x)))]"

definition zero_watch_request :: InternalWatchMinutesRequest where
  "zero_watch_request =
     \<lparr>iw_EventID = '''', iw_ViewerID = 0, iw_CreatorID = 0, iw_LiveSessionID = 0,
      iw_Minutes = 0\<rparr>"

text \<open>\<open>json.Unmarshal\<close> and \<open>Decoder.Decode\<close> into a fresh struct; \<open>None\<close> is an error.\<close>

definition Unmarshal :: "(nat \<Rightarrow> nat) \<Rightarrow> 'r field list \<Rightarrow> 'r \<Rightarrow> string \<Rightarrow> 'r option" where
  "Unmarshal sf fs zero t = (case unmarshal_text t of None \<Rightarrow> None | Some v \<Rightarrow> decode_struct sf fs v zero)"

definition Decode :: "(nat \<Rightarrow> nat) \<Rightarrow> 'r field list \<Rightarrow> 'r \<Rightarrow> string \<Rightarrow> 'r option" where
  "Decode sf fs zero t = (case decode_text t of None \<Rightarrow> None | Some v \<Rightarrow> decode_struct sf fs v zero)"

section \<open>Reading an event back\<close>

lemma take_word_read [simp]:
  fixes w :: "'a::len word"
  assumes "LENGTH('a) \<le> 64"
  shows "take_word p (VNumber (FormatInt (uint w))) r = Some (p w r)"
proof -
  have less: "unat w < 2 ^ LENGTH('a)" by (rule unsigned_less)
  also have "(2 :: nat) ^ LENGTH('a) \<le> 2 ^ 64" using assms by (rule power_increasing) simp
  finally have small: "unat w < 2 ^ 64" .
  then have "unat (of_nat (unat w) :: u64) = unat w"
    by (simp only: unsigned_of_nat) (simp add: take_bit_nat_eq_self)
  with less small show ?thesis
    by (simp add: take_word_def uint_literal_def FormatInt_def ParseUint_def dec_digits)
qed

lemma take_pointer_read [simp]: "take_pointer p (VNumber (FormatInt (uint w))) r = Some (p (Some w) r)"
  using take_word_read [of "\<lambda>x. p (Some x)" w r] by (simp add: take_pointer_def take_word_def)

lemma int_literal_FormatInt [simp]:
  assumes "in_i64 n"
  shows "int_literal (FormatInt n) = Some n"
proof (cases "n < 0")
  case True
  with assms show ?thesis by (simp add: int_literal_def FormatInt_def dec_digits Let_def)
next
  case False
  obtain c cs where c: "dec (nat n) = c # cs" by (cases "dec (nat n)") auto
  then have "c \<noteq> CHR ''-''" using dec_no_minus [of "nat n"] by auto
  moreover have "undec (c # cs) = nat n" "list_all is_digit (c # cs)"
    using c undec_dec [of "nat n"] dec_digits [of "nat n"] by simp_all
  ultimately show ?thesis using False assms c by (simp add: int_literal_def FormatInt_def)
qed

text \<open>A member whose key names a field exactly, and the update it stands for.\<close>

definition takes :: "'r field list \<Rightarrow> string \<times> jvalue \<Rightarrow> ('r \<Rightarrow> 'r) \<Rightarrow> bool" where
  "takes fs kv p \<longleftrightarrow>
     (\<exists>f. find (\<lambda>f. fst f = fst kv) fs = Some f \<and> (\<forall>r. snd f (snd kv) r = Some (p r)))"

definition put_member :: "'r field list \<Rightarrow> string \<times> jvalue \<Rightarrow> 'r \<Rightarrow> 'r" where
  "put_member fs kv r = the (snd (the (find (\<lambda>f. fst f = fst kv) fs)) (snd kv) r)"

lemma decode_members_fold:
  "list_all (\<lambda>kv. takes fs kv (put_member fs kv)) kvs \<Longrightarrow> decode_members sf fs kvs r = Some (fold (put_member fs) kvs r)"
  by (induction kvs arbitrary: r) (auto simp: takes_def field_of_def)

text \<open>
  Members that name fields of a schema, in which no two interfere, and what they make of the zero
  value: they may come in any order.
\<close>

definition reads_as :: "'r field list \<Rightarrow> (string \<times> jvalue) list \<Rightarrow> 'r \<Rightarrow> 'r \<Rightarrow> bool" where
  "reads_as fs kvs zero x \<longleftrightarrow>
     list_all (\<lambda>kv. takes fs kv (put_member fs kv)) kvs \<and>
     list_all (\<lambda>a. list_all (\<lambda>b. \<forall>r. put_member fs a (put_member fs b r) = put_member fs b (put_member fs a r)) kvs) kvs \<and>
     fold (put_member fs) kvs zero = x"

lemma decode_members_any_order:
  assumes "reads_as fs kvs zero x" and "mset kvs' = mset kvs"
  shows "decode_members sf fs kvs' zero = Some x"
proof -
  have "list_all (\<lambda>kv. takes fs kv (put_member fs kv)) kvs'"
    using assms(1) mset_eq_setD [OF assms(2)] by (simp add: list_all_iff reads_as_def)
  moreover have "fold (put_member fs) kvs = fold (put_member fs) kvs'"
    using assms by (intro fold_multiset_equiv) (auto simp: list_all_iff reads_as_def fun_eq_iff)
  ultimately show ?thesis using assms(1) by (simp add: decode_members_fold reads_as_def)
qed

text \<open>
  What a column of type JSON keeps of an object: its members, in an order of its own. A printer
  of such a column is one whose text reads back as those members.
\<close>

definition members_of :: "json \<Rightarrow> (string \<times> jvalue) list" where
  "members_of v = (case jv_of v of VObject kvs \<Rightarrow> kvs | _ \<Rightarrow> [])"

definition reprints :: "(json \<Rightarrow> string) \<Rightarrow> json \<Rightarrow> bool" where
  "reprints pr v \<longleftrightarrow> (\<exists>kvs. unmarshal_text (pr v) = Some (VObject kvs) \<and> mset kvs = mset (members_of v))"

lemma reprints_decodes:
  "\<lbrakk>reprints pr v; reads_as fs (members_of v) zero x\<rbrakk> \<Longrightarrow> Unmarshal sf fs zero (pr v) = Some x"
  by (auto simp: reprints_def Unmarshal_def decode_struct_def decode_members_any_order)

lemma members_of_JObj [simp]: "members_of (JObj kvs) = map (\<lambda>(k, v). (k, jv_of v)) kvs"
  by (simp add: members_of_def)

lemma jv_of_word [simp]: "jv_of (json_word w) = VNumber (FormatInt (uint w))"
  by (simp add: json_word_def)

lemmas reading = reads_as_def takes_def put_member_def take_string_def take_int64_def

lemma reads_comment: "reads_as comment_fields (members_of (marshal_comment evt)) zero_comment evt"
  by (simp add: reading marshal_comment_def comment_fields_def zero_comment_def)

lemma reads_watch_minute:
  "reads_as watch_minute_fields (members_of (marshal_watch_minute evt)) zero_watch_minute evt"
  by (simp add: reading marshal_watch_minute_def watch_minute_fields_def zero_watch_minute_def)

lemma reads_session_closed:
  "in_i64 (lsc_ClosedAtMs evt) \<Longrightarrow>
     reads_as session_closed_fields (members_of (marshal_session_closed evt)) zero_session_closed evt"
  by (simp add: reading marshal_session_closed_def session_closed_fields_def zero_session_closed_def)

lemma takes_put: "takes fs kv p \<Longrightarrow> put_member fs kv = p"
  by (auto simp: takes_def put_member_def)

lemma takes_gift_accepted:
  "takes gift_accepted_fields (''event_type'', VString s) (lga_EventType_update (\<lambda>_. s))"
  "takes gift_accepted_fields (''gift_order_id'', VNumber (FormatInt (uint w))) (lga_GiftOrderID_update (\<lambda>_. w))"
  "takes gift_accepted_fields (''viewer_id'', VNumber (FormatInt (uint w))) (lga_ViewerID_update (\<lambda>_. w))"
  "takes gift_accepted_fields (''creator_id'', VNumber (FormatInt (uint w))) (lga_CreatorID_update (\<lambda>_. w))"
  "takes gift_accepted_fields (''live_session_id'', VNumber (FormatInt (uint w))) (lga_LiveSessionID_update (\<lambda>_. w))"
  "takes gift_accepted_fields (''campaign_id'', VNumber (FormatInt (uint w))) (lga_CampaignID_update (\<lambda>_. Some w))"
  "takes gift_accepted_fields (''match_id'', VNumber (FormatInt (uint w))) (lga_MatchID_update (\<lambda>_. Some w))"
  "takes gift_accepted_fields (''gift_id'', VString s) (lga_GiftID_update (\<lambda>_. s))"
  "takes gift_accepted_fields (''quantity'', VNumber (FormatInt (uint w16))) (lga_Quantity_update (\<lambda>_. w16))"
  "takes gift_accepted_fields (''charged_coins'', VNumber (FormatInt (uint w32))) (lga_ChargedCoins_update (\<lambda>_. w32))"
  "takes gift_accepted_fields (''match_points_added'', VNumber (FormatInt (uint w32))) (lga_MatchPoints_update (\<lambda>_. w32))"
  "takes gift_accepted_fields (''diamond_reward'', VNumber (FormatInt (uint w32))) (lga_DiamondReward_update (\<lambda>_. w32))"
  "takes gift_accepted_fields (''request_id'', VString s) (lga_RequestID_update (\<lambda>_. s))"
  by (simp_all add: takes_def gift_accepted_fields_def take_string_def)

lemmas put_gift_accepted = takes_gift_accepted [THEN takes_put]

lemma reads_gift_accepted:
  "reads_as gift_accepted_fields (members_of (marshal_gift_accepted evt)) zero_gift_accepted evt"
  unfolding reads_as_def
proof (intro conjI)
  let ?ms = "members_of (marshal_gift_accepted evt)"
  note ms = marshal_gift_accepted_def omitempty_def put_gift_accepted
  show "list_all (\<lambda>kv. takes gift_accepted_fields kv (put_member gift_accepted_fields kv)) ?ms"
    by (simp add: ms takes_gift_accepted split: option.split)
  show "list_all (\<lambda>a. list_all (\<lambda>b. \<forall>r. put_member gift_accepted_fields a (put_member gift_accepted_fields b r) =
      put_member gift_accepted_fields b (put_member gift_accepted_fields a r)) ?ms) ?ms"
    by (simp add: ms split: option.split)
  show "fold (put_member gift_accepted_fields) ?ms zero_gift_accepted = evt"
    by (simp add: ms zero_gift_accepted_def split: option.split)
qed

text \<open>\<open>json.Marshal\<close> itself is such a printer, for strings that are valid UTF-8.\<close>

lemma json_text_reprints: "\<lbrakk>json_utf8 (JObj kvs); json_depth (JObj kvs) \<le> 10000\<rbrakk> \<Longrightarrow> reprints json_text (JObj kvs)"
  using unmarshal_json_text [of "JObj kvs"] by (simp add: reprints_def)

end
