(* ===== verification/Workers.thy ===== *)
theory Workers
  imports Codec LiveBoards World
begin

text \<open>
  The consumers (\<open>cmd/points-projector\<close>, \<open>cmd/leaderboard-projector\<close>, \<open>cmd/settlement-worker\<close>):
  what each does with one message, the loop \<open>ConsumeClaim\<close> over the messages of a partition, and
  the sessions of a consumer group, which starts each one at an offset that was committed for a
  marked message. The metrics on the lag of a message are left out.
\<close>

section \<open>One message\<close>

primrec header_event_id :: "(string \<times> string) list \<Rightarrow> u64" where
  "header_event_id [] = 0"
| "header_event_id (h # hs) =
     (if fst h \<noteq> ''event_id'' then header_event_id hs
      else case ParseUint (snd h) of None \<Rightarrow> 0 | Some v \<Rightarrow> v)"

definition extractEventID :: "message \<Rightarrow> u64" where
  "extractEventID msg = header_event_id (mg_Headers msg)"

text \<open>
  A handler answers a message with the error it returns, which ends the claim, or with the
  metadata under which it marks the message.
\<close>

definition mark_as :: "string \<Rightarrow> (go_error + 'a) \<times> 's \<Rightarrow> (go_error + string) \<times> 's" where
  "mark_as meta x = (case x of (Inl er, s) \<Rightarrow> (Inl er, s) | (Inr _, s) \<Rightarrow> (Inr meta, s))"

definition points_message :: "env \<Rightarrow> message \<Rightarrow> db \<Rightarrow> (go_error + string) \<times> db" where
  "points_message e msg d =
     (let eventID = extractEventID msg in
      if eventID = 0 then (Inr ''missing_event_id'', d)
      else if mg_Topic msg = ''live.gift.accepted.v1'' then
        (case Unmarshal (simple_fold e) gift_accepted_fields zero_gift_accepted (mg_Value msg) of
          None \<Rightarrow> (Inr ''bad_payload'', d)
        | Some evt \<Rightarrow> mark_as ''applied'' (ApplyGift e eventID evt d))
      else if mg_Topic msg = ''live.comment.created.v1'' then
        (case Unmarshal (simple_fold e) comment_fields zero_comment (mg_Value msg) of
          None \<Rightarrow> (Inr ''bad_payload'', d)
        | Some evt \<Rightarrow> mark_as ''applied'' (ApplyComment e eventID evt d))
      else if mg_Topic msg = ''live.watch.minute.v1'' then
        (case Unmarshal (simple_fold e) watch_minute_fields zero_watch_minute (mg_Value msg) of
          None \<Rightarrow> (Inr ''bad_payload'', d)
        | Some evt \<Rightarrow> mark_as ''applied'' (ApplyWatchMinute e eventID evt d))
      else (Inr ''applied'', d))"

definition leaderboard_message ::
  "env \<times> (nat \<Rightarrow> reply) \<Rightarrow> message \<Rightarrow> db \<times> redis \<Rightarrow> (go_error + string) \<times> db \<times> redis" where
  "leaderboard_message er msg st =
     (let eventID = extractEventID msg in
      if eventID = 0 then (Inr ''missing_event_id'', st)
      else
        (case Unmarshal (simple_fold (fst er)) gift_accepted_fields zero_gift_accepted (mg_Value msg) of
          None \<Rightarrow> (Inr ''bad_payload'', st)
        | Some evt \<Rightarrow> mark_as ''applied'' (ApplyAcceptedGift (fst er) (snd er) eventID evt st)))"

definition settlement_message :: "env \<Rightarrow> message \<Rightarrow> db \<Rightarrow> (go_error + string) \<times> db" where
  "settlement_message e msg d =
     (case Unmarshal (simple_fold e) session_closed_fields zero_session_closed (mg_Value msg) of
       None \<Rightarrow> (Inr ''bad_payload'', d)
     | Some evt \<Rightarrow> mark_as ''settled'' (GenerateSettlement e (lsc_LiveSessionID evt) d))"

section \<open>A claim\<close>

text \<open>
  The loop over \<open>claim.Messages()\<close>, each message with the circumstances it is handled under; it
  ends when the channel is closed or a handler returns an error. The marks come back in order.
\<close>

primrec ConsumeClaim ::
  "('x \<Rightarrow> message \<Rightarrow> 's \<Rightarrow> (go_error + string) \<times> 's) \<Rightarrow> ('x \<times> message) list \<Rightarrow> 's \<Rightarrow>
     (go_error + unit) \<times> (message \<times> string) list \<times> 's" where
  "ConsumeClaim handle [] s = (Inr (), [], s)"
| "ConsumeClaim handle (xm # xms) s =
     (case handle (fst xm) (snd xm) s of
       (Inl er, s') \<Rightarrow> (Inl er, [], s')
     | (Inr meta, s') \<Rightarrow>
         (case ConsumeClaim handle xms s' of
           (r, marks, s'') \<Rightarrow> (r, (snd xm, meta) # marks, s'')))"

definition points_ConsumeClaim ::
  "(env \<times> message) list \<Rightarrow> db \<Rightarrow> (go_error + unit) \<times> (message \<times> string) list \<times> db" where
  "points_ConsumeClaim = ConsumeClaim points_message"

definition leaderboard_ConsumeClaim ::
  "((env \<times> (nat \<Rightarrow> reply)) \<times> message) list \<Rightarrow> db \<times> redis \<Rightarrow>
     (go_error + unit) \<times> (message \<times> string) list \<times> db \<times> redis" where
  "leaderboard_ConsumeClaim = ConsumeClaim leaderboard_message"

definition settlement_ConsumeClaim ::
  "(env \<times> message) list \<Rightarrow> db \<Rightarrow> (go_error + unit) \<times> (message \<times> string) list \<times> db" where
  "settlement_ConsumeClaim = ConsumeClaim settlement_message"

text \<open>
  The loop of \<open>main\<close> around \<open>group.Consume\<close>, for one partition. A session starts at the committed
  offset and takes some of the messages from there; afterwards the committed offset is that of
  some marked message, or the old one when no commit went through. Between sessions the state may
  change as \<open>rel\<close> allows.
\<close>

inductive consumed ::
  "('x \<Rightarrow> message \<Rightarrow> 's \<Rightarrow> (go_error + string) \<times> 's) \<Rightarrow> ('x \<Rightarrow> bool) \<Rightarrow> ('s \<Rightarrow> 's \<Rightarrow> bool) \<Rightarrow>
     message list \<Rightarrow> 's \<Rightarrow> nat \<Rightarrow> 's \<Rightarrow> bool"
  for handle ok rel log s0 where
  start: "consumed handle ok rel log s0 0 s0"
| session:
    "consumed handle ok rel log s0 c s \<Longrightarrow> list_all ok xs \<Longrightarrow> length xs \<le> length log - c \<Longrightarrow>
     ConsumeClaim handle (zip xs (drop c log)) s = (r, marks, s') \<Longrightarrow> c \<le> c' \<Longrightarrow> c' \<le> c + length marks \<Longrightarrow>
     consumed handle ok rel log s0 c' s'"
| others:
    "consumed handle ok rel log s0 c s \<Longrightarrow> rel s s' \<Longrightarrow> consumed handle ok rel log s0 c s'"

section \<open>What a marked message promises\<close>

lemma ConsumeClaim_ConsE:
  assumes "ConsumeClaim handle (xm # xms) s = (r, marks, s')"
  obtains er where "handle (fst xm) (snd xm) s = (Inl er, s')" "r = Inl er" "marks = []"
    | meta s1 marks' where "handle (fst xm) (snd xm) s = (Inr meta, s1)"
        "ConsumeClaim handle xms s1 = (r, marks', s')" "marks = (snd xm, meta) # marks'"
  using assms by (auto split: prod.splits sum.splits)

text \<open>A claim marks a prefix of its messages: all of them, unless a handler returned an error.\<close>

lemma ConsumeClaim_marks:
  assumes "ConsumeClaim handle xms s = (r, marks, s')"
  shows "map fst marks = take (length marks) (map snd xms) \<and> length marks \<le> length xms \<and>
    (r = Inr () \<longrightarrow> length marks = length xms)"
  using assms
proof (induction xms arbitrary: s marks)
  case (Cons xm xms)
  from Cons.prems show ?case by (cases rule: ConsumeClaim_ConsE) (use Cons.IH in auto)
qed simp

lemma claim_of_log:
  "set (map snd (zip xs (drop c log))) \<subseteq> set log"
  "length xs \<le> length log - c \<Longrightarrow> map fst (zip xs (drop c log)) = xs"
  "length xs \<le> length log - c \<Longrightarrow> map snd (zip xs (drop c log)) = take (length xs) (drop c log)"
proof -
  have "snd z \<in> set log" if "z \<in> set (zip xs (drop c log))" for z
    using that by (metis in_set_dropD prod.collapse set_zip_rightD)
  then show "set (map snd (zip xs (drop c log))) \<subseteq> set log" by auto
qed (simp_all add: map_fst_zip_take map_snd_zip_take)

locale acknowledging =
  fixes handle :: "'x \<Rightarrow> message \<Rightarrow> 's \<Rightarrow> (go_error + string) \<times> 's"
    and ok :: "'x \<Rightarrow> bool" and rel :: "'s \<Rightarrow> 's \<Rightarrow> bool" and finished :: "message \<Rightarrow> 's \<Rightarrow> bool"
  assumes mark_finished: "ok x \<Longrightarrow> handle x m s = (Inr meta, s') \<Longrightarrow> finished m s'"
    and handle_keeps: "ok x \<Longrightarrow> handle x m s = (r, s') \<Longrightarrow> finished m' s \<Longrightarrow> finished m' s'"
    and rel_keeps: "rel s s' \<Longrightarrow> finished m' s \<Longrightarrow> finished m' s'"
begin

lemma claim_keeps:
  assumes "list_all ok (map fst xms)" and "ConsumeClaim handle xms s = (r, marks, s')" and "finished m s"
  shows "finished m s'"
  using assms
proof (induction xms arbitrary: s marks)
  case (Cons xm xms)
  have "ok (fst xm)" "list_all ok (map fst xms)" using Cons.prems(1) by simp_all
  from Cons.prems(2) this show ?case
    by (cases rule: ConsumeClaim_ConsE) (use Cons.IH Cons.prems(3) handle_keeps in blast)+
qed simp

lemma claim_finished:
  assumes "list_all ok (map fst xms)" and "ConsumeClaim handle xms s = (r, marks, s')" and "m \<in> fst ` set marks"
  shows "finished m s'"
  using assms
proof (induction xms arbitrary: s marks)
  case (Cons xm xms)
  have ok: "ok (fst xm)" "list_all ok (map fst xms)" using Cons.prems(1) by simp_all
  from Cons.prems(2) show ?case
  proof (cases rule: ConsumeClaim_ConsE)
    case (2 meta s1 marks')
    then consider "m = snd xm" | "m \<in> fst ` set marks'" using Cons.prems(3) by auto
    then show ?thesis
    proof cases
      case 1
      then have "finished m s1" using mark_finished [OF ok(1) 2(1)] by simp
      then show ?thesis by (rule claim_keeps [OF ok(2) 2(2)])
    next
      case _: 2
      then show ?thesis by (rule Cons.IH [OF ok(2) 2(2)])
    qed
  qed (use Cons.prems(3) in simp)
qed simp

text \<open>Every message below the committed offset is finished: none is lost.\<close>

lemma committed_finished:
  assumes "consumed handle ok rel log s0 c s"
  shows "c \<le> length log \<and> (\<forall>m \<in> set (take c log). finished m s)"
  using assms
proof induction
  case (session c s xs r marks s' c')
  let ?xms = "zip xs (drop c log)"
  note len = session(3)
  have marks: "map fst marks = take (length marks) (drop c log)" "length marks \<le> length xs"
    using ConsumeClaim_marks [OF session(4)] len by (simp_all add: claim_of_log(3) min_absorb1)
  have ok: "list_all ok (map fst ?xms)" using session(2) len by (simp add: claim_of_log(2))
  have "finished m s'" if "m \<in> set (take c' log)" for m
  proof (cases "m \<in> set (take c log)")
    case True
    with session show ?thesis using claim_keeps [OF ok session(4)] by blast
  next
    case False
    have "take c' log = take c log @ take (c' - c) (drop c log)"
      using session(5) by (metis le_add_diff_inverse take_add)
    with False that have "m \<in> set (take (c' - c) (drop c log))" by simp
    moreover have "set (take (c' - c) (drop c log)) \<subseteq> set (take (length marks) (drop c log))"
      using session(6) by (intro set_take_subset_set_take) simp
    ultimately have "m \<in> fst ` set marks" using marks(1) by (metis image_set subset_iff)
    then show ?thesis by (rule claim_finished [OF ok session(4)])
  qed
  with session marks(2) show ?case by auto
next
  case (others c s s')
  then show ?case using rel_keeps by blast
qed simp

end

text \<open>
  An invariant of the state that the messages of a log keep, when the log is consistent.
\<close>

locale acknowledging_inv = acknowledging +
  fixes consistent :: "message list \<Rightarrow> bool" and inv :: "message list \<Rightarrow> 'b \<Rightarrow> bool"
  assumes handle_inv:
      "consistent log \<Longrightarrow> m \<in> set log \<Longrightarrow> ok x \<Longrightarrow> handle x m s = (r, s') \<Longrightarrow> inv log s \<Longrightarrow> inv log s'"
    and rel_inv: "rel s s' \<Longrightarrow> inv log s \<Longrightarrow> inv log s'"
begin

lemma claim_inv:
  assumes "consistent log" and "list_all ok (map fst xms)" and "set (map snd xms) \<subseteq> set log"
    and "ConsumeClaim handle xms s = (r, marks, s')" and "inv log s"
  shows "inv log s'"
  using assms(2-)
proof (induction xms arbitrary: s marks)
  case (Cons xm xms)
  have xm: "ok (fst xm)" "snd xm \<in> set log" "list_all ok (map fst xms)" "set (map snd xms) \<subseteq> set log"
    using Cons.prems(1,2) by simp_all
  from Cons.prems(3) show ?case
  proof (cases rule: ConsumeClaim_ConsE)
    case (1 er)
    then show ?thesis using handle_inv [OF assms(1) xm(2,1)] Cons.prems(4) by blast
  next
    case (2 meta s1 marks')
    then show ?thesis using handle_inv [OF assms(1) xm(2,1)] Cons.IH [OF xm(3,4)] Cons.prems(4) by blast
  qed
qed simp

lemma consumed_inv:
  assumes "consumed handle ok rel log s0 c s" and "consistent log" and "inv log s0"
  shows "inv log s"
  using assms
proof induction
  case (session c s xs r marks s' c')
  have "list_all ok (map fst (zip xs (drop c log)))"
    using session(2,3) by (simp add: claim_of_log(2))
  then show ?case using claim_inv [OF _ _ claim_of_log(1)] session by blast
next
  case (others c s s')
  then show ?case using rel_inv by blast
qed simp

end

text \<open>
  A message that is refused whenever it comes: the committed offset never passes it.
\<close>

lemma claim_stuck:
  assumes step: "\<And>x m s r s'. ok x \<Longrightarrow> m \<in> set log \<Longrightarrow> P s \<Longrightarrow> handle x m s = (r, s') \<Longrightarrow>
      P s' \<and> (m = bad \<longrightarrow> (\<exists>er. r = Inl er))"
    and "list_all ok (map fst xms)" and "set (map snd xms) \<subseteq> set log"
    and "ConsumeClaim handle xms s = (r, marks, s')" and "P s"
  shows "P s' \<and> bad \<notin> fst ` set marks"
  using assms(2-)
proof (induction xms arbitrary: s marks)
  case (Cons xm xms)
  have xm: "ok (fst xm)" "snd xm \<in> set log" "list_all ok (map fst xms)" "set (map snd xms) \<subseteq> set log"
    using Cons.prems(1,2) by simp_all
  from Cons.prems(3) show ?case
  proof (cases rule: ConsumeClaim_ConsE)
    case (1 er)
    then show ?thesis using step [OF xm(1,2) Cons.prems(4)] by simp
  next
    case (2 meta s1 marks')
    then have "P s1" "snd xm \<noteq> bad" using step [OF xm(1,2) Cons.prems(4)] by auto
    then show ?thesis using Cons.IH [OF xm(3,4) 2(2)] 2(3) by auto
  qed
qed simp

lemma consumed_stuck:
  assumes run: "consumed handle ok rel log s0 c s" and p: "p < length log"
    and step: "\<And>x m s r s'. ok x \<Longrightarrow> m \<in> set log \<Longrightarrow> P s \<Longrightarrow> handle x m s = (r, s') \<Longrightarrow>
      P s' \<and> (m = log ! p \<longrightarrow> (\<exists>er. r = Inl er))"
    and rel: "\<And>s s'. rel s s' \<Longrightarrow> P s \<Longrightarrow> P s'" and "P s0"
  shows "c \<le> p \<and> P s"
  using run
proof induction
  case (session c s xs r marks s' c')
  let ?xms = "zip xs (drop c log)"
  have ok: "list_all ok (map fst ?xms)" using session(2,3) by (simp add: claim_of_log(2))
  have st: "P s'" "log ! p \<notin> fst ` set marks"
    using claim_stuck [of ok log P handle, OF step ok claim_of_log(1) session(4)] session.IH by simp_all
  have marks: "map fst marks = take (length marks) (take (length xs) (drop c log))" "length marks \<le> length xs"
    using ConsumeClaim_marks [OF session(4)] session(3) by (simp_all add: claim_of_log(3))
  have "c + length marks \<le> p"
  proof (rule ccontr)
    assume "\<not> c + length marks \<le> p"
    then have less: "p - c < length marks" using session.IH by auto
    then have "map fst marks ! (p - c) = log ! p"
      unfolding marks(1) using marks(2) session p by (simp add: nth_take nth_drop)
    with less have "log ! p \<in> fst ` set marks" by (metis image_set length_map nth_mem)
    with st(2) show False ..
  qed
  with st(1) session(6) show ?case by simp
next
  case (others c s s')
  then show ?case using rel by blast
qed (use assms(5) in simp)

section \<open>The points projector\<close>

text \<open>The numbered event in a message, when it has one.\<close>

definition point_event_of :: "(nat \<Rightarrow> nat) \<Rightarrow> message \<Rightarrow> (u64 \<times> point_event) option" where
  "point_event_of sf m =
     (if extractEventID m = 0 then None
      else map_option (Pair (extractEventID m))
        (if mg_Topic m = ''live.gift.accepted.v1''
           then map_option GiftEvent (Unmarshal sf gift_accepted_fields zero_gift_accepted (mg_Value m))
         else if mg_Topic m = ''live.comment.created.v1''
           then map_option CommentEvent (Unmarshal sf comment_fields zero_comment (mg_Value m))
         else if mg_Topic m = ''live.watch.minute.v1''
           then map_option WatchEvent (Unmarshal sf watch_minute_fields zero_watch_minute (mg_Value m))
         else None))"

lemma points_message_event:
  "point_event_of (simple_fold e) m = Some ev \<Longrightarrow>
     points_message e m d = mark_as ''applied'' (project_points e ev d)"
  by (auto simp: points_message_def point_event_of_def Let_def split: if_splits)

lemma points_message_none:
  "point_event_of (simple_fold e) m = None \<Longrightarrow> \<exists>meta. points_message e m d = (Inr meta, d)"
  by (auto simp: points_message_def point_event_of_def Let_def split: if_splits)

lemma mark_as_eq:
  "mark_as meta x = (Inr t, s) \<longleftrightarrow> (\<exists>y. x = (Inr y, s)) \<and> t = meta"
  "mark_as meta x = (Inl er, s) \<longleftrightarrow> x = (Inl er, s)"
  by (auto simp: mark_as_def split: prod.splits sum.splits)

lemma mark_as_state: "mark_as meta x = (r, s) \<Longrightarrow> \<exists>y. x = (y, s)"
  by (auto simp: mark_as_def split: prod.splits sum.splits)

text \<open>What else may happen to the database while the projector is not at work.\<close>

definition points_kept :: "(string \<Rightarrow> string) \<Rightarrow> db \<Rightarrow> db \<Rightarrow> bool" where
  "points_kept coll d d' \<longleftrightarrow>
     fan_point_ledger d' = fan_point_ledger d \<and>
     (\<forall>eid. dedupe_known pointsConsumer coll eid d' = dedupe_known pointsConsumer coll eid d)"

definition worker_env :: "(string \<Rightarrow> string) \<Rightarrow> (nat \<Rightarrow> nat) \<Rightarrow> env \<Rightarrow> bool" where
  "worker_env coll sf e \<longleftrightarrow> quiet e \<and> collate e = coll \<and> simple_fold e = sf"

definition points_finished :: "(string \<Rightarrow> string) \<Rightarrow> (nat \<Rightarrow> nat) \<Rightarrow> message \<Rightarrow> db \<Rightarrow> bool" where
  "points_finished coll sf m d \<longleftrightarrow>
     (case point_event_of sf m of None \<Rightarrow> True | Some ev \<Rightarrow> dedupe_known pointsConsumer coll (fst ev) d)"

lemma points_finished_mono:
  assumes "points_finished coll sf m d"
    and "\<And>eid. dedupe_known pointsConsumer coll eid d \<Longrightarrow> dedupe_known pointsConsumer coll eid d'"
  shows "points_finished coll sf m d'"
  using assms by (cases "point_event_of sf m") (simp_all add: points_finished_def)

text \<open>One message leaves the tables of the projector as they were, or applies its event.\<close>

lemma points_message_cases:
  assumes "worker_env coll sf e" and "points_message e m d = (r, d')"
  obtains "untouched d d'" "(\<exists>er. r = Inl er) \<or> points_finished coll sf m d"
    | ev where "point_event_of sf m = Some ev" "points_effect e ev d d'"
proof (cases "point_event_of sf m")
  case None
  then obtain meta where "points_message e m d = (Inr meta, d)"
    using points_message_none [of e m d] assms(1) by (auto simp: worker_env_def)
  with assms(2) have "d' = d" by simp
  with None show ?thesis by (intro that(1)) (simp_all add: points_finished_def)
next
  case (Some ev)
  then have run: "mark_as ''applied'' (project_points e ev d) = (r, d')"
    using points_message_event [of e m ev d] assms by (simp add: worker_env_def)
  obtain y where y: "project_points e ev d = (y, d')" using mark_as_state [OF run] by (elim exE)
  have r: "r = (case y of Inl er \<Rightarrow> Inl er | Inr _ \<Rightarrow> Inr ''applied'')"
    using run y by (simp add: mark_as_def split: sum.splits)
  have "points_result e ev d y d'"
    using project_points_cases [OF _ y] assms(1) by (simp add: worker_env_def)
  then show ?thesis
    unfolding points_result_def
  proof
    assume u: "untouched d d' \<and> (y = Inr () \<longrightarrow> dedupe_known pointsConsumer (collate e) (fst ev) d)"
    have "(\<exists>er. r = Inl er) \<or> points_finished coll sf m d"
      using u r assms(1) Some by (cases y) (simp_all add: points_finished_def worker_env_def)
    with u show ?thesis by (intro that(1)) simp_all
  next
    assume "points_effect e ev d d'"
    then show ?thesis by (rule that(2) [OF Some])
  qed
qed

lemma points_effect_known:
  assumes "points_effect e ev d d'"
  shows "dedupe_known pointsConsumer (collate e) eid d' \<longleftrightarrow>
    eid = fst ev \<or> dedupe_known pointsConsumer (collate e) eid d"
  using assms by (auto simp: points_effect_def projected_def dedupe_known_def dedupe_row_def)

lemma points_message_known:
  assumes env: "worker_env coll sf e" and run: "points_message e m d = (r, d')"
  shows "dedupe_known pointsConsumer coll eid d \<Longrightarrow> dedupe_known pointsConsumer coll eid d'"
    and "r = Inr meta \<Longrightarrow> points_finished coll sf m d'"
proof -
  have coll: "collate e = coll" using env by (simp add: worker_env_def)
  have "(dedupe_known pointsConsumer coll eid d \<longrightarrow> dedupe_known pointsConsumer coll eid d') \<and>
      (r = Inr meta \<longrightarrow> points_finished coll sf m d')"
    using env run
  proof (cases rule: points_message_cases)
    case 1
    then have "dedupe_known pointsConsumer coll i d' = dedupe_known pointsConsumer coll i d" for i
      by (simp add: untouched_iff dedupe_known_def)
    moreover from this have "points_finished coll sf m d' = points_finished coll sf m d"
      by (simp add: points_finished_def cong: option.case_cong)
    ultimately show ?thesis using 1 by auto
  next
    case (2 ev)
    then show ?thesis using points_effect_known [OF 2(2)] coll by (simp add: points_finished_def)
  qed
  then show "dedupe_known pointsConsumer coll eid d \<Longrightarrow> dedupe_known pointsConsumer coll eid d'"
    "r = Inr meta \<Longrightarrow> points_finished coll sf m d'" by simp_all
qed

interpretation points_worker:
  acknowledging points_message "worker_env coll sf" "points_kept coll" "points_finished coll sf" for coll sf
proof unfold_locales
  show "points_finished coll sf m d'"
    if "worker_env coll sf e" "points_message e m d = (Inr meta, d')" for e m d meta d'
    using points_message_known(2) [OF that refl] .
  show "points_finished coll sf m' d'"
    if "worker_env coll sf e" "points_message e m d = (r, d')" "points_finished coll sf m' d" for e m d r d' m'
    using that(3) points_message_known(1) [OF that(1,2)] by (rule points_finished_mono)
  show "points_finished coll sf m' d'" if "points_kept coll d d'" "points_finished coll sf m' d" for d d' m'
    using that(2) by (rule points_finished_mono) (use that(1) in \<open>simp add: points_kept_def\<close>)
qed

text \<open>
  In a log in which a number stands for one event, the record of a gift comes with its points.
\<close>

definition numbered :: "(nat \<Rightarrow> nat) \<Rightarrow> message list \<Rightarrow> bool" where
  "numbered sf log \<longleftrightarrow>
     (\<forall>m \<in> set log. \<forall>m' \<in> set log. \<forall>ev ev'.
        point_event_of sf m = Some ev \<longrightarrow> point_event_of sf m' = Some ev' \<longrightarrow> fst ev = fst ev' \<longrightarrow> ev = ev')"

lemma numberedD:
  "\<lbrakk>numbered sf log; m \<in> set log; m' \<in> set log; point_event_of sf m = Some ev;
    point_event_of sf m' = Some ev'; fst ev = fst ev'\<rbrakk> \<Longrightarrow> ev = ev'"
  unfolding numbered_def by blast

definition has_gift_points :: "u64 \<Rightarrow> LiveGiftAcceptedV1 \<Rightarrow> db \<Rightarrow> bool" where
  "has_gift_points eid evt d \<longleftrightarrow>
     list_ex (\<lambda>r. r = fan_row eid (lga_ViewerID evt) (lga_CreatorID evt) (lga_LiveSessionID evt)
         (uint (lga_ChargedCoins evt)) GIFT (fp_CreatedAt r)) (fan_point_ledger d)"

definition gifts_have_points :: "(string \<Rightarrow> string) \<Rightarrow> (nat \<Rightarrow> nat) \<Rightarrow> message list \<Rightarrow> db \<Rightarrow> bool" where
  "gifts_have_points coll sf log d \<longleftrightarrow>
     (\<forall>m \<in> set log. \<forall>eid evt. point_event_of sf m = Some (eid, GiftEvent evt) \<longrightarrow>
        dedupe_known pointsConsumer coll eid d \<longrightarrow> has_gift_points eid evt d)"

lemma gifts_have_points_other:
  assumes "gifts_have_points coll sf log d" and "fan_point_ledger d' = fan_point_ledger d"
    and "\<And>eid. dedupe_known pointsConsumer coll eid d' = dedupe_known pointsConsumer coll eid d"
  shows "gifts_have_points coll sf log d'"
  using assms by (simp add: gifts_have_points_def has_gift_points_def)

lemma gifts_have_points_effect:
  assumes inv: "gifts_have_points (collate e) sf log d" and eff: "points_effect e ev d d'"
    and m: "m \<in> set log" "point_event_of sf m = Some ev" and num: "numbered sf log"
  shows "gifts_have_points (collate e) sf log d'"
  unfolding gifts_have_points_def
proof (intro ballI allI impI)
  fix m' eid evt
  assume m': "m' \<in> set log" "point_event_of sf m' = Some (eid, GiftEvent evt)"
    and known: "dedupe_known pointsConsumer (collate e) eid d'"
  obtain ts where d': "d' = projected ev ts d" using eff by (auto simp: points_effect_def)
  consider "eid = fst ev" | "dedupe_known pointsConsumer (collate e) eid d"
    using known points_effect_known [OF eff] by blast
  then show "has_gift_points eid evt d'"
  proof cases
    case 1
    then have "ev = (eid, GiftEvent evt)" by (intro numberedD [OF num m(1) m'(1) m(2) m'(2)]) simp
    then show ?thesis by (simp add: d' projected_def has_gift_points_def fan_row_def)
  next
    case 2
    then have "has_gift_points eid evt d" using inv m' by (auto simp: gifts_have_points_def)
    then show ?thesis by (auto simp: d' projected_def has_gift_points_def)
  qed
qed

interpretation points_ledger:
  acknowledging_inv points_message "worker_env coll sf" "points_kept coll" "points_finished coll sf"
    "numbered sf" "gifts_have_points coll sf" for coll sf
proof unfold_locales
  show "gifts_have_points coll sf log d'"
    if "numbered sf log" "m \<in> set log" "worker_env coll sf e" "points_message e m d = (r, d')"
      "gifts_have_points coll sf log d" for log m e d r d'
    using that(3,4)
  proof (cases rule: points_message_cases)
    case 1
    then show ?thesis
      using that(5) by (elim gifts_have_points_other) (simp_all add: untouched_iff dedupe_known_def)
  next
    case (2 ev)
    moreover have "collate e = coll" using that(3) by (simp add: worker_env_def)
    ultimately show ?thesis using gifts_have_points_effect [of e sf log d ev d' m] that by simp
  qed
  show "gifts_have_points coll sf log d'" if "points_kept coll d d'" "gifts_have_points coll sf log d" for d d' log
    using that(2) by (rule gifts_have_points_other) (use that(1) in \<open>simp_all add: points_kept_def\<close>)
qed

text \<open>
  A gift of \<open>2 ^ 31\<close> coins or more: its points do not fit the column, so that the projector
  returns an error for it, each time.
\<close>

lemma large_gift_step:
  assumes env: "worker_env coll sf e" and num: "numbered sf log" and bad: "bad \<in> set log" "m \<in> set log"
    and evt: "point_event_of sf bad = Some (eid, GiftEvent evt)" and big: "2 ^ 31 \<le> uint (lga_ChargedCoins evt)"
    and new: "\<not> dedupe_known pointsConsumer coll eid d" and run: "points_message e m d = (r, d')"
  shows "\<not> dedupe_known pointsConsumer coll eid d' \<and> (m = bad \<longrightarrow> (\<exists>er. r = Inl er))"
  using env run
proof (cases rule: points_message_cases)
  case 1
  then have "\<not> dedupe_known pointsConsumer coll eid d'"
    using new by (simp add: untouched_iff dedupe_known_def)
  with 1(2) new evt show ?thesis by (auto simp: points_finished_def)
next
  case (2 ev)
  have coll: "collate e = coll" using env by (simp add: worker_env_def)
  have ev: "fst ev \<noteq> eid"
  proof
    assume "fst ev = eid"
    then have "ev = (eid, GiftEvent evt)" by (intro numberedD [OF num bad(2,1) 2(1) evt]) simp
    then show False using 2(2) big by (auto simp: points_effect_def projectable_def fan_row_def fits_int32_def)
  qed
  then have "m \<noteq> bad" using 2(1) evt by auto
  moreover have "\<not> dedupe_known pointsConsumer coll eid d'"
    using points_effect_known [OF 2(2)] new ev coll by simp
  ultimately show ?thesis by simp
qed

section \<open>The leaderboard projector\<close>

definition gift_event_of :: "(nat \<Rightarrow> nat) \<Rightarrow> message \<Rightarrow> (u64 \<times> LiveGiftAcceptedV1) option" where
  "gift_event_of sf m =
     (if extractEventID m = 0 then None
      else map_option (Pair (extractEventID m))
        (Unmarshal sf gift_accepted_fields zero_gift_accepted (mg_Value m)))"

lemma leaderboard_message_eq:
  "leaderboard_message (e, rp) m st =
     (case gift_event_of (simple_fold e) m of
       None \<Rightarrow> (Inr (if extractEventID m = 0 then ''missing_event_id'' else ''bad_payload''), st)
     | Some ev \<Rightarrow> mark_as ''applied'' (ApplyAcceptedGift e rp (fst ev) (snd ev) st))"
  by (simp add: leaderboard_message_def gift_event_of_def Let_def split: option.split)

definition leaderboard_kept :: "(string \<Rightarrow> string) \<Rightarrow> db \<times> redis \<Rightarrow> db \<times> redis \<Rightarrow> bool" where
  "leaderboard_kept coll st st' \<longleftrightarrow>
     (\<forall>eid. dedupe_known consumerName coll eid (fst st') = dedupe_known consumerName coll eid (fst st))"

definition leaderboard_finished ::
  "(string \<Rightarrow> string) \<Rightarrow> (nat \<Rightarrow> nat) \<Rightarrow> message \<Rightarrow> db \<times> redis \<Rightarrow> bool" where
  "leaderboard_finished coll sf m st \<longleftrightarrow>
     (case gift_event_of sf m of None \<Rightarrow> True | Some ev \<Rightarrow> dedupe_known consumerName coll (fst ev) (fst st))"

lemma ApplyAcceptedGift_known:
  assumes env: "quiet e" and run: "ApplyAcceptedGift e rp eid evt st = (r, st')"
  shows "dedupe_known consumerName (collate e) i (fst st) \<Longrightarrow> dedupe_known consumerName (collate e) i (fst st')"
    and "r = Inr () \<Longrightarrow> dedupe_known consumerName (collate e) eid (fst st')"
proof -
  obtain d s d' s' where st: "st = (d, s)" "st' = (d', s')" by fastforce
  have same: "dedupe_known consumerName (collate e) j d' = dedupe_known consumerName (collate e) j d"
    if "untouched d d'" for j
    using that by (simp add: untouched_iff dedupe_known_def)
  have new: "dedupe_known consumerName (collate e) eid d'"
    "dedupe_known consumerName (collate e) j d \<Longrightarrow> dedupe_known consumerName (collate e) j d'"
    if "claimed e eid d d'" for j
    using that by (auto simp: claimed_def dedupe_known_def dedupe_row_def)
  note cases = ApplyAcceptedGift_cases [OF env run [unfolded st]]
  show "dedupe_known consumerName (collate e) i (fst st')" if "dedupe_known consumerName (collate e) i (fst st)"
    using cases that same new(2) unfolding st by auto
  show "dedupe_known consumerName (collate e) eid (fst st')" if "r = Inr ()"
    using cases that same new(1) unfolding st by auto
qed

lemma leaderboard_message_known:
  assumes env: "worker_env coll sf (fst x)" and run: "leaderboard_message x m st = (r, st')"
  shows "dedupe_known consumerName coll i (fst st) \<Longrightarrow> dedupe_known consumerName coll i (fst st')"
    and "r = Inr meta \<Longrightarrow> leaderboard_finished coll sf m st'"
proof -
  obtain e rp where x: "x = (e, rp)" by force
  have e: "quiet e" "collate e = coll" "simple_fold e = sf" using env by (simp_all add: x worker_env_def)
  note eq = leaderboard_message_eq [of e rp m st, folded x, unfolded e(3)]
  have "(dedupe_known consumerName coll i (fst st) \<longrightarrow> dedupe_known consumerName coll i (fst st')) \<and>
    (r = Inr meta \<longrightarrow> leaderboard_finished coll sf m st')"
  proof (cases "gift_event_of sf m")
    case None
    then show ?thesis using run eq by (simp add: leaderboard_finished_def)
  next
    case (Some ev)
    then have m: "mark_as ''applied'' (ApplyAcceptedGift e rp (fst ev) (snd ev) st) = (r, st')"
      using run eq by simp
    obtain y where y: "ApplyAcceptedGift e rp (fst ev) (snd ev) st = (y, st')"
      using mark_as_state [OF m] by (elim exE)
    have "y = Inr ()" if "r = Inr meta" using m y that by (cases y) (simp_all add: mark_as_def)
    then show ?thesis
      using ApplyAcceptedGift_known [OF e(1) y] e(2) Some by (simp add: leaderboard_finished_def)
  qed
  then show "dedupe_known consumerName coll i (fst st) \<Longrightarrow> dedupe_known consumerName coll i (fst st')"
    "r = Inr meta \<Longrightarrow> leaderboard_finished coll sf m st'" by simp_all
qed

lemma leaderboard_finished_mono:
  assumes "leaderboard_finished coll sf m st"
    and "\<And>eid. dedupe_known consumerName coll eid (fst st) \<Longrightarrow> dedupe_known consumerName coll eid (fst st')"
  shows "leaderboard_finished coll sf m st'"
  using assms by (cases "gift_event_of sf m") (simp_all add: leaderboard_finished_def)

interpretation leaderboard_worker:
  acknowledging leaderboard_message "\<lambda>x. worker_env coll sf (fst x)" "leaderboard_kept coll"
    "leaderboard_finished coll sf" for coll sf
proof unfold_locales
  show "leaderboard_finished coll sf m st'"
    if "worker_env coll sf (fst x)" "leaderboard_message x m st = (Inr meta, st')" for x m st meta st'
    using leaderboard_message_known(2) [OF that refl] .
  show "leaderboard_finished coll sf m' st'"
    if "worker_env coll sf (fst x)" "leaderboard_message x m st = (r, st')" "leaderboard_finished coll sf m' st"
    for x m st r st' m'
    using that(3) leaderboard_message_known(1) [OF that(1,2)] by (rule leaderboard_finished_mono)
  show "leaderboard_finished coll sf m' st'"
    if "leaderboard_kept coll st st'" "leaderboard_finished coll sf m' st" for st st' m'
    using that(2) by (rule leaderboard_finished_mono) (use that(1) in \<open>simp add: leaderboard_kept_def\<close>)
qed

section \<open>The settlement worker\<close>

definition has_settlement :: "u64 \<Rightarrow> db \<Rightarrow> bool" where
  "has_settlement sid d \<longleftrightarrow>
     list_ex (\<lambda>r. ss_LiveSessionID r = sid) (stream_settlements d) \<and>
     list_ex (\<lambda>r. rc_LiveSessionID r = sid) (reconciliation_results d)"

definition settlements_kept :: "db \<Rightarrow> db \<Rightarrow> bool" where
  "settlements_kept d d' \<longleftrightarrow>
     stream_settlements d' = stream_settlements d \<and> reconciliation_results d' = reconciliation_results d"

definition closed_session_of :: "(nat \<Rightarrow> nat) \<Rightarrow> message \<Rightarrow> u64 option" where
  "closed_session_of sf m =
     map_option lsc_LiveSessionID (Unmarshal sf session_closed_fields zero_session_closed (mg_Value m))"

definition settlement_finished :: "(nat \<Rightarrow> nat) \<Rightarrow> message \<Rightarrow> db \<Rightarrow> bool" where
  "settlement_finished sf m d \<longleftrightarrow>
     (case closed_session_of sf m of None \<Rightarrow> True | Some sid \<Rightarrow> has_settlement sid d)"

lemma list_ex_put: "list_ex (\<lambda>r. key r = k) (put key row rows) \<longleftrightarrow> k = key row \<or> list_ex (\<lambda>r. key r = k) rows"
proof -
  have "list_ex (\<lambda>r. key r = k) (map (\<lambda>r. if key r = key row then row else r) rows) = list_ex (\<lambda>r. key r = k) rows"
    by (induction rows) auto
  then show ?thesis by (auto simp: put_def list_ex_iff)
qed

lemma settled_settlement: "has_settlement k (settled coll sid t t' d) \<longleftrightarrow> k = sid \<or> has_settlement k d"
  by (auto simp: has_settlement_def settled_def list_ex_put settlement_row_def reconciliation_row_def Let_def)

lemma settlement_message_known:
  assumes env: "worker_env coll sf e" and run: "settlement_message e m d = (r, d')"
  shows "has_settlement k d \<Longrightarrow> has_settlement k d'"
    and "r = Inr meta \<Longrightarrow> settlement_finished sf m d'"
proof -
  have e: "quiet e" "simple_fold e = sf" using env by (simp_all add: worker_env_def)
  have "(has_settlement k d \<longrightarrow> has_settlement k d') \<and> (r = Inr meta \<longrightarrow> settlement_finished sf m d')"
  proof (cases "Unmarshal sf session_closed_fields zero_session_closed (mg_Value m)")
    case None
    then show ?thesis using run e by (simp add: settlement_message_def settlement_finished_def closed_session_of_def)
  next
    case (Some evt)
    then have m: "mark_as ''settled'' (GenerateSettlement e (lsc_LiveSessionID evt) d) = (r, d')"
      using run e by (simp add: settlement_message_def)
    obtain y where y: "GenerateSettlement e (lsc_LiveSessionID evt) d = (y, d')"
      using mark_as_state [OF m] by (elim exE)
    have ok: "\<exists>x. y = Inr x" if "r = Inr meta" using m y that by (cases y) (simp_all add: mark_as_def)
    have "settlement_result e (lsc_LiveSessionID evt) d y d'" by (rule GenerateSettlement_cases [OF e(1) y])
    then consider "untouched d d'" "\<exists>er. y = Inl er"
      | t t' where "d' = settled (collate e) (lsc_LiveSessionID evt) t t' d"
      unfolding settlement_result_def by blast
    then show ?thesis
    proof cases
      case 1
      then show ?thesis using ok by (auto simp: has_settlement_def untouched_iff)
    next
      case 2
      then show ?thesis using Some by (simp add: settled_settlement settlement_finished_def closed_session_of_def)
    qed
  qed
  then show "has_settlement k d \<Longrightarrow> has_settlement k d'" "r = Inr meta \<Longrightarrow> settlement_finished sf m d'"
    by simp_all
qed

interpretation settlement_worker:
  acknowledging settlement_message "worker_env coll sf" settlements_kept "settlement_finished sf" for coll sf
proof unfold_locales
  show "settlement_finished sf m d'"
    if "worker_env coll sf e" "settlement_message e m d = (Inr meta, d')" for e m d meta d'
    using settlement_message_known(2) [OF that refl] .
  show "settlement_finished sf m' d'"
    if "worker_env coll sf e" "settlement_message e m d = (r, d')" "settlement_finished sf m' d" for e m d r d' m'
    using that(3) settlement_message_known(1) [OF that(1,2)]
    by (cases "closed_session_of sf m'") (simp_all add: settlement_finished_def)
  show "settlement_finished sf m' d'" if "settlements_kept d d'" "settlement_finished sf m' d" for d d' m'
    using that by (cases "closed_session_of sf m'")
      (simp_all add: settlements_kept_def settlement_finished_def has_settlement_def)
qed

section \<open>Messages of the relay\<close>

lemma extractEventID_sent [simp]: "extractEventID (sent cast x) = oe_EventID x"
  by (simp add: extractEventID_def sent_def)

lemma point_event_of_id: "point_event_of sf m = Some ev \<Longrightarrow> fst ev = extractEventID m"
  by (auto simp: point_event_of_def split: if_splits)

text \<open>The relay may send a row again, but a number stands for one row.\<close>

lemma numbered_sent:
  assumes "inj_on oe_EventID (set xs)"
  shows "numbered sf (map (sent cast) xs)"
  unfolding numbered_def
proof (intro ballI allI impI)
  fix m m' ev ev'
  assume m: "m \<in> set (map (sent cast) xs)" "m' \<in> set (map (sent cast) xs)"
    and ev: "point_event_of sf m = Some ev" "point_event_of sf m' = Some ev'" "fst ev = fst ev'"
  obtain x x' where x: "x \<in> set xs" "x' \<in> set xs" "m = sent cast x" "m' = sent cast x'" using m by auto
  have "oe_EventID x = oe_EventID x'"
    using ev(3) point_event_of_id [OF ev(1)] point_event_of_id [OF ev(2)] x(3,4) by simp
  then have "x = x'" using inj_onD [OF assms] x(1,2) by blast
  with x ev show "ev = ev'" by simp
qed

text \<open>What the consumers read from the message of an outbox row.\<close>

lemma sent_gift:
  assumes "oe_Topic x = giftAcceptedTopic" "oe_PayloadJson x = marshal_gift_accepted g"
    and "reprints cast (oe_PayloadJson x)" "oe_EventID x \<noteq> 0"
  shows "point_event_of sf (sent cast x) = Some (oe_EventID x, GiftEvent g)"
    and "gift_event_of sf (sent cast x) = Some (oe_EventID x, g)"
proof -
  have "Unmarshal sf gift_accepted_fields zero_gift_accepted (cast (oe_PayloadJson x)) = Some g"
    using reprints_decodes [OF assms(3)] reads_gift_accepted [of g] assms(2) by simp
  then show "point_event_of sf (sent cast x) = Some (oe_EventID x, GiftEvent g)"
    "gift_event_of sf (sent cast x) = Some (oe_EventID x, g)"
    using assms(1,4) by (simp_all add: point_event_of_def gift_event_of_def sent_def giftAcceptedTopic_def
        extractEventID_def)
qed

lemma sent_comment:
  assumes "oe_Topic x = commentTopic" "oe_PayloadJson x = marshal_comment v"
    and "reprints cast (oe_PayloadJson x)" "oe_EventID x \<noteq> 0"
  shows "point_event_of sf (sent cast x) = Some (oe_EventID x, CommentEvent v)"
  using reprints_decodes [OF assms(3), of comment_fields zero_comment v sf] reads_comment [of v] assms
  by (simp add: point_event_of_def sent_def commentTopic_def extractEventID_def)

lemma sent_watch_minute:
  assumes "oe_Topic x = watchTopic" "oe_PayloadJson x = marshal_watch_minute v"
    and "reprints cast (oe_PayloadJson x)" "oe_EventID x \<noteq> 0"
  shows "point_event_of sf (sent cast x) = Some (oe_EventID x, WatchEvent v)"
  using reprints_decodes [OF assms(3), of watch_minute_fields zero_watch_minute v sf] reads_watch_minute [of v] assms
  by (simp add: point_event_of_def sent_def watchTopic_def extractEventID_def)

lemma sent_session_closed:
  assumes "oe_PayloadJson x = marshal_session_closed v" "in_i64 (lsc_ClosedAtMs v)"
    and "reprints cast (oe_PayloadJson x)"
  shows "closed_session_of sf (sent cast x) = Some (lsc_LiveSessionID v)"
  using reprints_decodes [OF assms(3), of session_closed_fields zero_session_closed v sf]
    reads_session_closed [OF assms(2)] assms(1)
  by (simp add: closed_session_of_def sent_def)

section \<open>The mains\<close>

text \<open>
  A run of a binary with its one-shot flag, as the exit status shows it: \<open>log.Fatalf\<close> or a normal
  return. Zero is the default of the flags and starts the consumer instead.
\<close>

datatype exit = Fatal go_error | Returned | Consuming

definition exit_of :: "(go_error + 'a) \<times> 's \<Rightarrow> exit \<times> 's" where
  "exit_of x = (case x of (Inl er, s) \<Rightarrow> (Fatal er, s) | (Inr _, s) \<Rightarrow> (Returned, s))"

definition settlement_main :: "env \<Rightarrow> u64 \<Rightarrow> db \<Rightarrow> exit \<times> db" where
  "settlement_main e liveSessionID d =
     (if liveSessionID \<noteq> 0 then exit_of (GenerateSettlement e liveSessionID d) else (Consuming, d))"

definition leaderboard_main ::
  "env \<Rightarrow> (nat \<Rightarrow> reply) \<Rightarrow> map_order \<Rightarrow> u64 \<Rightarrow> db \<times> redis \<Rightarrow> exit \<times> db \<times> redis" where
  "leaderboard_main e rp ord rebuildLiveSession st =
     (if rebuildLiveSession \<noteq> 0 then exit_of (RebuildLiveSession e rp ord rebuildLiveSession st)
      else (Consuming, st))"

definition relay_once :: "env \<Rightarrow> broker \<Rightarrow> int \<Rightarrow> db \<times> message list \<Rightarrow> exit \<times> db \<times> message list" where
  "relay_once e b batch s = exit_of (RunOnce e b (New_batch batch) s)"

text \<open>
  The polling loop of the relay binary, one environment per tick until a signal ends it. It stops
  early only on an error that \<open>errors.Is(err, context.Canceled)\<close> recognises; any other error is
  logged and the next tick tries again.
\<close>

primrec relay_polls ::
  "(go_error \<Rightarrow> bool) \<Rightarrow> env list \<Rightarrow> broker \<Rightarrow> int \<Rightarrow> db \<times> message list \<Rightarrow> exit \<times> db \<times> message list" where
  "relay_polls canceled [] b batch s = (Returned, s)"
| "relay_polls canceled (e # es) b batch s =
     (case RunOnce e b batch s of
       (Inl er, s') \<Rightarrow> if canceled er then (Returned, s') else relay_polls canceled es b batch s'
     | (Inr n, s') \<Rightarrow> relay_polls canceled es b batch s')"

definition relay_main ::
  "(go_error \<Rightarrow> bool) \<Rightarrow> bool \<Rightarrow> env \<Rightarrow> env list \<Rightarrow> broker \<Rightarrow> int \<Rightarrow> db \<times> message list \<Rightarrow>
     exit \<times> db \<times> message list" where
  "relay_main canceled once_flag e es b batch s =
     (if once_flag then relay_once e b batch s else relay_polls canceled es b (New_batch batch) s)"

text \<open>The context of the binary is the background context, which is never cancelled.\<close>

lemma relay_polls_ticks:
  "relay_polls (\<lambda>_. False) es b batch s = (Returned, ticks es b batch s)"
  by (induction es arbitrary: s) (auto split: prod.split sum.split)

text \<open>A failed tick costs nothing: the ticks after it still drain the outbox, in order.\<close>

lemma relay_main_drains:
  assumes "reliable b" and "\<forall>e \<in> set es. calm e \<and> cast_char e = cast" and "distinct (event_ids d)"
  shows "\<exists>d'. relay_main (\<lambda>_. False) False e es b batch (d, log) = (Returned, d',
      log @ map (sent cast) (take (length es * nat (New_batch batch)) (pending b d))) \<and>
    pending b d' = drop (length es * nat (New_batch batch)) (pending b d)"
  using ticks_drain [OF assms, of "New_batch batch" log]
  by (auto simp: relay_main_def relay_polls_ticks)

end
