(* ===== verification/ReadModels.thy ===== *)
theory ReadModels
  imports Points
begin

text \<open>
  The read models of \<open>internal/service/read_models.go\<close>: the contributors of a session, over the
  accepted orders, and the leaderboard of a campaign, over the ledger that the points projector
  fills. Both are one query outside a transaction.
\<close>

section \<open>The queries\<close>

record CampaignRankRow =
  cr_CreatorID :: u64
  cr_Points :: i64

text \<open>The limit as both methods adjust it: one that is not positive or too large becomes 20.\<close>

definition adjust_limit :: "int \<Rightarrow> int" where
  "adjust_limit limit = (if limit \<le> 0 \<or> limit > 100 then 20 else limit)"

definition GetLiveContributors ::
  "env \<Rightarrow> u64 \<Rightarrow> int \<Rightarrow> (go_error + ContributorSummary list) prog" where
  "GetLiveContributors e liveSessionID limit =
     check_as Inl (auto_exec e (SelectContributors (nat (adjust_limit limit)) liveSessionID))
       (\<lambda>out. ret (Inr out))"

definition campaign_points :: "u64 \<Rightarrow> db \<Rightarrow> CampaignPointLedger list" where
  "campaign_points cid d = filter (\<lambda>r. cp_CampaignID r = cid) (campaign_point_ledger d)"

definition campaign_ranked :: "nat \<Rightarrow> CampaignPointLedger list \<Rightarrow> (u64 \<times> int) list" where
  "campaign_ranked = rank_by cp_CreatorID cp_Points"

fun scan_ranks :: "(u64 \<times> int) list \<Rightarrow> go_error + CampaignRankRow list" where
  "scan_ranks [] = Inr []"
| "scan_ranks ((creator, pts) # rows) =
     (case scan_int64 pts of
       Inl er \<Rightarrow> Inl er
     | Inr points \<Rightarrow>
         (case scan_ranks rows of
           Inl er \<Rightarrow> Inl er
         | Inr rs \<Rightarrow> Inr (\<lparr>cr_CreatorID = creator, cr_Points = points\<rparr> # rs)))"

definition SelectCampaignRanks :: "nat \<Rightarrow> u64 \<Rightarrow> micros \<Rightarrow> CampaignRankRow list sql" where
  "SelectCampaignRanks n cid t d = (scan_ranks (campaign_ranked n (campaign_points cid d)), id)"

definition GetCampaignLeaderboard ::
  "env \<Rightarrow> u64 \<Rightarrow> int \<Rightarrow> (go_error + CampaignRankRow list) prog" where
  "GetCampaignLeaderboard e campaignID limit =
     check_as Inl (auto_exec e (SelectCampaignRanks (nat (adjust_limit limit)) campaignID))
       (\<lambda>out. ret (Inr out))"

section \<open>What they answer\<close>

lemma adjust_limit_range: "1 \<le> adjust_limit limit \<and> adjust_limit limit \<le> 100"
  by (simp add: adjust_limit_def)

text \<open>One query outside a transaction: its rows or an error, and nothing changes.\<close>

lemma query_answer:
  assumes q: "quiet e" and reads: "\<And>t d. snd (sel t d) = id"
    and run: "check_as Inl (auto_exec e sel) (\<lambda>out. ret (Inr out)) (connect d) = (r, c)"
  shows "cdb c = d \<and> (r = fst (sel (now e 0) d) \<or> (\<exists>x. r = Inl (cause_error x))) \<and>
         (calm e \<longrightarrow> r = fst (sel (now e 0) d))"
proof (cases "sel (now e 0) d")
  case (Pair rows w)
  moreover have "w = id" using reads [of "now e 0" d] Pair by simp
  ultimately show ?thesis
    using q run
    by (cases rows; auto simp: check_as_def on_call_def auto_exec_def auto_exec_alloc_def
        exec_alloc_def connect_def view_def ret_def calm_def Let_def
        split: option.splits fault.splits)
qed

lemma scan_ranks_eq:
  "scan_ranks rows =
     (if \<forall>p \<in> set rows. in_i64 (snd p)
      then Inr (map (\<lambda>p. \<lparr>cr_CreatorID = fst p, cr_Points = snd p\<rparr>) rows)
      else Inl (Errorf ''converting driver.Value: value out of range''))"
  by (induction rows rule: scan_ranks.induct) (auto simp: scan_int64_def)

text \<open>\<open>points\<close> is an INT column: with fewer than \<open>2 ^ 32\<close> rows no total leaves \<open>int64\<close>.\<close>

lemma total_by_bound:
  fixes amount :: "'r \<Rightarrow> int"
  assumes "\<forall>r \<in> set rs. \<bar>amount r\<bar> \<le> B" and "0 \<le> B"
  shows "\<bar>total_by key amount k rs\<bar> \<le> B * int (length rs)"
  using assms
proof (induction rs)
  case (Cons r rs)
  then have "\<bar>total_by key amount k rs\<bar> \<le> B * int (length rs)" by simp
  moreover have "\<bar>if key r = k then amount r else 0\<bar> \<le> B" using Cons.prems by simp
  ultimately show ?case by (simp add: total_by_Cons algebra_simps)
qed simp

lemma campaign_leaderboard_answer:
  assumes q: "quiet e" and run: "GetCampaignLeaderboard e cid limit (connect d) = (r, c)"
  shows "cdb c = d \<and>
    (calm e \<and> length (campaign_points cid d) < 2 ^ 32 \<and>
      list_all (\<lambda>x. fits_int32 (cp_Points x)) (campaign_points cid d) \<longrightarrow>
     (\<exists>ps. is_top cp_CreatorID cp_Points (nat (adjust_limit limit)) (campaign_points cid d) ps \<and>
        r = Inr (map (\<lambda>p. \<lparr>cr_CreatorID = fst p, cr_Points = snd p\<rparr>) ps)))"
proof -
  let ?rs = "campaign_points cid d" and ?n = "nat (adjust_limit limit)"
  note ans = query_answer [OF q, of "SelectCampaignRanks ?n cid", OF _ run [unfolded GetCampaignLeaderboard_def]]
  have "in_i64 (snd p)" if p: "p \<in> set (campaign_ranked ?n ?rs)"
    and len: "length ?rs < 2 ^ 32" and fits: "list_all (\<lambda>x. fits_int32 (cp_Points x)) ?rs" for p
  proof -
    have "\<bar>total_by cp_CreatorID cp_Points (fst p) ?rs\<bar> \<le> 2 ^ 31 * int (length ?rs)"
      using fits by (intro total_by_bound) (auto simp: fits_int32_def list_all_iff)
    also have "\<dots> < 2 ^ 63" using len by simp
    finally show ?thesis
      using rank_by_totals [of p cp_CreatorID cp_Points ?n ?rs] p by (simp add: campaign_ranked_def in_i64_def abs_less_iff)
  qed
  then show ?thesis
    using ans rank_by_is_top [of cp_CreatorID cp_Points ?n ?rs]
    by (auto simp: SelectCampaignRanks_def scan_ranks_eq campaign_ranked_def)
qed

end
