(* ===== verification/Enums.thy ===== *)
theory Enums
  imports Store
begin

text \<open>
  The enumerations of \<open>internal/store/sqlcgen/models.go\<close> as they cross the database driver.
  In Go each is a named string type, which can hold any text; the constants are the values
  that the schema admits. The generated methods are the same for each of the eleven types:
  \<open>Scan\<close> reads a driver value, and the \<open>Null\<close> struct adds the SQL NULL. They are written once
  (\<open>enum_Scan\<close>, \<open>null_Scan\<close>, \<open>null_Value\<close>), with the type's name as it appears in the error;
  the locale \<open>sql_enum\<close> states what a column of such a type relies on, and is interpreted
  for each of them.
\<close>

section \<open>Driver values\<close>

text \<open>
  \<open>driver.Value\<close> is one of the types below; a \<open>float64\<close> is its bits. \<open>type_name\<close> is what the
  verb \<open>%T\<close> prints for it.
\<close>

datatype driver_value =
    DNil
  | DInt64 i64
  | DFloat64 u64
  | DBool bool
  | DBytes string
  | DString string
  | DTime micros

fun type_name :: "driver_value \<Rightarrow> string" where
  "type_name DNil = ''<nil>''"
| "type_name (DInt64 _) = ''int64''"
| "type_name (DFloat64 _) = ''float64''"
| "type_name (DBool _) = ''bool''"
| "type_name (DBytes _) = ''[]uint8''"
| "type_name (DString _) = ''string''"
| "type_name (DTime _) = ''time.Time''"

section \<open>The generated methods\<close>

text \<open>
  \<open>Scan\<close> has a pointer receiver: its result is the new value of the variable and the error,
  \<open>None\<close> for nil. The variable keeps its value when the driver value has another type.
\<close>

fun enum_Scan :: "string \<Rightarrow> driver_value \<Rightarrow> string \<Rightarrow> string \<times> go_error option" where
  "enum_Scan T (DBytes s) e = (s, None)"
| "enum_Scan T (DString s) e = (s, None)"
| "enum_Scan T src e =
     (e, Some (Errorf (''unsupported scan type for '' @ T @ '': '' @ type_name src)))"

record NullEnum =
  ne_Enum :: string
  ne_Valid :: bool

definition null_Scan ::
  "(driver_value \<Rightarrow> string \<Rightarrow> string \<times> go_error option) \<Rightarrow>
   driver_value \<Rightarrow> NullEnum \<Rightarrow> NullEnum \<times> go_error option" where
  "null_Scan scan value ns =
     (if value = DNil then (\<lparr>ne_Enum = '''', ne_Valid = False\<rparr>, None)
      else let (e, err) = scan value (ne_Enum ns) in (\<lparr>ne_Enum = e, ne_Valid = True\<rparr>, err))"

definition null_Value :: "NullEnum \<Rightarrow> driver_value" where
  "null_Value ns = (if ne_Valid ns then DString (ne_Enum ns) else DNil)"

text \<open>The column of the model, a constant or NULL, as the \<open>Null\<close> struct that stands for it.\<close>

definition null_of :: "('e \<Rightarrow> string) \<Rightarrow> 'e option \<Rightarrow> NullEnum" where
  "null_of txt c = (case c of
     None \<Rightarrow> \<lparr>ne_Enum = '''', ne_Valid = False\<rparr>
   | Some e \<Rightarrow> \<lparr>ne_Enum = txt e, ne_Valid = True\<rparr>)"

section \<open>The eleven types\<close>

fun CampaignPointLedgerReason_text :: "CampaignPointLedgerReason \<Rightarrow> string" where
  "CampaignPointLedgerReason_text CAMPAIGN_GIFT = ''GIFT''"

definition CampaignPointLedgerReason_Scan :: "driver_value \<Rightarrow> string \<Rightarrow> string \<times> go_error option" where
  "CampaignPointLedgerReason_Scan = enum_Scan ''CampaignPointLedgerReason''"

type_synonym NullCampaignPointLedgerReason = NullEnum

definition NullCampaignPointLedgerReason_Scan ::
  "driver_value \<Rightarrow> NullCampaignPointLedgerReason \<Rightarrow> NullCampaignPointLedgerReason \<times> go_error option" where
  "NullCampaignPointLedgerReason_Scan = null_Scan CampaignPointLedgerReason_Scan"

definition NullCampaignPointLedgerReason_Value :: "NullCampaignPointLedgerReason \<Rightarrow> driver_value" where
  "NullCampaignPointLedgerReason_Value = null_Value"

fun FanPointLedgerReason_text :: "FanPointLedgerReason \<Rightarrow> string" where
  "FanPointLedgerReason_text GIFT = ''GIFT''"
| "FanPointLedgerReason_text COMMENT = ''COMMENT''"
| "FanPointLedgerReason_text WATCH_MINUTE = ''WATCH_MINUTE''"

definition FanPointLedgerReason_Scan :: "driver_value \<Rightarrow> string \<Rightarrow> string \<times> go_error option" where
  "FanPointLedgerReason_Scan = enum_Scan ''FanPointLedgerReason''"

type_synonym NullFanPointLedgerReason = NullEnum

definition NullFanPointLedgerReason_Scan ::
  "driver_value \<Rightarrow> NullFanPointLedgerReason \<Rightarrow> NullFanPointLedgerReason \<times> go_error option" where
  "NullFanPointLedgerReason_Scan = null_Scan FanPointLedgerReason_Scan"

definition NullFanPointLedgerReason_Value :: "NullFanPointLedgerReason \<Rightarrow> driver_value" where
  "NullFanPointLedgerReason_Value = null_Value"

fun GiftOrdersStatus_text :: "GiftOrdersStatus \<Rightarrow> string" where
  "GiftOrdersStatus_text ACCEPTED = ''ACCEPTED''"
| "GiftOrdersStatus_text REJECTED = ''REJECTED''"

definition GiftOrdersStatus_Scan :: "driver_value \<Rightarrow> string \<Rightarrow> string \<times> go_error option" where
  "GiftOrdersStatus_Scan = enum_Scan ''GiftOrdersStatus''"

type_synonym NullGiftOrdersStatus = NullEnum

definition NullGiftOrdersStatus_Scan ::
  "driver_value \<Rightarrow> NullGiftOrdersStatus \<Rightarrow> NullGiftOrdersStatus \<times> go_error option" where
  "NullGiftOrdersStatus_Scan = null_Scan GiftOrdersStatus_Scan"

definition NullGiftOrdersStatus_Value :: "NullGiftOrdersStatus \<Rightarrow> driver_value" where
  "NullGiftOrdersStatus_Value = null_Value"

fun LiveMatchesMode_text :: "LiveMatchesMode \<Rightarrow> string" where
  "LiveMatchesMode_text ALL_GIFTS = ''ALL_GIFTS''"
| "LiveMatchesMode_text SPECIFIC_GIFT = ''SPECIFIC_GIFT''"

definition LiveMatchesMode_Scan :: "driver_value \<Rightarrow> string \<Rightarrow> string \<times> go_error option" where
  "LiveMatchesMode_Scan = enum_Scan ''LiveMatchesMode''"

type_synonym NullLiveMatchesMode = NullEnum

definition NullLiveMatchesMode_Scan ::
  "driver_value \<Rightarrow> NullLiveMatchesMode \<Rightarrow> NullLiveMatchesMode \<times> go_error option" where
  "NullLiveMatchesMode_Scan = null_Scan LiveMatchesMode_Scan"

definition NullLiveMatchesMode_Value :: "NullLiveMatchesMode \<Rightarrow> driver_value" where
  "NullLiveMatchesMode_Value = null_Value"

fun LiveMatchesStatus_text :: "LiveMatchesStatus \<Rightarrow> string" where
  "LiveMatchesStatus_text MATCH_OPEN = ''OPEN''"
| "LiveMatchesStatus_text MATCH_CLOSED = ''CLOSED''"

definition LiveMatchesStatus_Scan :: "driver_value \<Rightarrow> string \<Rightarrow> string \<times> go_error option" where
  "LiveMatchesStatus_Scan = enum_Scan ''LiveMatchesStatus''"

type_synonym NullLiveMatchesStatus = NullEnum

definition NullLiveMatchesStatus_Scan ::
  "driver_value \<Rightarrow> NullLiveMatchesStatus \<Rightarrow> NullLiveMatchesStatus \<times> go_error option" where
  "NullLiveMatchesStatus_Scan = null_Scan LiveMatchesStatus_Scan"

definition NullLiveMatchesStatus_Value :: "NullLiveMatchesStatus \<Rightarrow> driver_value" where
  "NullLiveMatchesStatus_Value = null_Value"

fun LiveSessionsStatus_text :: "LiveSessionsStatus \<Rightarrow> string" where
  "LiveSessionsStatus_text SESSION_OPEN = ''OPEN''"
| "LiveSessionsStatus_text SESSION_CLOSED = ''CLOSED''"

definition LiveSessionsStatus_Scan :: "driver_value \<Rightarrow> string \<Rightarrow> string \<times> go_error option" where
  "LiveSessionsStatus_Scan = enum_Scan ''LiveSessionsStatus''"

type_synonym NullLiveSessionsStatus = NullEnum

definition NullLiveSessionsStatus_Scan ::
  "driver_value \<Rightarrow> NullLiveSessionsStatus \<Rightarrow> NullLiveSessionsStatus \<times> go_error option" where
  "NullLiveSessionsStatus_Scan = null_Scan LiveSessionsStatus_Scan"

definition NullLiveSessionsStatus_Value :: "NullLiveSessionsStatus \<Rightarrow> driver_value" where
  "NullLiveSessionsStatus_Value = null_Value"

fun ReconciliationResultsStatus_text :: "ReconciliationResultsStatus \<Rightarrow> string" where
  "ReconciliationResultsStatus_text PASS = ''PASS''"
| "ReconciliationResultsStatus_text FAIL = ''FAIL''"

definition ReconciliationResultsStatus_Scan :: "driver_value \<Rightarrow> string \<Rightarrow> string \<times> go_error option" where
  "ReconciliationResultsStatus_Scan = enum_Scan ''ReconciliationResultsStatus''"

type_synonym NullReconciliationResultsStatus = NullEnum

definition NullReconciliationResultsStatus_Scan ::
  "driver_value \<Rightarrow> NullReconciliationResultsStatus \<Rightarrow> NullReconciliationResultsStatus \<times> go_error option" where
  "NullReconciliationResultsStatus_Scan = null_Scan ReconciliationResultsStatus_Scan"

definition NullReconciliationResultsStatus_Value :: "NullReconciliationResultsStatus \<Rightarrow> driver_value" where
  "NullReconciliationResultsStatus_Value = null_Value"

fun UsersAccountStanding_text :: "UsersAccountStanding \<Rightarrow> string" where
  "UsersAccountStanding_text GOOD = ''GOOD''"
| "UsersAccountStanding_text RESTRICTED = ''RESTRICTED''"
| "UsersAccountStanding_text BANNED = ''BANNED''"

definition UsersAccountStanding_Scan :: "driver_value \<Rightarrow> string \<Rightarrow> string \<times> go_error option" where
  "UsersAccountStanding_Scan = enum_Scan ''UsersAccountStanding''"

type_synonym NullUsersAccountStanding = NullEnum

definition NullUsersAccountStanding_Scan ::
  "driver_value \<Rightarrow> NullUsersAccountStanding \<Rightarrow> NullUsersAccountStanding \<times> go_error option" where
  "NullUsersAccountStanding_Scan = null_Scan UsersAccountStanding_Scan"

definition NullUsersAccountStanding_Value :: "NullUsersAccountStanding \<Rightarrow> driver_value" where
  "NullUsersAccountStanding_Value = null_Value"

fun UsersAccountType_text :: "UsersAccountType \<Rightarrow> string" where
  "UsersAccountType_text NORMAL = ''NORMAL''"
| "UsersAccountType_text GOVERNMENT = ''GOVERNMENT''"
| "UsersAccountType_text POLITICIAN = ''POLITICIAN''"
| "UsersAccountType_text POLITICAL_PARTY = ''POLITICAL_PARTY''"
| "UsersAccountType_text PUBLIC_INTEREST = ''PUBLIC_INTEREST''"

definition UsersAccountType_Scan :: "driver_value \<Rightarrow> string \<Rightarrow> string \<times> go_error option" where
  "UsersAccountType_Scan = enum_Scan ''UsersAccountType''"

type_synonym NullUsersAccountType = NullEnum

definition NullUsersAccountType_Scan ::
  "driver_value \<Rightarrow> NullUsersAccountType \<Rightarrow> NullUsersAccountType \<times> go_error option" where
  "NullUsersAccountType_Scan = null_Scan UsersAccountType_Scan"

definition NullUsersAccountType_Value :: "NullUsersAccountType \<Rightarrow> driver_value" where
  "NullUsersAccountType_Value = null_Value"

fun WalletAccountsCurrency_text :: "WalletAccountsCurrency \<Rightarrow> string" where
  "WalletAccountsCurrency_text COIN = ''COIN''"

definition WalletAccountsCurrency_Scan :: "driver_value \<Rightarrow> string \<Rightarrow> string \<times> go_error option" where
  "WalletAccountsCurrency_Scan = enum_Scan ''WalletAccountsCurrency''"

type_synonym NullWalletAccountsCurrency = NullEnum

definition NullWalletAccountsCurrency_Scan ::
  "driver_value \<Rightarrow> NullWalletAccountsCurrency \<Rightarrow> NullWalletAccountsCurrency \<times> go_error option" where
  "NullWalletAccountsCurrency_Scan = null_Scan WalletAccountsCurrency_Scan"

definition NullWalletAccountsCurrency_Value :: "NullWalletAccountsCurrency \<Rightarrow> driver_value" where
  "NullWalletAccountsCurrency_Value = null_Value"

fun WalletTransactionsTxType_text :: "WalletTransactionsTxType \<Rightarrow> string" where
  "WalletTransactionsTxType_text RECHARGE = ''RECHARGE''"
| "WalletTransactionsTxType_text GIFT_DEBIT = ''GIFT_DEBIT''"

definition WalletTransactionsTxType_Scan :: "driver_value \<Rightarrow> string \<Rightarrow> string \<times> go_error option" where
  "WalletTransactionsTxType_Scan = enum_Scan ''WalletTransactionsTxType''"

type_synonym NullWalletTransactionsTxType = NullEnum

definition NullWalletTransactionsTxType_Scan ::
  "driver_value \<Rightarrow> NullWalletTransactionsTxType \<Rightarrow> NullWalletTransactionsTxType \<times> go_error option" where
  "NullWalletTransactionsTxType_Scan = null_Scan WalletTransactionsTxType_Scan"

definition NullWalletTransactionsTxType_Value :: "NullWalletTransactionsTxType \<Rightarrow> driver_value" where
  "NullWalletTransactionsTxType_Value = null_Value"

section \<open>What a column relies on\<close>

locale sql_enum =
  fixes text_of :: "'e \<Rightarrow> string"
    and scan :: "driver_value \<Rightarrow> string \<Rightarrow> string \<times> go_error option"
    and nscan :: "driver_value \<Rightarrow> NullEnum \<Rightarrow> NullEnum \<times> go_error option"
    and nvalue :: "NullEnum \<Rightarrow> driver_value"
  assumes inj_text: "text_of a = text_of b \<Longrightarrow> a = b"
    and scan_string: "scan (DString s) e = (s, None)"
    and scan_bytes: "scan (DBytes s) e = (s, None)"
    and scan_keeps: "snd (scan v e) \<noteq> None \<Longrightarrow> fst (scan v e) = e"
    and scan_null: "snd (scan DNil e) \<noteq> None"
    and nscan_null: "nscan DNil ns = (\<lparr>ne_Enum = '''', ne_Valid = False\<rparr>, None)"
    and nscan_scan: "v \<noteq> DNil \<Longrightarrow>
      nscan v ns = (\<lparr>ne_Enum = fst (scan v (ne_Enum ns)), ne_Valid = True\<rparr>, snd (scan v (ne_Enum ns)))"
    and nvalue_null: "\<not> ne_Valid ns \<Longrightarrow> nvalue ns = DNil"
    and nvalue_text: "ne_Valid ns \<Longrightarrow> nvalue ns = DString (ne_Enum ns)"
begin

text \<open>A stored column is read back as it was, whatever the variable held before.\<close>

lemma round_trip: "nscan (nvalue (null_of text_of c)) ns = (null_of text_of c, None)"
  by (cases c) (simp_all add: null_of_def nscan_null nscan_scan nvalue_null nvalue_text scan_string)

text \<open>The driver may hand the text over as bytes instead.\<close>

lemma round_trip_bytes: "nscan (DBytes (text_of e)) ns = (null_of text_of (Some e), None)"
  by (simp add: null_of_def nscan_scan scan_bytes)

lemma null_of_inject: "null_of text_of a = null_of text_of b \<longleftrightarrow> a = b"
  by (auto simp: null_of_def dest: inj_text split: option.splits)

lemma stored_inject: "nvalue (null_of text_of a) = nvalue (null_of text_of b) \<longleftrightarrow> a = b"
  by (auto simp: null_of_def nvalue_null nvalue_text dest: inj_text split: option.splits)

text \<open>
  A driver value of another type is an error, and leaves the struct marked valid with the
  text it had.
\<close>

lemma failed_scan:
  assumes "snd (nscan v ns) \<noteq> None"
  shows "v \<noteq> DNil \<and> nscan v ns = (ns\<lparr>ne_Valid := True\<rparr>, snd (scan v (ne_Enum ns)))"
proof -
  have v: "v \<noteq> DNil" using assms nscan_null by auto
  then have "snd (scan v (ne_Enum ns)) \<noteq> None" using assms nscan_scan by simp
  then have "fst (scan v (ne_Enum ns)) = ne_Enum ns" by (rule scan_keeps)
  with v show ?thesis by (simp add: nscan_scan)
qed

end

lemma null_Value_cases [simp]:
  "\<not> ne_Valid ns \<Longrightarrow> null_Value ns = DNil"
  "ne_Valid ns \<Longrightarrow> null_Value ns = DString (ne_Enum ns)"
  by (simp_all add: null_Value_def)

lemma null_Scan_null [simp]:
  "null_Scan scan DNil ns = (\<lparr>ne_Enum = '''', ne_Valid = False\<rparr>, None)"
  by (simp add: null_Scan_def)

lemma null_Scan_scan:
  "v \<noteq> DNil \<Longrightarrow> null_Scan scan v ns =
     (\<lparr>ne_Enum = fst (scan v (ne_Enum ns)), ne_Valid = True\<rparr>, snd (scan v (ne_Enum ns)))"
  by (simp add: null_Scan_def split: prod.splits)

lemma enum_Scan_keeps: "snd (enum_Scan T v e) \<noteq> None \<Longrightarrow> fst (enum_Scan T v e) = e"
  by (cases v) simp_all

text \<open>The generic methods keep the laws for every injective naming of the constants.\<close>

lemma sql_enumI:
  assumes "\<And>a b. txt a = txt b \<Longrightarrow> a = b" and scan: "scan = enum_Scan T"
    and "nscan = null_Scan scan" and "nvalue = null_Value"
  shows "sql_enum txt scan nscan nvalue"
  unfolding assms(2-4)
  by unfold_locales (simp_all add: assms(1) enum_Scan_keeps null_Scan_scan)

section \<open>The columns keep the contract\<close>

lemma CampaignPointLedgerReason_text_inject:
  "CampaignPointLedgerReason_text a = CampaignPointLedgerReason_text b \<Longrightarrow> a = b"
  by (cases a; cases b) simp_all

interpretation campaignPointLedgerReason:
  sql_enum CampaignPointLedgerReason_text CampaignPointLedgerReason_Scan NullCampaignPointLedgerReason_Scan NullCampaignPointLedgerReason_Value
  using CampaignPointLedgerReason_text_inject CampaignPointLedgerReason_Scan_def NullCampaignPointLedgerReason_Scan_def
    NullCampaignPointLedgerReason_Value_def by (rule sql_enumI)

lemma FanPointLedgerReason_text_inject:
  "FanPointLedgerReason_text a = FanPointLedgerReason_text b \<Longrightarrow> a = b"
  by (cases a; cases b) simp_all

interpretation fanPointLedgerReason:
  sql_enum FanPointLedgerReason_text FanPointLedgerReason_Scan NullFanPointLedgerReason_Scan NullFanPointLedgerReason_Value
  using FanPointLedgerReason_text_inject FanPointLedgerReason_Scan_def NullFanPointLedgerReason_Scan_def
    NullFanPointLedgerReason_Value_def by (rule sql_enumI)

lemma GiftOrdersStatus_text_inject:
  "GiftOrdersStatus_text a = GiftOrdersStatus_text b \<Longrightarrow> a = b"
  by (cases a; cases b) simp_all

interpretation giftOrdersStatus:
  sql_enum GiftOrdersStatus_text GiftOrdersStatus_Scan NullGiftOrdersStatus_Scan NullGiftOrdersStatus_Value
  using GiftOrdersStatus_text_inject GiftOrdersStatus_Scan_def NullGiftOrdersStatus_Scan_def
    NullGiftOrdersStatus_Value_def by (rule sql_enumI)

lemma LiveMatchesMode_text_inject:
  "LiveMatchesMode_text a = LiveMatchesMode_text b \<Longrightarrow> a = b"
  by (cases a; cases b) simp_all

interpretation liveMatchesMode:
  sql_enum LiveMatchesMode_text LiveMatchesMode_Scan NullLiveMatchesMode_Scan NullLiveMatchesMode_Value
  using LiveMatchesMode_text_inject LiveMatchesMode_Scan_def NullLiveMatchesMode_Scan_def
    NullLiveMatchesMode_Value_def by (rule sql_enumI)

lemma LiveMatchesStatus_text_inject:
  "LiveMatchesStatus_text a = LiveMatchesStatus_text b \<Longrightarrow> a = b"
  by (cases a; cases b) simp_all

interpretation liveMatchesStatus:
  sql_enum LiveMatchesStatus_text LiveMatchesStatus_Scan NullLiveMatchesStatus_Scan NullLiveMatchesStatus_Value
  using LiveMatchesStatus_text_inject LiveMatchesStatus_Scan_def NullLiveMatchesStatus_Scan_def
    NullLiveMatchesStatus_Value_def by (rule sql_enumI)

lemma LiveSessionsStatus_text_inject:
  "LiveSessionsStatus_text a = LiveSessionsStatus_text b \<Longrightarrow> a = b"
  by (cases a; cases b) simp_all

interpretation liveSessionsStatus:
  sql_enum LiveSessionsStatus_text LiveSessionsStatus_Scan NullLiveSessionsStatus_Scan NullLiveSessionsStatus_Value
  using LiveSessionsStatus_text_inject LiveSessionsStatus_Scan_def NullLiveSessionsStatus_Scan_def
    NullLiveSessionsStatus_Value_def by (rule sql_enumI)

lemma ReconciliationResultsStatus_text_inject:
  "ReconciliationResultsStatus_text a = ReconciliationResultsStatus_text b \<Longrightarrow> a = b"
  by (cases a; cases b) simp_all

interpretation reconciliationResultsStatus:
  sql_enum ReconciliationResultsStatus_text ReconciliationResultsStatus_Scan NullReconciliationResultsStatus_Scan NullReconciliationResultsStatus_Value
  using ReconciliationResultsStatus_text_inject ReconciliationResultsStatus_Scan_def NullReconciliationResultsStatus_Scan_def
    NullReconciliationResultsStatus_Value_def by (rule sql_enumI)

lemma UsersAccountStanding_text_inject:
  "UsersAccountStanding_text a = UsersAccountStanding_text b \<Longrightarrow> a = b"
  by (cases a; cases b) simp_all

interpretation usersAccountStanding:
  sql_enum UsersAccountStanding_text UsersAccountStanding_Scan NullUsersAccountStanding_Scan NullUsersAccountStanding_Value
  using UsersAccountStanding_text_inject UsersAccountStanding_Scan_def NullUsersAccountStanding_Scan_def
    NullUsersAccountStanding_Value_def by (rule sql_enumI)

lemma UsersAccountType_text_inject:
  "UsersAccountType_text a = UsersAccountType_text b \<Longrightarrow> a = b"
  by (cases a; cases b) simp_all

interpretation usersAccountType:
  sql_enum UsersAccountType_text UsersAccountType_Scan NullUsersAccountType_Scan NullUsersAccountType_Value
  using UsersAccountType_text_inject UsersAccountType_Scan_def NullUsersAccountType_Scan_def
    NullUsersAccountType_Value_def by (rule sql_enumI)

lemma WalletAccountsCurrency_text_inject:
  "WalletAccountsCurrency_text a = WalletAccountsCurrency_text b \<Longrightarrow> a = b"
  by (cases a; cases b) simp_all

interpretation walletAccountsCurrency:
  sql_enum WalletAccountsCurrency_text WalletAccountsCurrency_Scan NullWalletAccountsCurrency_Scan NullWalletAccountsCurrency_Value
  using WalletAccountsCurrency_text_inject WalletAccountsCurrency_Scan_def NullWalletAccountsCurrency_Scan_def
    NullWalletAccountsCurrency_Value_def by (rule sql_enumI)

lemma WalletTransactionsTxType_text_inject:
  "WalletTransactionsTxType_text a = WalletTransactionsTxType_text b \<Longrightarrow> a = b"
  by (cases a; cases b) simp_all

interpretation walletTransactionsTxType:
  sql_enum WalletTransactionsTxType_text WalletTransactionsTxType_Scan NullWalletTransactionsTxType_Scan NullWalletTransactionsTxType_Value
  using WalletTransactionsTxType_text_inject WalletTransactionsTxType_Scan_def NullWalletTransactionsTxType_Scan_def
    NullWalletTransactionsTxType_Value_def by (rule sql_enumI)

end
