(* ===== verification/Api.thy ===== *)
theory Api
  imports ReadModels LiveBoards Codec Enums
    "HOL-Library.List_Lexorder" "HOL-Library.Char_ord" "HOL-Library.Product_Lexorder"
begin

text \<open>
  The HTTP ingress (\<open>internal/app/api/server.go\<close>, \<open>internal/httpx/httpx.go\<close>): the handlers from
  the request to the response, the boards that are read from Redis first, and the wrapper that
  counts the requests. \<open>net/http\<close> hands a handler the method, the cleaned path, the query
  parameter and the body. Logging, durations and the \<open>/metrics\<close> page are left out.
\<close>

section \<open>Requests and responses\<close>

record http_request =
  hr_Method :: string
  hr_Path :: string
  hr_limit :: string
  hr_Body :: string
  hr_RequestID :: string

record http_response =
  hw_status :: int
  hw_headers :: "(string \<times> string) list"
  hw_body :: json

record ErrorBody =
  eb_Code :: string
  eb_Message :: string

definition ErrorBody_json :: "ErrorBody \<Rightarrow> json" where
  "ErrorBody_json b = JObj [(''code'', JStr (eb_Code b)), (''message'', JStr (eb_Message b))]"

definition WriteJSON :: "int \<Rightarrow> json \<Rightarrow> http_response" where
  "WriteJSON status payload =
     \<lparr>hw_status = status, hw_headers = [(''Content-Type'', ''application/json'')], hw_body = payload\<rparr>"

definition WriteError :: "int \<Rightarrow> string \<Rightarrow> string \<Rightarrow> http_response" where
  "WriteError status code msg = WriteJSON status (ErrorBody_json \<lparr>eb_Code = code, eb_Message = msg\<rparr>)"

definition write_app_error :: "AppError \<Rightarrow> http_response" where
  "write_app_error a = WriteError (HTTPStatus a) (Code a) (Message a)"

definition write_internal :: "env \<Rightarrow> go_error \<Rightarrow> http_response" where
  "write_internal e er = WriteError 500 ''INTERNAL_ERROR'' (error_text e er)"

definition only_allowed :: "string \<Rightarrow> http_response" where
  "only_allowed m = WriteError 405 ''METHOD_NOT_ALLOWED'' (''only '' @ m @ '' is allowed'')"

definition bad_json :: http_response where
  "bad_json = WriteError 400 ''BAD_JSON'' ''invalid JSON body''"

definition not_found :: http_response where
  "not_found = WriteError 404 ''NOT_FOUND'' ''route not found''"

text \<open>The outcome of a service call as the response to it.\<close>

definition respond :: "env \<Rightarrow> int \<Rightarrow> ('a \<Rightarrow> json) \<Rightarrow> 'a outcome \<Rightarrow> http_response" where
  "respond e status enc r = (case r of
     Err er \<Rightarrow> write_internal e er
   | App a \<Rightarrow> write_app_error a
   | Ok x \<Rightarrow> WriteJSON status (enc x))"

section \<open>Bodies\<close>

definition RechargeResponse_json :: "RechargeResponse \<Rightarrow> json" where
  "RechargeResponse_json r = JObj
     [(''tx_id'', json_word (rs_TxID r)), (''viewer_id'', json_word (rs_ViewerID r)),
      (''coins_added'', json_word (rs_CoinsAdded r)), (''new_balance'', JNum (rs_NewBalance r)),
      (''idempotency'', JStr (rs_Idempotency r))]"

definition GiftResponse_json :: "GiftResponse \<Rightarrow> json" where
  "GiftResponse_json r = JObj
     [(''gift_order_id'', json_word (gs_GiftOrderID r)), (''accepted'', JBool (gs_Accepted r)),
      (''charged_coins'', json_word (gs_ChargedCoins r)),
      (''match_points_added'', json_word (gs_MatchPointsAdded r)),
      (''diamond_reward'', json_word (gs_DiamondReward r)), (''new_balance'', JNum (gs_NewBalance r)),
      (''idempotency'', JStr (gs_Idempotency r))]"

definition ContributorSummary_json :: "ContributorSummary \<Rightarrow> json" where
  "ContributorSummary_json c = JObj [(''viewer_id'', json_word (cs_ViewerID c)), (''coins'', JNum (cs_Coins c))]"

definition CampaignRankRow_json :: "CampaignRankRow \<Rightarrow> json" where
  "CampaignRankRow_json r = JObj [(''creator_id'', json_word (cr_CreatorID r)), (''points'', JNum (cr_Points r))]"

text \<open>A slice that was never appended to is nil, and its JSON is \<open>null\<close>.\<close>

definition nil_slice_json :: "('a \<Rightarrow> json) \<Rightarrow> 'a list \<Rightarrow> json" where
  "nil_slice_json enc xs = (if xs = [] then JNull else JArr (map enc xs))"

definition SettlementResponse_json :: "SettlementResponse \<Rightarrow> json" where
  "SettlementResponse_json r = JObj
     [(''live_session_id'', json_word (sr_LiveSessionID r)),
      (''gross_coin_spend'', JNum (sr_GrossCoinSpend r)),
      (''accepted_gift_count'', JNum (sr_AcceptedGiftCount r)),
      (''diamond_reward_total'', JNum (sr_DiamondRewardTotal r)),
      (''top_contributors'', nil_slice_json ContributorSummary_json (sr_TopContributors r)),
      (''reconciliation_status'', JStr (ReconciliationResultsStatus_text (sr_ReconciliationStatus r))),
      (''wallet_gift_debit_total'', JNum (sr_WalletGiftDebitTotal r)),
      (''gift_order_coin_total'', JNum (sr_GiftOrderCoinTotal r)),
      (''mismatch_count'', JNum (sr_MismatchCount r)),
      (''reconciliation_details_json'', JStr (sr_ReconciliationDetails r))]"

section \<open>Path and query\<close>

definition trim_slashes :: "string \<Rightarrow> string" where
  "trim_slashes s = rev (dropWhile (\<lambda>c. c = CHR ''/'') (rev (dropWhile (\<lambda>c. c = CHR ''/'') s)))"

fun split_slashes :: "string \<Rightarrow> string list" where
  "split_slashes [] = [[]]"
| "split_slashes (c # cs) =
     (if c = CHR ''/'' then [] # split_slashes cs
      else case split_slashes cs of p # ps \<Rightarrow> (c # p) # ps | [] \<Rightarrow> [[c]])"

definition path_parts :: "http_request \<Rightarrow> string list" where
  "path_parts r = split_slashes (trim_slashes (hr_Path r))"

text \<open>\<open>strconv.Atoi\<close> on a 64-bit machine; \<open>None\<close> is its error.\<close>

definition Atoi :: "string \<Rightarrow> int option" where
  "Atoi s =
     (let (neg, ds) = (case s of
            c # cs \<Rightarrow> if c = CHR ''-'' then (True, cs) else if c = CHR ''+'' then (False, cs) else (False, s)
          | [] \<Rightarrow> (False, [])) in
      if ds = [] \<or> \<not> list_all is_digit ds then None
      else let n = (if neg then - int (undec ds) else int (undec ds)) in
        if in_i64 n then Some n else None)"

definition parseLimit :: "string \<Rightarrow> int" where
  "parseLimit raw =
     (if blank raw then 20
      else case Atoi raw of
        None \<Rightarrow> 20
      | Some n \<Rightarrow> if n \<le> 0 then 20 else if n > 100 then 100 else n)"

section \<open>Boards\<close>

text \<open>
  What a handler depends on besides the database and the request: the Redis client, which may be
  nil, with the store it reads, and whether the call to it fails.
\<close>

record api_env =
  ae_env :: env
  ae_redis :: "redis option"
  ae_redis_fails :: bool

text \<open>
  \<open>ZREVRANGE key 0 stop WITHSCORES\<close>: the members by falling score, those of the same score by
  falling bytes. A key that does not exist is an empty set.
\<close>

definition zset_pairs :: "(string \<rightharpoonup> int) \<Rightarrow> (int \<times> string) set" where
  "zset_pairs z = {(v, m). z m = Some v}"

definition ZRevRangeWithScores :: "string \<Rightarrow> int \<Rightarrow> redis \<Rightarrow> go_error + (int \<times> string) list" where
  "ZRevRangeWithScores key stop s =
     (case s key of
       Some (Hash h) \<Rightarrow> Inl wrong_type
     | _ \<Rightarrow> Inr (take (nat (stop + 1)) (rev (sorted_list_of_set (zset_pairs (zset_at key s))))))"

text \<open>\<open>int64(z.Score)\<close>: a score outside the range becomes the smallest number, as on amd64.\<close>

definition score_int64 :: "int \<Rightarrow> i64" where
  "score_int64 v = (if in_i64 v then v else - (2 ^ 63))"

fun board_rows :: "(int \<times> string) list \<Rightarrow> (u64 \<times> i64) list" where
  "board_rows [] = []"
| "board_rows ((v, m) # zs) =
     (case ParseUint m of None \<Rightarrow> board_rows zs | Some k \<Rightarrow> (k, score_int64 v) # board_rows zs)"

text \<open>The rows that Redis gives, or \<open>None\<close> for the way over MySQL.\<close>

definition redis_rows :: "api_env \<Rightarrow> string \<Rightarrow> int \<Rightarrow> (u64 \<times> i64) list option" where
  "redis_rows a key limit =
     (case ae_redis a of
       None \<Rightarrow> None
     | Some s \<Rightarrow>
         if ae_redis_fails a then None
         else (case ZRevRangeWithScores key (limit - 1) s of
           Inl _ \<Rightarrow> None | Inr zs \<Rightarrow> Some (board_rows zs)))"

definition getLiveContributors ::
  "api_env \<Rightarrow> u64 \<Rightarrow> int \<Rightarrow> db \<Rightarrow> (go_error + ContributorSummary list) \<times> db" where
  "getLiveContributors a liveSessionID limit d =
     (case redis_rows a (''lb:contributors:'' @ FormatUint liveSessionID) limit of
       Some rows \<Rightarrow> (Inr (map (\<lambda>(v, n). \<lparr>cs_ViewerID = v, cs_Coins = n\<rparr>) rows), d)
     | None \<Rightarrow>
         (case GetLiveContributors (ae_env a) liveSessionID limit (connect d) of (r, c) \<Rightarrow> (r, cdb c)))"

definition getCampaignLeaderboard ::
  "api_env \<Rightarrow> u64 \<Rightarrow> int \<Rightarrow> db \<Rightarrow> (go_error + CampaignRankRow list) \<times> db" where
  "getCampaignLeaderboard a campaignID limit d =
     (case redis_rows a (''lb:campaign:'' @ FormatUint campaignID) limit of
       Some rows \<Rightarrow> (Inr (map (\<lambda>(c, n). \<lparr>cr_CreatorID = c, cr_Points = n\<rparr>) rows), d)
     | None \<Rightarrow>
         (case GetCampaignLeaderboard (ae_env a) campaignID limit (connect d) of (r, c) \<Rightarrow> (r, cdb c)))"

section \<open>Handlers\<close>

definition handleHealth :: "http_request \<Rightarrow> db \<Rightarrow> http_response \<times> db" where
  "handleHealth r d = (WriteJSON 200 (JObj [(''status'', JStr ''ok'')]), d)"

definition handleRecharge :: "env \<Rightarrow> http_request \<Rightarrow> db \<Rightarrow> http_response \<times> db" where
  "handleRecharge e r d =
     (if hr_Method r \<noteq> ''POST'' then (only_allowed ''POST'', d)
      else case Decode (simple_fold e) recharge_fields zero_recharge (hr_Body r) of
        None \<Rightarrow> (bad_json, d)
      | Some req \<Rightarrow> apfst (respond e 201 RechargeResponse_json) (Recharge e req d))"

definition handleGift :: "env \<Rightarrow> http_request \<Rightarrow> db \<Rightarrow> http_response \<times> db" where
  "handleGift e r d =
     (if hr_Method r \<noteq> ''POST'' then (only_allowed ''POST'', d)
      else case Decode (simple_fold e) gift_fields zero_gift (hr_Body r) of
        None \<Rightarrow> (bad_json, d)
      | Some req \<Rightarrow> apfst (respond e 201 GiftResponse_json) (SendGift e req d))"

definition handleLivesPrefix :: "api_env \<Rightarrow> http_request \<Rightarrow> db \<Rightarrow> http_response \<times> db" where
  "handleLivesPrefix a r d =
     (let parts = path_parts r; e = ae_env a in
      if length parts \<noteq> 4 \<or> parts ! 0 \<noteq> ''v1'' \<or> parts ! 1 \<noteq> ''lives'' then (not_found, d)
      else case ParseUint (parts ! 2) of
        None \<Rightarrow> (WriteError 400 ''BAD_PATH'' ''invalid live session id'', d)
      | Some liveSessionID \<Rightarrow>
          if hr_Method r = ''POST'' \<and> parts ! 3 = ''close'' then
            apfst (respond e 202 (\<lambda>_. JObj [(''live_session_id'', json_word liveSessionID),
                (''status'', JStr ''CLOSED'')]))
              (CloseLiveSession e liveSessionID d)
          else if hr_Method r = ''GET'' \<and> parts ! 3 = ''contributors'' then
            (case getLiveContributors a liveSessionID (parseLimit (hr_limit r)) d of
              (Inl er, d') \<Rightarrow> (write_internal e er, d')
            | (Inr rows, d') \<Rightarrow> (WriteJSON 200 (JObj
                [(''contributors'', JArr (map ContributorSummary_json rows)),
                 (''live_session_id'', json_word liveSessionID)]), d'))
          else (not_found, d))"

definition handleCampaignPrefix :: "api_env \<Rightarrow> http_request \<Rightarrow> db \<Rightarrow> http_response \<times> db" where
  "handleCampaignPrefix a r d =
     (let parts = path_parts r; e = ae_env a in
      if hr_Method r \<noteq> ''GET'' then (only_allowed ''GET'', d)
      else if length parts \<noteq> 4 \<or> parts ! 0 \<noteq> ''v1'' \<or> parts ! 1 \<noteq> ''campaigns'' \<or> parts ! 3 \<noteq> ''leaderboard''
        then (not_found, d)
      else case ParseUint (parts ! 2) of
        None \<Rightarrow> (WriteError 400 ''BAD_PATH'' ''invalid campaign id'', d)
      | Some campaignID \<Rightarrow>
          (case getCampaignLeaderboard a campaignID (parseLimit (hr_limit r)) d of
            (Inl er, d') \<Rightarrow> (write_internal e er, d')
          | (Inr rows, d') \<Rightarrow> (WriteJSON 200 (JObj
              [(''campaign_id'', json_word campaignID),
               (''leaderboard'', JArr (map CampaignRankRow_json rows))]), d')))"

definition handleSettlementGet :: "env \<Rightarrow> http_request \<Rightarrow> db \<Rightarrow> http_response \<times> db" where
  "handleSettlementGet e r d =
     (let parts = path_parts r in
      if hr_Method r \<noteq> ''GET'' then (only_allowed ''GET'', d)
      else if length parts \<noteq> 3 \<or> parts ! 0 \<noteq> ''v1'' \<or> parts ! 1 \<noteq> ''settlements'' then (not_found, d)
      else case ParseUint (parts ! 2) of
        None \<Rightarrow> (WriteError 400 ''BAD_PATH'' ''invalid live session id'', d)
      | Some liveSessionID \<Rightarrow>
          (case GetSettlement e liveSessionID (connect d) of
            (res, c) \<Rightarrow> (respond e 200 SettlementResponse_json res, cdb c)))"

definition handleInternalComments :: "env \<Rightarrow> http_request \<Rightarrow> db \<Rightarrow> http_response \<times> db" where
  "handleInternalComments e r d =
     (if hr_Method r \<noteq> ''POST'' then (only_allowed ''POST'', d)
      else case Decode (simple_fold e) comment_request_fields zero_comment_request (hr_Body r) of
        None \<Rightarrow> (bad_json, d)
      | Some req \<Rightarrow>
          apfst (respond e 202 (\<lambda>_. JObj [(''queued'', JNum 1)])) (EnqueueCommentEvent e req d))"

text \<open>The only handler that may not answer: the loop over the minutes may not end.\<close>

definition handleInternalWatchMinutes :: "env \<Rightarrow> http_request \<Rightarrow> db \<Rightarrow> (http_response \<times> db) option" where
  "handleInternalWatchMinutes e r d =
     (if hr_Method r \<noteq> ''POST'' then Some (only_allowed ''POST'', d)
      else case Decode (simple_fold e) watch_request_fields zero_watch_request (hr_Body r) of
        None \<Rightarrow> Some (bad_json, d)
      | Some req \<Rightarrow>
          map_option (apfst (respond e 202 (\<lambda>queued. JObj [(''queued'', JNum queued)])))
            (EnqueueWatchMinuteEvents e req d))"

section \<open>The server\<close>

text \<open>
  The routes that \<open>New\<close> registers: a pattern that ends in a slash takes every path below it. What
  no route takes (and \<open>/metrics\<close>) is not handled here.
\<close>

definition routes ::
  "(string \<times> string \<times> (api_env \<Rightarrow> http_request \<Rightarrow> db \<Rightarrow> (http_response \<times> db) option)) list" where
  "routes =
     [(''/healthz'', ''healthz'', \<lambda>a r d. Some (handleHealth r d)),
      (''/v1/wallets/recharges'', ''wallet_recharge'', \<lambda>a r d. Some (handleRecharge (ae_env a) r d)),
      (''/v1/gifts'', ''gift_send'', \<lambda>a r d. Some (handleGift (ae_env a) r d)),
      (''/v1/internal/comments'', ''internal_comments'', \<lambda>a r d. Some (handleInternalComments (ae_env a) r d)),
      (''/v1/internal/watch-minutes'', ''internal_watch_minutes'',
        \<lambda>a r d. handleInternalWatchMinutes (ae_env a) r d),
      (''/v1/lives/'', ''lives_prefix'', \<lambda>a r d. Some (handleLivesPrefix a r d)),
      (''/v1/campaigns/'', ''campaigns_prefix'', \<lambda>a r d. Some (handleCampaignPrefix a r d)),
      (''/v1/settlements/'', ''settlement_get'', \<lambda>a r d. Some (handleSettlementGet (ae_env a) r d))]"

definition pattern_matches :: "string \<Rightarrow> string \<Rightarrow> bool" where
  "pattern_matches pat path \<longleftrightarrow>
     (if last pat = CHR ''/'' then take (length pat) path = pat else path = pat)"

text \<open>
  The state of the server: the counter of requests without an identifier, and the increments of the
  two counters of the metrics with their labels.
\<close>

record server =
  sv_reqCounter :: u64
  sv_requests :: "(string \<times> string \<times> string) list"
  sv_rejects :: "(string \<times> string) list"

definition New_server :: server where
  "New_server = \<lparr>sv_reqCounter = 0, sv_requests = [], sv_rejects = []\<rparr>"

definition newRequestID :: "server \<Rightarrow> string \<times> server" where
  "newRequestID s = (let v = sv_reqCounter s + 1 in (''req-'' @ FormatUint v, s\<lparr>sv_reqCounter := v\<rparr>))"

definition wrap ::
  "string \<Rightarrow> (http_request \<Rightarrow> db \<Rightarrow> (http_response \<times> db) option) \<Rightarrow> http_request \<Rightarrow> server \<times> db \<Rightarrow>
     (http_response \<times> server \<times> db) option" where
  "wrap route next_handler r st =
     (let (requestID, s) =
        (if hr_RequestID r = [] then newRequestID (fst st) else (hr_RequestID r, fst st)) in
      case next_handler r (snd st) of
        None \<Rightarrow> None
      | Some (w, d) \<Rightarrow>
          (let statusCode = FormatInt (hw_status w);
               s' = s\<lparr>sv_requests := sv_requests s @ [(route, hr_Method r, statusCode)],
                      sv_rejects := (if hw_status w \<ge> 400 then sv_rejects s @ [(route, statusCode)]
                                     else sv_rejects s)\<rparr> in
           Some (w\<lparr>hw_headers := (''X-Request-ID'', requestID) # hw_headers w\<rparr>, s', d)))"

definition ServeHTTP ::
  "api_env \<Rightarrow> http_request \<Rightarrow> server \<times> db \<Rightarrow> (http_response \<times> server \<times> db) option" where
  "ServeHTTP a r st =
     (case find (\<lambda>(pat, _). pattern_matches pat (hr_Path r)) routes of
       None \<Rightarrow> None
     | Some (_, route, h) \<Rightarrow> wrap route (h a) r st)"

section \<open>Configuration\<close>

definition getEnv :: "(string \<Rightarrow> string) \<Rightarrow> string \<Rightarrow> string \<Rightarrow> string" where
  "getEnv os key def = (let v = os key in if v \<noteq> [] then v else def)"

record Config =
  cf_HTTPAddr :: string
  cf_MySQLDSN :: string
  cf_KafkaBrokers :: "string list"
  cf_RedisAddr :: string
  cf_AllowedGiftRegion :: "string list"

definition Load :: "(string \<Rightarrow> string) \<Rightarrow> Config" where
  "Load os =
     \<lparr>cf_HTTPAddr = getEnv os ''HTTP_ADDR'' '':8080'',
      cf_MySQLDSN = getEnv os ''MYSQL_DSN''
        ''root:root@tcp(localhost:3306)/live_revenue?parseTime=true&multiStatements=true'',
      cf_KafkaBrokers = [getEnv os ''KAFKA_BROKER'' ''localhost:9092''],
      cf_RedisAddr = getEnv os ''REDIS_ADDR'' ''localhost:6379'',
      cf_AllowedGiftRegion = [''US'', ''KR'', ''JP'', ''GB'', ''DE'', ''FR'']\<rparr>"

section \<open>What the boards show\<close>

lemma split_slashes_part: "CHR ''/'' \<notin> set p \<Longrightarrow> split_slashes (p @ CHR ''/'' # s) = p # split_slashes s"
  by (induction p) auto

lemma split_slashes_last: "CHR ''/'' \<notin> set p \<Longrightarrow> split_slashes p = [p]"
  by (induction p) auto

lemma FormatUint_no_slash: "CHR ''/'' \<notin> set (FormatUint v)"
  using dec_digits [of "unat v"] by (auto simp: FormatUint_def list_all_iff is_digit_def)

lemma contributors_path:
  "hr_Path r = ''/v1/lives/'' @ FormatUint sid @ ''/contributors'' \<Longrightarrow>
     path_parts r = [''v1'', ''lives'', FormatUint sid, ''contributors'']"
  by (simp add: path_parts_def trim_slashes_def split_slashes_part [OF FormatUint_no_slash])

lemma parseLimit_range: "1 \<le> parseLimit raw \<and> parseLimit raw \<le> 100"
  by (simp add: parseLimit_def split: option.split)

lemma adjust_parseLimit [simp]: "adjust_limit (parseLimit raw) = parseLimit raw"
  using parseLimit_range [of raw] by (simp add: adjust_limit_def)

text \<open>What Redis returns for a board.\<close>

lemma zset_pairs_board:
  "zset_pairs (board FormatUint key amount rs) = (\<lambda>k. (total_by key amount k rs, FormatUint k)) ` key ` set rs"
  by (auto simp: zset_pairs_def board_def map_of_keyed)

definition row_of :: "int \<times> string \<Rightarrow> u64 \<times> i64" where
  "row_of z = (the (ParseUint (snd z)), fst z)"

lemma board_rows_map:
  "list_all (\<lambda>z. (\<exists>k. snd z = FormatUint k) \<and> in_i64 (fst z)) zs \<Longrightarrow> board_rows zs = map row_of zs"
  by (induction zs rule: board_rows.induct) (auto simp: row_of_def score_int64_def)

lemma board_served:
  assumes "\<And>k. in_i64 (total_by key amount k rs)"
  defines "zs \<equiv> rev (sorted_list_of_set (zset_pairs (board FormatUint key amount rs)))"
  shows "is_top key amount n rs (board_rows (take n zs))"
proof -
  have set: "set zs = (\<lambda>k. (total_by key amount k rs, FormatUint k)) ` key ` set rs"
    unfolding zs_def by (simp add: zset_pairs_board)
  have rows: "board_rows (take n zs) = take n (map row_of zs)"
    using assms(1) set by (subst board_rows_map) (auto simp: list_all_iff take_map dest!: in_set_takeD)
  have "inj_on (fst \<circ> row_of) (set zs)" by (auto simp: inj_on_def set row_of_def)
  then have "distinct (map fst (map row_of zs))" by (simp add: distinct_map zs_def)
  moreover have "set (map row_of zs) = (\<lambda>k. (k, total_by key amount k rs)) ` key ` set rs"
    by (simp add: set row_of_def image_image)
  moreover have "sorted_wrt (\<ge>) zs" unfolding zs_def by (simp add: sorted_wrt_rev)
  then have "sorted_wrt (\<lambda>x y. fst y \<le> fst x) zs"
    by (rule sorted_wrt_mono_rel [rotated]) (auto simp: less_eq_prod_def)
  then have "sorted (map (\<lambda>p. - snd p) (map row_of zs))" by (simp add: sorted_map row_of_def)
  ultimately show ?thesis unfolding rows by (rule top_of_descending)
qed

lemma redis_board:
  assumes "ae_redis a = Some s" "\<not> ae_redis_fails a" "s key = board_value (board FormatUint k amount rs)"
    and "1 \<le> limit" "\<And>x. in_i64 (total_by k amount x rs)"
  shows "\<exists>ps. redis_rows a key limit = Some ps \<and> is_top k amount (nat limit) rs ps"
proof -
  have z: "zset_at key s = board FormatUint k amount rs"
    using assms(3) by (simp add: zset_at_def board_value_def)
  have "ZRevRangeWithScores key (limit - 1) s =
      Inr (take (nat limit) (rev (sorted_list_of_set (zset_pairs (board FormatUint k amount rs)))))"
    using assms(3) z by (simp add: ZRevRangeWithScores_def board_value_def)
  then show ?thesis
    using assms(1,2) board_served [OF assms(5)] by (simp add: redis_rows_def)
qed

text \<open>The contributors of a session, whichever way they are read.\<close>

lemma contributors_query:
  assumes "calm e" and "in_i64 (gross_spend sid d)"
  shows "\<exists>c. GetLiveContributors e sid limit (connect d) =
      (Inr (top_contributors (nat (adjust_limit limit)) sid d), c) \<and> cdb c = d"
proof -
  obtain r c where run: "GetLiveContributors e sid limit (connect d) = (r, c)" by force
  then have "cdb c = d \<and> (calm e \<longrightarrow> r = fst (SelectContributors (nat (adjust_limit limit)) sid (now e 0) d))"
    using query_answer [OF calm_quiet [OF assms(1)], of "SelectContributors (nat (adjust_limit limit)) sid"]
    unfolding GetLiveContributors_def by (auto simp: SelectContributors_def)
  with assms(1) contributors_scan [OF assms(2)] run show ?thesis by (simp add: SelectContributors_def)
qed

definition redis_current :: "api_env \<Rightarrow> db \<Rightarrow> bool" where
  "redis_current a d \<longleftrightarrow>
     (case ae_redis a of None \<Rightarrow> True | Some s \<Rightarrow> tracks (map (order_event d) (accepted_orders d)) s)"

lemma contributors_are_top:
  assumes c: "calm (ae_env a)" and fits: "in_i64 (gross_spend sid d)" and cur: "redis_current a d"
    and lim: "1 \<le> limit" "limit \<le> 100"
  shows "\<exists>ps. is_top go_ViewerID (\<lambda>g. uint (go_ChargedCoins g)) (nat limit) (session_orders sid d) ps \<and>
    getLiveContributors a sid limit d = (Inr (map (\<lambda>p. \<lparr>cs_ViewerID = fst p, cs_Coins = snd p\<rparr>) ps), d)"
proof (cases "redis_rows a (contributorKey sid) limit")
  case None
  have "adjust_limit limit = limit" using lim by (simp add: adjust_limit_def)
  with contributors_query [OF c fits, of limit] None show ?thesis
    using rank_by_is_top [of go_ViewerID "\<lambda>g. uint (go_ChargedCoins g)" "nat limit" "session_orders sid d"]
    by (auto simp: getLiveContributors_def contributorKey_def top_contributors_def ranked_def)
next
  case (Some rows)
  then obtain s where s: "ae_redis a = Some s" "\<not> ae_redis_fails a"
    by (auto simp: redis_rows_def split: option.splits if_splits)
  have total: "in_i64 (total_by go_ViewerID (\<lambda>g. uint (go_ChargedCoins g)) v (session_orders sid d))" for v
    using fits viewer_total_nonneg [of v "session_orders sid d"] viewer_total_le [of v "session_orders sid d"]
    by (simp add: in_i64_def gross_spend_def viewer_total_def)
  have "s (contributorKey sid) =
      board_value (board FormatUint go_ViewerID (\<lambda>g. uint (go_ChargedCoins g)) (session_orders sid d))"
    using cur s(1) by (simp add: redis_current_def tracks_def session_board_orders)
  then have "is_top go_ViewerID (\<lambda>g. uint (go_ChargedCoins g)) (nat limit) (session_orders sid d) rows"
    using redis_board [OF s _ lim(1) total] Some by fastforce
  then show ?thesis
    using Some by (auto simp: getLiveContributors_def contributorKey_def case_prod_beta')
qed

text \<open>
  A store that lost its keys answers with empty boards; the way over MySQL is not taken.
\<close>

lemma wiped_board_served_empty:
  assumes "ae_redis a = Some Map.empty" and "\<not> ae_redis_fails a"
  shows "getLiveContributors a sid limit d = (Inr [], d)"
  using assms
  by (simp add: getLiveContributors_def redis_rows_def ZRevRangeWithScores_def zset_at_def zset_pairs_def)

section \<open>Requests that read\<close>

lemma read_keeps_db:
  assumes "quiet e" and "\<And>t d. snd (sel t d) = id"
    and "check_as Inl (auto_exec e sel) (\<lambda>out. ret (Inr out)) (connect d) = (r, c)"
  shows "cdb c = d"
  using query_answer [OF assms] by blast

lemma GetSettlement_keeps_db:
  assumes "quiet e" and "GetSettlement e sid (connect d) = (r, c)"
  shows "cdb c = d"
  using assms
  by (auto simp: GetSettlement_def SelectSettlement_def SelectContributors_def on_call_def check_as_def
      auto_exec_def auto_exec_alloc_def exec_alloc_def connect_def view_def ret_def Let_def
      split: option.splits fault.splits sum.splits prod.splits if_splits)

lemma boards_keep_db:
  assumes "quiet (ae_env a)"
  shows "snd (getLiveContributors a sid limit d) = d" "snd (getCampaignLeaderboard a cid limit d) = d"
  using read_keeps_db [OF assms, of "SelectContributors _ sid"] read_keeps_db [OF assms, of "SelectCampaignRanks _ cid"]
  by (auto simp: getLiveContributors_def getCampaignLeaderboard_def GetLiveContributors_def
      GetCampaignLeaderboard_def SelectContributors_def SelectCampaignRanks_def split: option.splits prod.splits)

lemma handlers_keep_db:
  assumes q: "quiet (ae_env a)" and m: "hr_Method r \<noteq> ''POST''"
  shows "snd (handleHealth r d) = d" "snd (handleRecharge e r d) = d" "snd (handleGift e r d) = d"
    "snd (handleInternalComments e r d) = d" "handleInternalWatchMinutes e r d = Some (only_allowed ''POST'', d)"
    "snd (handleLivesPrefix a r d) = d" "snd (handleCampaignPrefix a r d) = d"
    "snd (handleSettlementGet (ae_env a) r d) = d"
  using m
  apply (simp_all add: handleHealth_def handleRecharge_def handleGift_def handleInternalComments_def
      handleInternalWatchMinutes_def)
  subgoal
    using boards_keep_db(1) [OF q]
    by (auto simp: handleLivesPrefix_def Let_def split: option.split prod.split sum.split) (metis snd_conv)+
  subgoal
    using boards_keep_db(2) [OF q]
    by (auto simp: handleCampaignPrefix_def Let_def split: option.split prod.split sum.split) (metis snd_conv)+
  subgoal
    using GetSettlement_keeps_db [OF q]
    by (auto simp: handleSettlementGet_def Let_def split: option.split prod.split)
  done

text \<open>What the wrapper adds: the identifier of the request, and one increment per request.\<close>

lemma wrap_result:
  assumes "wrap route h r (s, d) = Some (w, s', d')"
  obtains w0 where "h r d = Some (w0, d')" "w = w0\<lparr>hw_headers := hd (hw_headers w) # hw_headers w0\<rparr>"
    "fst (hd (hw_headers w)) = ''X-Request-ID''"
    "sv_requests s' = sv_requests s @ [(route, hr_Method r, FormatInt (hw_status w))]"
  using assms by (auto simp: wrap_def newRequestID_def Let_def split: option.splits prod.splits if_splits)

lemma ServeHTTP_reads:
  assumes q: "quiet (ae_env a)" and m: "hr_Method r \<noteq> ''POST''" and run: "ServeHTTP a r (s, d) = Some (w, s', d')"
  shows "d' = d"
proof -
  obtain pat route h where f: "find (\<lambda>(pat, _). pattern_matches pat (hr_Path r)) routes = Some (pat, route, h)"
    and w: "wrap route (h a) r (s, d) = Some (w, s', d')"
    using run by (auto simp: ServeHTTP_def split: option.splits)
  obtain w0 where h: "h a r d = Some (w0, d')" using wrap_result [OF w] by blast
  have "(pat, route, h) \<in> set routes" using find_SomeD [OF f] by blast
  then have "snd x = d" if "h a r d = Some x" for x
    using that handlers_keep_db [OF q m] by (auto simp: routes_def)
  from this [OF h] show ?thesis by simp
qed

end
