(* ===== verification/Binaries.thy ===== *)
theory Binaries
  imports Workers Api
begin

text \<open>
  The five binaries of \<open>cmd/\<close> from start to end: the configuration, the connections each opens
  (\<open>internal/db/mysql.go\<close> for MySQL), the one-shot flags, the signal, and what is closed on the way
  out. The drivers are parameters: whether a pool, a ping, a consumer group or a producer fails.
  \<open>log.Fatalf\<close> ends the process without its deferred calls.
\<close>

section \<open>Connections\<close>

record outside =
  getenv :: "string \<Rightarrow> string"
  sql_Open :: "string \<Rightarrow> go_error option"
  PingContext :: "string \<Rightarrow> go_error option"

datatype resource = Database | RedisClient | ConsumerGroup string | SyncProducer | Ticker

datatype action = Opened resource | Closed resource | Listening string | Slept nat | ShutDown nat

text \<open>The pool with its limits; times in seconds.\<close>

record pool =
  pl_DSN :: string
  pl_ConnMaxIdleTime :: nat
  pl_ConnMaxLifetime :: nat
  pl_MaxIdleConns :: nat
  pl_MaxOpenConns :: nat

definition OpenMySQL :: "outside \<Rightarrow> string \<Rightarrow> (go_error + pool) \<times> action list" where
  "OpenMySQL ou dsn =
     (case sql_Open ou dsn of
       Some er \<Rightarrow> (Inl er, [])
     | None \<Rightarrow>
         let db = \<lparr>pl_DSN = dsn, pl_ConnMaxIdleTime = 2 * 60, pl_ConnMaxLifetime = 30 * 60,
                   pl_MaxIdleConns = 20, pl_MaxOpenConns = 60\<rparr>
         in case PingContext ou dsn of
              Some er \<Rightarrow> (Inl er, [Opened Database, Closed Database])
            | None \<Rightarrow> (Inr db, [Opened Database]))"

text \<open>Deferred calls, last one first; they run when \<open>main\<close> returns.\<close>

definition deferred :: "resource list \<Rightarrow> exit \<Rightarrow> action list" where
  "deferred rs x = (if x = Returned then map Closed (rev rs) else [])"

section \<open>The consumer group\<close>

record group_config =
  gc_Version :: string
  gc_GroupStrategy :: string
  gc_OffsetsInitial :: string

definition saramaCfg :: group_config where
  "saramaCfg = \<lparr>gc_Version = ''4.1.1.0'', gc_GroupStrategy = ''range'', gc_OffsetsInitial = ''oldest''\<rparr>"

text \<open>\<open>sarama.NewConsumerGroup\<close>, by brokers, name and configuration.\<close>

type_synonym new_group = "string list \<Rightarrow> string \<Rightarrow> group_config \<Rightarrow> go_error option"

text \<open>
  The loop around \<open>group.Consume\<close>, while sessions end and signals come in: \<open>session n\<close> is what the
  n-th call of \<open>Consume\<close> does and returns. The signal is taken once, by a goroutine that closes the
  group; nothing leaves the loop.
\<close>

datatype happening = Signal | Session

primrec consume_loop ::
  "string \<Rightarrow> (nat \<Rightarrow> 's \<Rightarrow> (go_error + unit) \<times> 's) \<Rightarrow> happening list \<Rightarrow> nat \<Rightarrow> action list \<Rightarrow> 's \<Rightarrow>
     action list \<times> 's" where
  "consume_loop name session [] n acts s = (acts, s)"
| "consume_loop name session (h # hs) n acts s =
     (case h of
       Signal \<Rightarrow> consume_loop name session hs n
         (if Closed (ConsumerGroup name) \<in> set acts then acts else acts @ [Closed (ConsumerGroup name)]) s
     | Session \<Rightarrow>
         (case session n s of
           (Inl er, s') \<Rightarrow> consume_loop name session hs (Suc n) (acts @ [Slept 1]) s'
         | (Inr _, s') \<Rightarrow> consume_loop name session hs (Suc n) acts s'))"

definition startMetricsServer :: "string \<Rightarrow> action list" where
  "startMetricsServer addr = [Listening addr]"

text \<open>From the group to the loop, the server of the metrics included where there is one.\<close>

definition run_group ::
  "new_group \<Rightarrow> Config \<Rightarrow> string \<Rightarrow> string list \<Rightarrow> (nat \<Rightarrow> 's \<Rightarrow> (go_error + unit) \<times> 's) \<Rightarrow>
     happening list \<Rightarrow> action list \<Rightarrow> 's \<Rightarrow> exit \<times> action list \<times> 's" where
  "run_group ng cfg name metrics session hs acts s =
     (case ng (cf_KafkaBrokers cfg) name saramaCfg of
       Some er \<Rightarrow> (Fatal er, acts, s)
     | None \<Rightarrow>
         (Consuming, consume_loop name session hs 0
            (acts @ Opened (ConsumerGroup name) # concat (map startMetricsServer metrics)) s))"

definition settlement_worker_main ::
  "outside \<Rightarrow> new_group \<Rightarrow> (nat \<Rightarrow> db \<Rightarrow> (go_error + unit) \<times> db) \<Rightarrow> happening list \<Rightarrow> env \<Rightarrow> u64 \<Rightarrow> db \<Rightarrow>
     exit \<times> action list \<times> db" where
  "settlement_worker_main ou ng session hs e liveSessionID d =
     (let cfg = Load (getenv ou) in
      case OpenMySQL ou (cf_MySQLDSN cfg) of
        (Inl er, acts) \<Rightarrow> (Fatal er, acts, d)
      | (Inr _, acts) \<Rightarrow>
          (case settlement_main e liveSessionID d of
            (Consuming, d') \<Rightarrow> run_group ng cfg ''settlement-worker-v1'' [] session hs acts d'
          | (x, d') \<Rightarrow> (x, acts @ deferred [Database] x, d')))"

definition leaderboard_projector_main ::
  "outside \<Rightarrow> new_group \<Rightarrow> (nat \<Rightarrow> db \<times> redis \<Rightarrow> (go_error + unit) \<times> db \<times> redis) \<Rightarrow> happening list \<Rightarrow> env \<Rightarrow>
     (nat \<Rightarrow> reply) \<Rightarrow> map_order \<Rightarrow> u64 \<Rightarrow> db \<times> redis \<Rightarrow> exit \<times> action list \<times> db \<times> redis" where
  "leaderboard_projector_main ou ng session hs e rp ord rebuildLiveSession st =
     (let cfg = Load (getenv ou) in
      case OpenMySQL ou (cf_MySQLDSN cfg) of
        (Inl er, acts) \<Rightarrow> (Fatal er, acts, st)
      | (Inr _, acts) \<Rightarrow>
          let acts' = acts @ [Opened RedisClient] in
          (case leaderboard_main e rp ord rebuildLiveSession st of
            (Consuming, st') \<Rightarrow> run_group ng cfg ''leaderboard-projector-v1''
               [getEnv (getenv ou) ''LEADERBOARD_METRICS_ADDR'' '':9101''] session hs acts' st'
          | (x, st') \<Rightarrow> (x, acts' @ deferred [Database, RedisClient] x, st')))"

definition points_projector_main ::
  "outside \<Rightarrow> new_group \<Rightarrow> (nat \<Rightarrow> db \<Rightarrow> (go_error + unit) \<times> db) \<Rightarrow> happening list \<Rightarrow> db \<Rightarrow>
     exit \<times> action list \<times> db" where
  "points_projector_main ou ng session hs d =
     (let cfg = Load (getenv ou) in
      case OpenMySQL ou (cf_MySQLDSN cfg) of
        (Inl er, acts) \<Rightarrow> (Fatal er, acts, d)
      | (Inr _, acts) \<Rightarrow> run_group ng cfg ''points-projector-v1''
          [getEnv (getenv ou) ''POINTS_METRICS_ADDR'' '':9102''] session hs acts d)"

section \<open>The relay\<close>

record producer_config =
  pc_Version :: string
  pc_ReturnSuccesses :: bool
  pc_RetryMax :: nat
  pc_RequiredAcks :: string

definition producerCfg :: producer_config where
  "producerCfg = \<lparr>pc_Version = ''4.1.1.0'', pc_ReturnSuccesses = True, pc_RetryMax = 3,
     pc_RequiredAcks = ''all''\<rparr>"

text \<open>
  \<open>time.NewTicker\<close> panics on an interval that is not positive; a panic runs the deferred calls and
  then ends the process.
\<close>

datatype relay_exit = Ended exit | TickerPanic

definition outbox_relay_main ::
  "outside \<Rightarrow> (string list \<Rightarrow> producer_config \<Rightarrow> go_error option) \<Rightarrow> (go_error \<Rightarrow> bool) \<Rightarrow> bool \<Rightarrow> int \<Rightarrow> int \<Rightarrow>
     env \<Rightarrow> env list \<Rightarrow> broker \<Rightarrow> db \<times> message list \<Rightarrow> relay_exit \<times> action list \<times> db \<times> message list" where
  "outbox_relay_main ou np canceled once_flag batch interval e es b s =
     (let cfg = Load (getenv ou) in
      case OpenMySQL ou (cf_MySQLDSN cfg) of
        (Inl er, acts) \<Rightarrow> (Ended (Fatal er), acts, s)
      | (Inr _, acts) \<Rightarrow>
          (case np (cf_KafkaBrokers cfg) producerCfg of
            Some er \<Rightarrow> (Ended (Fatal er), acts, s)
          | None \<Rightarrow>
              let acts' = acts @ [Opened SyncProducer] in
              if once_flag then
                (case relay_main canceled True e es b batch s of
                  (x, s') \<Rightarrow> (Ended x, acts' @ deferred [Database, SyncProducer] x, s'))
              else if interval \<le> 0 then
                (TickerPanic, acts' @ deferred [Database, SyncProducer] Returned, s)
              else
                (case relay_main canceled False e es b batch s of
                  (x, s') \<Rightarrow> (Ended x,
                     acts' @ Opened Ticker # deferred [Database, SyncProducer, Ticker] x, s'))))"

section \<open>The API\<close>

text \<open>
  While the server runs: it ends by itself, with \<open>http.ErrServerClosed\<close> or another error, or a
  signal comes in and it is shut down within five seconds.
\<close>

datatype api_happening = ServerClosed | ServeFailed go_error | Terminate

primrec await_signal :: "api_happening list \<Rightarrow> exit" where
  "await_signal [] = Consuming"
| "await_signal (h # hs) =
     (case h of
       ServerClosed \<Rightarrow> await_signal hs
     | ServeFailed er \<Rightarrow> Fatal er
     | Terminate \<Rightarrow> Returned)"

definition Start :: "string \<Rightarrow> action list" where
  "Start addr = [Listening addr]"

definition Shutdown :: "nat \<Rightarrow> action list" where
  "Shutdown timeout = [ShutDown timeout]"

definition api_main :: "outside \<Rightarrow> api_happening list \<Rightarrow> exit \<times> action list" where
  "api_main ou hs =
     (let cfg = Load (getenv ou) in
      case OpenMySQL ou (cf_MySQLDSN cfg) of
        (Inl er, acts) \<Rightarrow> (Fatal er, acts)
      | (Inr _, acts) \<Rightarrow>
          let x = await_signal hs in
          (x, acts @ [Opened RedisClient] @ Start (cf_HTTPAddr cfg) @
             (if x = Returned then Shutdown 5 else []) @ deferred [Database, RedisClient] x))"

section \<open>What the binaries leave behind\<close>

definition still_open :: "action list \<Rightarrow> resource list" where
  "still_open acts =
     fold (\<lambda>a rs. case a of Opened r \<Rightarrow> r # rs | Closed r \<Rightarrow> remove1 r rs | _ \<Rightarrow> rs) acts []"

text \<open>A pool that does not answer is closed again; an error leaves nothing open.\<close>

lemma OpenMySQL_cases:
  "(\<exists>er acts. OpenMySQL ou dsn = (Inl er, acts) \<and> still_open acts = []) \<or>
   (\<exists>db. OpenMySQL ou dsn = (Inr db, [Opened Database]) \<and> pl_DSN db = dsn \<and>
      pl_MaxIdleConns db \<le> pl_MaxOpenConns db)"
  by (auto simp: OpenMySQL_def still_open_def Let_def split: option.splits)

text \<open>A process that returns has closed whatever it opened.\<close>

lemmas main_defs = OpenMySQL_def still_open_def deferred_def run_group_def Start_def Shutdown_def Let_def

lemma returns_clean:
  "api_main ou hs = (Returned, acts) \<Longrightarrow> still_open acts = []"
  "outbox_relay_main ou np canceled o' batch interval e es b s = (Ended Returned, acts, s1) \<Longrightarrow> still_open acts = []"
  "settlement_worker_main ou ng session hs' e sid d = (Returned, acts, d') \<Longrightarrow> still_open acts = []"
  "leaderboard_projector_main ou ng session' hs' e rp ord sid st = (Returned, acts, st') \<Longrightarrow> still_open acts = []"
  by (auto simp: main_defs api_main_def outbox_relay_main_def settlement_worker_main_def
      leaderboard_projector_main_def split: option.splits if_splits prod.splits exit.splits)

text \<open>With its flag a worker does what the flag says, once, and ends.\<close>

lemma settlement_oneshot:
  assumes "sid \<noteq> 0" and "OpenMySQL ou (cf_MySQLDSN (Load (getenv ou))) = (Inr db, acts)"
  shows "case settlement_worker_main ou ng session hs e sid d of (x, _, d') \<Rightarrow>
    (x, d') = exit_of (GenerateSettlement e sid d) \<and> x \<noteq> Consuming"
  using assms
  by (auto simp: settlement_worker_main_def settlement_main_def exit_of_def Let_def
      split: prod.splits sum.splits exit.splits)

text \<open>
  A consumer that got as far as its group never ends: a signal closes the group, and every later
  call of \<open>Consume\<close> fails, is logged and tried again after a second.
\<close>

lemma consume_loop_naps:
  assumes "\<And>n s. \<exists>er. session n s = (Inl er, s)"
  shows "consume_loop name session (replicate k Session) n acts s = (acts @ replicate k (Slept 1), s)"
proof (induction k arbitrary: n acts)
  case (Suc k)
  obtain er where "session n s = (Inl er, s)" using assms by blast
  then show ?case using Suc by simp
qed simp

lemma run_group_never_returns [simp]: "fst (run_group ng cfg name metrics session hs acts s) \<noteq> Returned"
  by (simp add: run_group_def split: option.splits)

lemma consumers_never_return:
  "fst (points_projector_main ou ng session hs d) \<noteq> Returned"
  "fst (settlement_worker_main ou ng session hs e 0 d) \<noteq> Returned"
  "fst (leaderboard_projector_main ou ng session' hs e rp ord 0 st) \<noteq> Returned"
  by (auto simp: points_projector_main_def settlement_worker_main_def leaderboard_projector_main_def
      settlement_main_def leaderboard_main_def Let_def split: sum.splits prod.splits)

lemma interrupted_consumer:
  assumes "\<And>n s. \<exists>er. session n s = (Inl er, s)" and "ng (cf_KafkaBrokers cfg) name saramaCfg = None"
    and "Closed (ConsumerGroup name) \<notin> set acts"
  shows "run_group ng cfg name metrics session (Signal # replicate k Session) acts s =
    (Consuming, acts @ Opened (ConsumerGroup name) # concat (map startMetricsServer metrics) @
       Closed (ConsumerGroup name) # replicate k (Slept 1), s)"
  using consume_loop_naps [where session = session, OF assms(1)] assms(2,3)
  by (auto simp: run_group_def startMetricsServer_def)

end
