(* ===== verification/Queries.thy ===== *)
theory Queries
  imports Leaderboard Relay Enums
begin

text \<open>
  The query layer that \<open>sqlc\<close> generates (\<open>internal/store/sqlcgen/db.go\<close> and
  \<open>live_revenue.sql.go\<close>): one method per query, over a connection pool or a transaction. No
  binary of the repository calls it; the services write their statements by hand, in the theories
  \<open>Sql\<close>, \<open>Settlement\<close> and \<open>Relay\<close>, and the two are compared below. A nullable BIGINT UNSIGNED
  column is a \<open>sql.NullInt64\<close> in the structs: what does not fit it fails to scan, and a negative
  number does not fit the column. The times of the rows are the caller's here, any \<open>time.Time\<close>; the
  column keeps microseconds. The enumerations of the parameters are Go strings, of which the server
  refuses those that are no member. A nil slice is NULL. Not modelled are times outside the years 1
  to 9999, which the driver refuses before it sends anything.
\<close>

section \<open>The handle\<close>

datatype DBTX = Pool | InTx

record Queries =
  q_db :: DBTX

definition New_queries :: "DBTX \<Rightarrow> Queries" where
  "New_queries db = \<lparr>q_db = db\<rparr>"

definition WithTx :: "Queries \<Rightarrow> Queries" where
  "WithTx q = \<lparr>q_db = InTx\<rparr>"

text \<open>\<open>ExecContext\<close> and \<open>QueryContext\<close> of the handle; \<open>run_insert\<close> for a table with an AUTO_INCREMENT key.\<close>

definition run_query :: "Queries \<Rightarrow> env \<Rightarrow> 'a sql \<Rightarrow> 'a stm" where
  "run_query q e st = (case q_db q of Pool \<Rightarrow> auto_exec e (\<lambda>_. st) | InTx \<Rightarrow> exec e (\<lambda>_. st))"

definition run_insert ::
  "Queries \<Rightarrow> env \<Rightarrow> (db \<Rightarrow> nat) \<Rightarrow> (db \<Rightarrow> db) \<Rightarrow> (nat \<Rightarrow> 'a sql) \<Rightarrow> 'a stm" where
  "run_insert q e ctr bump st = (case q_db q of
     Pool \<Rightarrow> auto_exec_alloc e ctr bump (\<lambda>n _. st n) | InTx \<Rightarrow> exec_alloc e ctr bump (\<lambda>n _. st n))"

text \<open>A write whose row takes the time at which MySQL runs it.\<close>

definition run_timed :: "Queries \<Rightarrow> env \<Rightarrow> (micros \<Rightarrow> 'a sql) \<Rightarrow> 'a stm" where
  "run_timed q e st = (case q_db q of Pool \<Rightarrow> auto_exec e st | InTx \<Rightarrow> exec e st)"

text \<open>\<open>sql.Result\<close>.\<close>

record sql_result =
  LastInsertId :: i64
  RowsAffected :: i64

section \<open>Columns\<close>

definition the_default :: "'a \<Rightarrow> 'a option \<Rightarrow> 'a" where
  "the_default x v = (case v of None \<Rightarrow> x | Some y \<Rightarrow> y)"

lemma the_default_simps [simp]: "the_default x None = x" "the_default x (Some y) = y"
  by (simp_all add: the_default_def)

text \<open>A BINARY(32) column: a shorter value is filled up with zeros, a longer one refused.\<close>

definition binary32 :: "byte list \<Rightarrow> byte list" where
  "binary32 h = h @ replicate (32 - length h) 0"

text \<open>
  An ENUM column: the member that a text stands for, among the members in the order of the column.
\<close>

definition enum_value :: "env \<Rightarrow> ('a \<Rightarrow> string) \<Rightarrow> 'a list \<Rightarrow> string \<Rightarrow> 'a option" where
  "enum_value e txt members s =
     (case enum_member e (map txt members) s of
       None \<Rightarrow> None
     | Some i \<Rightarrow> if i < length members then Some (members ! i) else None)"

definition order_status :: "env \<Rightarrow> string \<Rightarrow> GiftOrdersStatus option" where
  "order_status e = enum_value e GiftOrdersStatus_text [ACCEPTED, REJECTED]"

definition tx_type :: "env \<Rightarrow> string \<Rightarrow> WalletTransactionsTxType option" where
  "tx_type e = enum_value e WalletTransactionsTxType_text [RECHARGE, GIFT_DEBIT]"

definition reconciliation_status :: "env \<Rightarrow> string \<Rightarrow> ReconciliationResultsStatus option" where
  "reconciliation_status e = enum_value e ReconciliationResultsStatus_text [PASS, FAIL]"

text \<open>The documented part of it: the text of a member stands for that member.\<close>

definition enum_texts :: "env \<Rightarrow> bool" where
  "enum_texts e \<longleftrightarrow>
     (\<forall>names i. distinct names \<longrightarrow> i < length names \<longrightarrow> enum_member e names (names ! i) = Some i)"

definition unsigned_null :: "i64 option \<Rightarrow> u64 option" where
  "unsigned_null v = map_option of_int v"

definition negative_null :: "i64 option \<Rightarrow> bool" where
  "negative_null v = (case v of None \<Rightarrow> False | Some x \<Rightarrow> x < 0)"

definition null_too_long :: "nat \<Rightarrow> string option \<Rightarrow> bool" where
  "null_too_long n v = (case v of None \<Rightarrow> False | Some s \<Rightarrow> too_long n s)"

text \<open>A \<open>json.RawMessage\<close>: nil, bytes that are no JSON text, or the JSON value it holds.\<close>

datatype RawMessage = NilMessage | NoJson | JsonText json

abbreviation mysql_null_column :: nat where "mysql_null_column \<equiv> 1048"
abbreviation mysql_truncated :: nat where "mysql_truncated \<equiv> 1265"
abbreviation mysql_bad_datetime :: nat where "mysql_bad_datetime \<equiv> 1292"
abbreviation mysql_invalid_json :: nat where "mysql_invalid_json \<equiv> 3140"

text \<open>
  The values of a row that may be refused, in the order of its columns: the first refusal is the
  error of the statement.
\<close>

fun first_refusal :: "(bool \<times> nat) list \<Rightarrow> nat option" where
  "first_refusal [] = None"
| "first_refusal ((refused, code) # cs) = (if refused then Some code else first_refusal cs)"

definition message_refusals :: "RawMessage \<Rightarrow> (bool \<times> nat) list" where
  "message_refusals m = [(m = NilMessage, mysql_null_column), (m = NoJson, mysql_invalid_json)]"

fun message_json :: "RawMessage \<Rightarrow> json" where
  "message_json (JsonText v) = v"
| "message_json _ = JNull"

text \<open>A slice of bytes for a BINARY(32) column that is NOT NULL.\<close>

definition hash_refusals :: "byte list option \<Rightarrow> (bool \<times> nat) list" where
  "hash_refusals h =
     [(h = None, mysql_null_column), (32 < length (the_default [] h), mysql_too_long)]"

definition time_refusals :: "env \<Rightarrow> go_time \<Rightarrow> (bool \<times> nat) list" where
  "time_refusals e t = [(column_time e t = None, mysql_bad_datetime)]"

text \<open>A time that may be NULL, for a column that an UPDATE sets: only a row that it reaches refuses it.\<close>

definition null_time :: "env \<Rightarrow> go_time option \<Rightarrow> micros option option" where
  "null_time e t = (case t of None \<Rightarrow> Some None | Some x \<Rightarrow> map_option Some (column_time e x))"

section \<open>Wallet accounts\<close>

definition createWalletAccount :: "u64 \<Rightarrow> micros \<Rightarrow> unit sql" where
  "createWalletAccount uid t d =
     (if list_ex (\<lambda>a. wa_UserID a = uid) (wallet_accounts d) then (Inl (MySQLError mysql_dup_entry), id)
      else if \<not> user_exists uid d then (Inl (MySQLError mysql_no_parent), id)
      else (Inr (), wallet_accounts_update (\<lambda>as. as @
        [\<lparr>wa_UserID = uid, wa_Currency = COIN, wa_AvailableBalance = 0, wa_UpdatedAt = t\<rparr>])))"

definition Queries_CreateWalletAccount :: "Queries \<Rightarrow> env \<Rightarrow> u64 \<Rightarrow> unit stm" where
  "Queries_CreateWalletAccount q e userID = run_timed q e (createWalletAccount userID)"

record GetWalletAccountForUpdateRow =
  gw_UserID :: u64
  gw_Currency :: WalletAccountsCurrency
  gw_AvailableBalance :: i64

definition getWalletAccountForUpdate :: "u64 \<Rightarrow> GetWalletAccountForUpdateRow sql" where
  "getWalletAccountForUpdate uid d =
     (case find (\<lambda>a. wa_UserID a = uid) (wallet_accounts d) of
       None \<Rightarrow> (Inl ErrNoRows, id)
     | Some a \<Rightarrow> (Inr \<lparr>gw_UserID = wa_UserID a, gw_Currency = wa_Currency a,
         gw_AvailableBalance = wa_AvailableBalance a\<rparr>, id))"

definition Queries_GetWalletAccountForUpdate :: "Queries \<Rightarrow> env \<Rightarrow> u64 \<Rightarrow> GetWalletAccountForUpdateRow stm" where
  "Queries_GetWalletAccountForUpdate q e userID = run_query q e (getWalletAccountForUpdate userID)"

record UpdateWalletBalanceParams =
  uw_AvailableBalance :: i64
  uw_UserID :: u64

definition Queries_UpdateWalletBalance :: "Queries \<Rightarrow> env \<Rightarrow> UpdateWalletBalanceParams \<Rightarrow> unit stm" where
  "Queries_UpdateWalletBalance q e arg =
     run_timed q e (\<lambda>t d. (Inr (), wallet_accounts_update (map (\<lambda>a.
       if wa_UserID a = uw_UserID arg \<and> wa_AvailableBalance a \<noteq> uw_AvailableBalance arg
       then a\<lparr>wa_AvailableBalance := uw_AvailableBalance arg, wa_UpdatedAt := t\<rparr> else a))))"

section \<open>Catalog, users, sessions and matches\<close>

record GetGiftCatalogItemRow =
  gg_GiftID :: string
  gg_DisplayName :: string
  gg_CoinPrice :: u32
  gg_MatchPoints :: u32
  gg_DiamondReward :: u32
  gg_Enabled :: bool

definition Queries_GetGiftCatalogItem :: "Queries \<Rightarrow> env \<Rightarrow> string \<Rightarrow> GetGiftCatalogItemRow stm" where
  "Queries_GetGiftCatalogItem q e giftID =
     run_query q e (\<lambda>d. case find (\<lambda>g. collate e (gc_GiftID g) = collate e giftID) (gift_catalog d) of
       None \<Rightarrow> (Inl ErrNoRows, id)
     | Some g \<Rightarrow> (Inr \<lparr>gg_GiftID = gc_GiftID g, gg_DisplayName = gc_DisplayName g,
         gg_CoinPrice = gc_CoinPrice g, gg_MatchPoints = gc_MatchPoints g,
         gg_DiamondReward = gc_DiamondReward g, gg_Enabled = gc_Enabled g\<rparr>, id))"

record GetUserRow =
  gu_UserID :: u64
  gu_AgeYears :: u8
  gu_RegionCode :: string
  gu_AccountStanding :: UsersAccountStanding
  gu_CanGoLive :: bool
  gu_LiveGiftsEnabled :: bool
  gu_AccountType :: UsersAccountType

definition Queries_GetUser :: "Queries \<Rightarrow> env \<Rightarrow> u64 \<Rightarrow> GetUserRow stm" where
  "Queries_GetUser q e userID =
     run_query q e (\<lambda>d. case find (\<lambda>u. us_UserID u = userID) (users d) of
       None \<Rightarrow> (Inl ErrNoRows, id)
     | Some u \<Rightarrow> (Inr \<lparr>gu_UserID = us_UserID u, gu_AgeYears = us_AgeYears u,
         gu_RegionCode = us_RegionCode u, gu_AccountStanding = us_AccountStanding u,
         gu_CanGoLive = us_CanGoLive u, gu_LiveGiftsEnabled = us_LiveGiftsEnabled u,
         gu_AccountType = us_AccountType u\<rparr>, id))"

definition Queries_GetLiveMatch :: "Queries \<Rightarrow> env \<Rightarrow> u64 \<Rightarrow> LiveMatch stm" where
  "Queries_GetLiveMatch q e matchID =
     run_query q e (\<lambda>d. case find (\<lambda>m. lm_MatchID m = matchID) (live_matches d) of
       None \<Rightarrow> (Inl ErrNoRows, id)
     | Some m \<Rightarrow> (Inr m, id))"

text \<open>The struct has the campaign as a \<open>sql.NullInt64\<close>; the record keeps the number.\<close>

definition Queries_GetLiveSession :: "Queries \<Rightarrow> env \<Rightarrow> u64 \<Rightarrow> LiveSession stm" where
  "Queries_GetLiveSession q e liveSessionID =
     run_query q e (\<lambda>d. case find (\<lambda>s. ls_LiveSessionID s = liveSessionID) (live_sessions d) of
       None \<Rightarrow> (Inl ErrNoRows, id)
     | Some s \<Rightarrow> (case scan_null_int64 (ls_CampaignID s) of Inl er \<Rightarrow> (Inl er, id) | Inr _ \<Rightarrow> (Inr s, id)))"

record MarkLiveSessionClosedParams =
  ml_ClosedAt :: "go_time option"
  ml_LiveSessionID :: u64

definition Queries_MarkLiveSessionClosed :: "Queries \<Rightarrow> env \<Rightarrow> MarkLiveSessionClosedParams \<Rightarrow> unit stm" where
  "Queries_MarkLiveSessionClosed q e arg =
     run_query q e (\<lambda>d.
       case null_time e (ml_ClosedAt arg) of
         None \<Rightarrow> (if list_ex (\<lambda>s. ls_LiveSessionID s = ml_LiveSessionID arg \<and> ls_Status s = SESSION_OPEN)
                       (live_sessions d)
                  then Inl (MySQLError mysql_bad_datetime) else Inr (), id)
       | Some t \<Rightarrow> (Inr (), live_sessions_update (map (\<lambda>s.
           if ls_LiveSessionID s = ml_LiveSessionID arg \<and> ls_Status s = SESSION_OPEN
           then s\<lparr>ls_Status := SESSION_CLOSED, ls_ClosedAt := t\<rparr> else s))))"

section \<open>Orders and recharges\<close>

record GetGiftOrderByRequestParams =
  gr_ViewerID :: u64
  gr_RequestID :: string

definition scan_gift_order :: "GiftOrder \<Rightarrow> go_error + GiftOrder" where
  "scan_gift_order g = (case scan_null_int64 (go_MatchID g) of Inl er \<Rightarrow> Inl er | Inr _ \<Rightarrow> Inr g)"

definition Queries_GetGiftOrderByRequest :: "Queries \<Rightarrow> env \<Rightarrow> GetGiftOrderByRequestParams \<Rightarrow> GiftOrder stm" where
  "Queries_GetGiftOrderByRequest q e arg =
     run_query q e (\<lambda>d. case find (\<lambda>g. go_ViewerID g = gr_ViewerID arg \<and>
           collate e (go_RequestID g) = collate e (gr_RequestID arg)) (gift_orders d) of
       None \<Rightarrow> (Inl ErrNoRows, id)
     | Some g \<Rightarrow> (scan_gift_order g, id))"

record InsertGiftOrderParams =
  ig_ViewerID :: u64
  ig_CreatorID :: u64
  ig_LiveSessionID :: u64
  ig_MatchID :: "i64 option"
  ig_GiftID :: string
  ig_Quantity :: u16
  ig_ChargedCoins :: u32
  ig_MatchPointsAdded :: u32
  ig_DiamondReward :: u32
  ig_PostBalance :: "i64 option"
  ig_Status :: string
  ig_RejectCode :: "string option"
  ig_RequestID :: string
  ig_BodyHash :: "byte list option"
  ig_CreatedAt :: go_time

definition order_refusals :: "env \<Rightarrow> InsertGiftOrderParams \<Rightarrow> (bool \<times> nat) list" where
  "order_refusals e arg =
     [(negative_null (ig_MatchID arg), mysql_out_of_range), (too_long 32 (ig_GiftID arg), mysql_too_long),
      (order_status e (ig_Status arg) = None, mysql_truncated),
      (null_too_long 64 (ig_RejectCode arg), mysql_too_long), (too_long 64 (ig_RequestID arg), mysql_too_long)] @
     hash_refusals (ig_BodyHash arg) @ time_refusals e (ig_CreatedAt arg)"

text \<open>
  The row as the columns have it; a value that \<open>order_refusals\<close> names never gets there, so that the
  defaults are not used.
\<close>

definition inserted_order :: "env \<Rightarrow> InsertGiftOrderParams \<Rightarrow> nat \<Rightarrow> GiftOrder" where
  "inserted_order e arg n =
     \<lparr>go_GiftOrderID = of_nat n, go_ViewerID = ig_ViewerID arg, go_CreatorID = ig_CreatorID arg,
      go_LiveSessionID = ig_LiveSessionID arg, go_MatchID = unsigned_null (ig_MatchID arg),
      go_GiftID = ig_GiftID arg, go_Quantity = ig_Quantity arg, go_ChargedCoins = ig_ChargedCoins arg,
      go_MatchPointsAdded = ig_MatchPointsAdded arg, go_DiamondReward = ig_DiamondReward arg,
      go_PostBalance = ig_PostBalance arg, go_Status = the_default ACCEPTED (order_status e (ig_Status arg)),
      go_RejectCode = ig_RejectCode arg, go_RequestID = ig_RequestID arg,
      go_BodyHash = binary32 (the_default [] (ig_BodyHash arg)),
      go_CreatedAt = the_default 0 (column_time e (ig_CreatedAt arg))\<rparr>"

definition insertGiftOrder :: "env \<Rightarrow> InsertGiftOrderParams \<Rightarrow> nat \<Rightarrow> sql_result sql" where
  "insertGiftOrder e arg n d =
     (if id_exhausted n then (Inl (MySQLError mysql_autoinc_failed), id)
      else case first_refusal (order_refusals e arg) of
        Some code \<Rightarrow> (Inl (MySQLError code), id)
      | None \<Rightarrow>
          if list_ex (\<lambda>g. go_ViewerID g = ig_ViewerID arg \<and>
                          collate e (go_RequestID g) = collate e (ig_RequestID arg)) (gift_orders d)
          then (Inl (MySQLError mysql_dup_entry), id)
          else (Inr \<lparr>LastInsertId = last_insert_id n, RowsAffected = 1\<rparr>,
                gift_orders_update (\<lambda>gs. gs @ [inserted_order e arg n])))"

definition Queries_InsertGiftOrder :: "Queries \<Rightarrow> env \<Rightarrow> InsertGiftOrderParams \<Rightarrow> sql_result stm" where
  "Queries_InsertGiftOrder q e arg =
     run_insert q e next_gift_order_id (next_gift_order_id_update Suc) (insertGiftOrder e arg)"

record GetRechargeRequestParams =
  gv_ViewerID :: u64
  gv_RequestID :: string

definition Queries_GetRechargeRequest :: "Queries \<Rightarrow> env \<Rightarrow> GetRechargeRequestParams \<Rightarrow> RechargeRow stm" where
  "Queries_GetRechargeRequest q e arg =
     run_query q e (\<lambda>d. case find (\<lambda>r. rr_ViewerID r = gv_ViewerID arg \<and>
           collate e (rr_RequestID r) = collate e (gv_RequestID arg)) (recharge_requests d) of
       None \<Rightarrow> (Inl ErrNoRows, id)
     | Some r \<Rightarrow> (Inr r, id))"

record InsertRechargeRequestParams =
  ir_ViewerID :: u64
  ir_RequestID :: string
  ir_BodyHash :: "byte list option"
  ir_Coins :: u32
  ir_PaymentRef :: string
  ir_ResultingBalance :: i64
  ir_TxID :: u64
  ir_CreatedAt :: go_time

definition recharge_refusals :: "env \<Rightarrow> InsertRechargeRequestParams \<Rightarrow> (bool \<times> nat) list" where
  "recharge_refusals e arg =
     [(too_long 64 (ir_RequestID arg), mysql_too_long)] @ hash_refusals (ir_BodyHash arg) @
     [(too_long 128 (ir_PaymentRef arg), mysql_too_long)] @ time_refusals e (ir_CreatedAt arg)"

definition inserted_recharge :: "env \<Rightarrow> InsertRechargeRequestParams \<Rightarrow> RechargeRow" where
  "inserted_recharge e arg =
     \<lparr>rr_ViewerID = ir_ViewerID arg, rr_RequestID = ir_RequestID arg,
      rr_BodyHash = binary32 (the_default [] (ir_BodyHash arg)), rr_Coins = ir_Coins arg,
      rr_PaymentRef = ir_PaymentRef arg, rr_ResultingBalance = ir_ResultingBalance arg,
      rr_TxID = ir_TxID arg, rr_CreatedAt = the_default 0 (column_time e (ir_CreatedAt arg))\<rparr>"

definition insertRechargeRequest :: "env \<Rightarrow> InsertRechargeRequestParams \<Rightarrow> unit sql" where
  "insertRechargeRequest e arg d =
     (case first_refusal (recharge_refusals e arg) of
       Some code \<Rightarrow> (Inl (MySQLError code), id)
     | None \<Rightarrow>
         if list_ex (\<lambda>r. rr_ViewerID r = ir_ViewerID arg \<and>
                         collate e (rr_RequestID r) = collate e (ir_RequestID arg)) (recharge_requests d)
           then (Inl (MySQLError mysql_dup_entry), id)
         else if \<not> list_ex (\<lambda>w. wt_TxID w = ir_TxID arg) (wallet_transactions d) \<or>
                 \<not> user_exists (ir_ViewerID arg) d
           then (Inl (MySQLError mysql_no_parent), id)
         else (Inr (), recharge_requests_update (\<lambda>rs. rs @ [inserted_recharge e arg])))"

definition Queries_InsertRechargeRequest :: "Queries \<Rightarrow> env \<Rightarrow> InsertRechargeRequestParams \<Rightarrow> unit stm" where
  "Queries_InsertRechargeRequest q e arg = run_query q e (insertRechargeRequest e arg)"

section \<open>The ledger\<close>

record InsertWalletEntryParams =
  iw_TxID :: u64
  iw_AccountCode :: string
  iw_Amount :: i64

definition Queries_InsertWalletEntry :: "Queries \<Rightarrow> env \<Rightarrow> InsertWalletEntryParams \<Rightarrow> unit stm" where
  "Queries_InsertWalletEntry q e arg =
     run_query q e (\<lambda>d.
       if too_long 64 (iw_AccountCode arg) then (Inl (MySQLError mysql_too_long), id)
       else if list_ex (\<lambda>w. we_TxID w = iw_TxID arg \<and>
                            collate e (we_AccountCode w) = collate e (iw_AccountCode arg)) (wallet_entries d)
         then (Inl (MySQLError mysql_dup_entry), id)
       else if \<not> list_ex (\<lambda>w. wt_TxID w = iw_TxID arg) (wallet_transactions d)
         then (Inl (MySQLError mysql_no_parent), id)
       else (Inr (), wallet_entries_update (\<lambda>ws. ws @
         [\<lparr>we_TxID = iw_TxID arg, we_AccountCode = iw_AccountCode arg, we_Amount = iw_Amount arg\<rparr>])))"

record InsertWalletTransactionParams =
  it_TxType :: string
  it_ActorUserID :: u64
  it_RequestID :: string
  it_BodyHash :: "byte list option"
  it_CreatedAt :: go_time

definition tx_refusals :: "env \<Rightarrow> InsertWalletTransactionParams \<Rightarrow> (bool \<times> nat) list" where
  "tx_refusals e arg =
     [(tx_type e (it_TxType arg) = None, mysql_truncated), (too_long 64 (it_RequestID arg), mysql_too_long),
      (32 < length (the_default [] (it_BodyHash arg)), mysql_too_long)] @ time_refusals e (it_CreatedAt arg)"

definition inserted_tx :: "env \<Rightarrow> InsertWalletTransactionParams \<Rightarrow> nat \<Rightarrow> WalletTransaction" where
  "inserted_tx e arg n =
     \<lparr>wt_TxID = of_nat n, wt_TxType = the_default RECHARGE (tx_type e (it_TxType arg)),
      wt_ActorUserID = it_ActorUserID arg, wt_RequestID = it_RequestID arg,
      wt_BodyHash = map_option binary32 (it_BodyHash arg),
      wt_CreatedAt = the_default 0 (column_time e (it_CreatedAt arg))\<rparr>"

definition insertWalletTransaction :: "env \<Rightarrow> InsertWalletTransactionParams \<Rightarrow> nat \<Rightarrow> sql_result sql" where
  "insertWalletTransaction e arg n d =
     (if id_exhausted n then (Inl (MySQLError mysql_autoinc_failed), id)
      else case first_refusal (tx_refusals e arg) of
        Some code \<Rightarrow> (Inl (MySQLError code), id)
      | None \<Rightarrow>
          if list_ex (\<lambda>w. wt_ActorUserID w = it_ActorUserID arg \<and> wt_TxType w = wt_TxType (inserted_tx e arg n) \<and>
                          collate e (wt_RequestID w) = collate e (it_RequestID arg)) (wallet_transactions d)
            then (Inl (MySQLError mysql_dup_entry), id)
          else if \<not> user_exists (it_ActorUserID arg) d then (Inl (MySQLError mysql_no_parent), id)
          else (Inr \<lparr>LastInsertId = last_insert_id n, RowsAffected = 1\<rparr>,
                wallet_transactions_update (\<lambda>ws. ws @ [inserted_tx e arg n])))"

definition Queries_InsertWalletTransaction ::
  "Queries \<Rightarrow> env \<Rightarrow> InsertWalletTransactionParams \<Rightarrow> sql_result stm" where
  "Queries_InsertWalletTransaction q e arg =
     run_insert q e next_tx_id (next_tx_id_update Suc) (insertWalletTransaction e arg)"

section \<open>The outbox\<close>

record InsertOutboxEventParams =
  io_Topic :: string
  io_EventKey :: string
  io_PayloadJson :: RawMessage
  io_CreatedAt :: go_time

definition event_refusals :: "env \<Rightarrow> InsertOutboxEventParams \<Rightarrow> (bool \<times> nat) list" where
  "event_refusals e arg =
     [(too_long 128 (io_Topic arg), mysql_too_long), (too_long 128 (io_EventKey arg), mysql_too_long)] @
     message_refusals (io_PayloadJson arg) @ time_refusals e (io_CreatedAt arg)"

definition insertOutboxEvent :: "env \<Rightarrow> InsertOutboxEventParams \<Rightarrow> nat \<Rightarrow> sql_result sql" where
  "insertOutboxEvent e arg n d =
     (if id_exhausted n then (Inl (MySQLError mysql_autoinc_failed), id)
      else case first_refusal (event_refusals e arg) of
        Some code \<Rightarrow> (Inl (MySQLError code), id)
      | None \<Rightarrow> (Inr \<lparr>LastInsertId = last_insert_id n, RowsAffected = 1\<rparr>,
          outbox_events_update (\<lambda>os. os @
            [\<lparr>oe_EventID = of_nat n, oe_Topic = io_Topic arg, oe_EventKey = io_EventKey arg,
              oe_PayloadJson = message_json (io_PayloadJson arg), oe_PublishedAt = None,
              oe_CreatedAt = the_default 0 (column_time e (io_CreatedAt arg))\<rparr>])))"

definition Queries_InsertOutboxEvent :: "Queries \<Rightarrow> env \<Rightarrow> InsertOutboxEventParams \<Rightarrow> sql_result stm" where
  "Queries_InsertOutboxEvent q e arg =
     run_insert q e next_event_id (next_event_id_update Suc) (insertOutboxEvent e arg)"

record MarkOutboxPublishedParams =
  mo_PublishedAt :: "go_time option"
  mo_EventID :: u64

definition Queries_MarkOutboxPublished :: "Queries \<Rightarrow> env \<Rightarrow> MarkOutboxPublishedParams \<Rightarrow> unit stm" where
  "Queries_MarkOutboxPublished q e arg =
     run_query q e (\<lambda>d.
       case null_time e (mo_PublishedAt arg) of
         None \<Rightarrow> (if list_ex (\<lambda>x. oe_EventID x = mo_EventID arg) (outbox_events d)
                  then Inl (MySQLError mysql_bad_datetime) else Inr (), id)
       | Some t \<Rightarrow> (Inr (), outbox_events_update (map (\<lambda>x.
           if oe_EventID x = mo_EventID arg then x\<lparr>oe_PublishedAt := t\<rparr> else x))))"

record SelectOutboxBatchForPublishRow =
  sb_EventID :: u64
  sb_Topic :: string
  sb_EventKey :: string
  sb_PayloadJson :: string
  sb_CreatedAt :: micros

text \<open>The rows that other transactions hold are those of the broker's record; the limit is not negative.\<close>

definition Queries_SelectOutboxBatchForPublish ::
  "Queries \<Rightarrow> env \<Rightarrow> broker \<Rightarrow> nat \<Rightarrow> SelectOutboxBatchForPublishRow list stm" where
  "Queries_SelectOutboxBatchForPublish q e b limit =
     run_query q e (\<lambda>d. (Inr (map (\<lambda>x.
         \<lparr>sb_EventID = oe_EventID x, sb_Topic = oe_Topic x, sb_EventKey = oe_EventKey x,
          sb_PayloadJson = cast_char e (oe_PayloadJson x), sb_CreatedAt = oe_CreatedAt x\<rparr>)
       (take limit (sort_key oe_CreatedAt
         (filter (\<lambda>x. oe_PublishedAt x = None \<and> \<not> locked b (oe_EventID x)) (outbox_events d))))), id))"

section \<open>Settlements\<close>

record UpsertSettlementParams =
  up_LiveSessionID :: u64
  up_GrossCoinSpend :: i64
  up_AcceptedGiftCount :: i64
  up_DiamondRewardTotal :: i64
  up_GeneratedAt :: go_time

definition Queries_UpsertSettlement :: "Queries \<Rightarrow> env \<Rightarrow> UpsertSettlementParams \<Rightarrow> unit stm" where
  "Queries_UpsertSettlement q e arg =
     run_query q e (\<lambda>d.
       case first_refusal (time_refusals e (up_GeneratedAt arg)) of
         Some code \<Rightarrow> (Inl (MySQLError code), id)
       | None \<Rightarrow>
           if \<not> session_exists (up_LiveSessionID arg) d then (Inl (MySQLError mysql_no_parent), id)
           else (Inr (), stream_settlements_update (put ss_LiveSessionID
             \<lparr>ss_LiveSessionID = up_LiveSessionID arg, ss_GrossCoinSpend = up_GrossCoinSpend arg,
              ss_AcceptedGiftCount = up_AcceptedGiftCount arg,
              ss_DiamondRewardTotal = up_DiamondRewardTotal arg,
              ss_GeneratedAt = the_default 0 (column_time e (up_GeneratedAt arg))\<rparr>)))"

record UpsertReconciliationParams =
  ur_LiveSessionID :: u64
  ur_Status :: string
  ur_WalletGiftDebitTotal :: i64
  ur_GiftOrderCoinTotal :: i64
  ur_MismatchCount :: "32 word"
  ur_DetailsJson :: RawMessage
  ur_GeneratedAt :: go_time

definition reconciliation_refusals :: "env \<Rightarrow> UpsertReconciliationParams \<Rightarrow> (bool \<times> nat) list" where
  "reconciliation_refusals e arg =
     [(reconciliation_status e (ur_Status arg) = None, mysql_truncated)] @
     message_refusals (ur_DetailsJson arg) @ time_refusals e (ur_GeneratedAt arg)"

definition Queries_UpsertReconciliation :: "Queries \<Rightarrow> env \<Rightarrow> UpsertReconciliationParams \<Rightarrow> unit stm" where
  "Queries_UpsertReconciliation q e arg =
     run_query q e (\<lambda>d.
       case first_refusal (reconciliation_refusals e arg) of
         Some code \<Rightarrow> (Inl (MySQLError code), id)
       | None \<Rightarrow>
           if \<not> session_exists (ur_LiveSessionID arg) d then (Inl (MySQLError mysql_no_parent), id)
           else (Inr (), reconciliation_results_update (put rc_LiveSessionID
             \<lparr>rc_LiveSessionID = ur_LiveSessionID arg,
              rc_Status = the_default PASS (reconciliation_status e (ur_Status arg)),
              rc_WalletGiftDebitTotal = ur_WalletGiftDebitTotal arg,
              rc_GiftOrderCoinTotal = ur_GiftOrderCoinTotal arg,
              rc_MismatchCount = sint (ur_MismatchCount arg), rc_DetailsJson = message_json (ur_DetailsJson arg),
              rc_GeneratedAt = the_default 0 (column_time e (ur_GeneratedAt arg))\<rparr>)))"

section \<open>Running a method\<close>

text \<open>On a connection without uncommitted writes, the pool and a fresh transaction see the same.\<close>

lemma run_query_calm:
  assumes "calm e" and "own c = id" and "st (cdb c) = (r, w)"
  shows "\<exists>c1. run_query q e st c = (r, c1) \<and> view c1 = w (cdb c)"
  using assms
  by (cases "q_db q") (simp_all add: run_query_def exec_def auto_exec_def auto_exec_alloc_def exec_alloc_def
      arrive_def calm_def view_def Let_def)

lemma run_query_view:
  assumes "calm e"
  shows "fst (run_query q e st c) = fst (st (view c))"
  using assms
  by (cases "q_db q") (simp_all add: run_query_def exec_def auto_exec_def auto_exec_alloc_def exec_alloc_def
      arrive_def calm_def view_def Let_def split: prod.splits)

lemma run_insert_calm:
  assumes "calm e" and "own c = id" and "st (ctr (cdb c)) (cdb c) = (r, w)"
  shows "\<exists>c1. run_insert q e ctr bump st c = (r, c1) \<and> view c1 = w (bump (cdb c))"
  using assms
  by (cases "q_db q") (simp_all add: run_insert_def auto_exec_alloc_def exec_alloc_def arrive_def calm_def
      view_def Let_def)

lemma run_timed_calm:
  assumes "calm e" and "own c = id" and "st (now e (calls c)) (cdb c) = (r, w)"
  shows "\<exists>c1. run_timed q e st c = (r, c1) \<and> view c1 = w (cdb c)"
  using assms
  by (cases "q_db q") (simp_all add: run_timed_def exec_def auto_exec_def auto_exec_alloc_def exec_alloc_def
      arrive_def calm_def view_def Let_def)

section \<open>What was inserted is found\<close>

lemma find_new: "\<lbrakk>\<not> list_ex P xs; P y\<rbrakk> \<Longrightarrow> find P (xs @ [y]) = Some y"
  by (induction xs) auto

text \<open>A \<open>sql.NullInt64\<close> that the column takes is scanned back as it was.\<close>

lemma unsigned_null_uint:
  assumes "\<not> negative_null v" and "case v of None \<Rightarrow> True | Some x \<Rightarrow> in_i64 x"
  shows "map_option uint (unsigned_null v) = v"
  using assms
  by (cases v) (simp_all add: negative_null_def in_i64_def unsigned_null_def unsigned_of_int take_bit_int_eq_self)

lemma unsigned_null_scan:
  assumes "\<not> negative_null v" and "case v of None \<Rightarrow> True | Some x \<Rightarrow> in_i64 x"
  shows "scan_null_int64 (unsigned_null v) = Inr v"
  using unsigned_null_uint [OF assms] assms(2)
  by (cases v) (auto simp: unsigned_null_def scan_null_int64_def scan_int64_def)

text \<open>
  An order that was inserted is found, as the columns keep it: the time to the microsecond, the
  status the member that its text stands for, the hash filled up.
\<close>

lemma gift_order_found:
  assumes c: "calm e" "own c = id" and run: "Queries_InsertGiftOrder q e arg c = (Inr res, c1)"
    and m: "case ig_MatchID arg of None \<Rightarrow> True | Some x \<Rightarrow> in_i64 x"
  defines "row \<equiv> inserted_order e arg (next_gift_order_id (cdb c))"
  shows "LastInsertId res = last_insert_id (next_gift_order_id (cdb c)) \<and>
    fst (Queries_GetGiftOrderByRequest q' e \<lparr>gr_ViewerID = ig_ViewerID arg, gr_RequestID = ig_RequestID arg\<rparr> c1) = Inr row \<and>
    map_option uint (go_MatchID row) = ig_MatchID arg \<and> Some (go_Status row) = order_status e (ig_Status arg) \<and>
    Some (go_CreatedAt row) = column_time e (ig_CreatedAt arg)"
proof -
  let ?n = "next_gift_order_id (cdb c)"
  obtain r w where st: "insertGiftOrder e arg ?n (cdb c) = (r, w)" by force
  have "r = Inr res \<and> view c1 = w (next_gift_order_id_update Suc (cdb c))"
    using run_insert_calm [where st = "insertGiftOrder e arg" and ctr = next_gift_order_id
        and bump = "next_gift_order_id_update Suc" and q = q, OF c st] run
    by (auto simp: Queries_InsertGiftOrder_def)
  with st have ok: "first_refusal (order_refusals e arg) = None" "LastInsertId res = last_insert_id ?n"
    "\<not> list_ex (\<lambda>g. go_ViewerID g = ig_ViewerID arg \<and>
        collate e (go_RequestID g) = collate e (ig_RequestID arg)) (gift_orders (cdb c))"
    "gift_orders (view c1) = gift_orders (cdb c) @ [row]"
    by (auto simp: insertGiftOrder_def row_def split: if_splits option.splits)
  from ok(1) have taken: "\<not> negative_null (ig_MatchID arg)" "order_status e (ig_Status arg) \<noteq> None"
    "column_time e (ig_CreatedAt arg) \<noteq> None"
    by (auto simp: order_refusals_def hash_refusals_def time_refusals_def split: if_splits)
  have "find (\<lambda>g. go_ViewerID g = ig_ViewerID arg \<and> collate e (go_RequestID g) = collate e (ig_RequestID arg))
      (gift_orders (view c1)) = Some row"
    unfolding ok(4) by (rule find_new [OF ok(3)]) (simp add: row_def inserted_order_def)
  moreover have "scan_gift_order row = Inr row"
    using unsigned_null_scan [OF taken(1) m] by (simp add: scan_gift_order_def row_def inserted_order_def)
  ultimately show ?thesis
    using ok(2) taken(2,3) unsigned_null_uint [OF taken(1) m]
    by (auto simp: Queries_GetGiftOrderByRequest_def run_query_view [OF c(1)] row_def inserted_order_def)
qed

lemma recharge_found:
  assumes c: "calm e" "own c = id" and run: "Queries_InsertRechargeRequest q e arg c = (Inr (), c1)"
  shows "fst (Queries_GetRechargeRequest q' e \<lparr>gv_ViewerID = ir_ViewerID arg, gv_RequestID = ir_RequestID arg\<rparr> c1) =
    Inr (inserted_recharge e arg)"
proof -
  obtain r w where st: "insertRechargeRequest e arg (cdb c) = (r, w)" by force
  have "r = Inr () \<and> view c1 = w (cdb c)"
    using run_query_calm [where st = "insertRechargeRequest e arg" and q = q, OF c st] run
    by (auto simp: Queries_InsertRechargeRequest_def)
  with st have ok: "\<not> list_ex (\<lambda>r. rr_ViewerID r = ir_ViewerID arg \<and>
        collate e (rr_RequestID r) = collate e (ir_RequestID arg)) (recharge_requests (cdb c))"
    "recharge_requests (view c1) = recharge_requests (cdb c) @ [inserted_recharge e arg]"
    by (auto simp: insertRechargeRequest_def split: if_splits option.splits)
  have "find (\<lambda>r. rr_ViewerID r = ir_ViewerID arg \<and> collate e (rr_RequestID r) = collate e (ir_RequestID arg))
      (recharge_requests (view c1)) = Some (inserted_recharge e arg)"
    unfolding ok(2) by (rule find_new [OF ok(1)]) (simp add: inserted_recharge_def)
  then show ?thesis by (simp add: Queries_GetRechargeRequest_def run_query_view [OF c(1)])
qed

text \<open>
  \<open>CreateWalletAccount\<close> is a plain insert: unlike the upsert of the services it refuses an account
  that exists.
\<close>

lemma create_account_again:
  assumes "calm e" "own c = id" "list_ex (\<lambda>a. wa_UserID a = uid) (wallet_accounts (cdb c))"
  shows "fst (Queries_CreateWalletAccount q e uid c) = Inl (MySQLError mysql_dup_entry)"
  using run_timed_calm [where st = "createWalletAccount uid" and q = q, OF assms(1,2)] assms(3)
  by (fastforce simp: Queries_CreateWalletAccount_def createWalletAccount_def)

section \<open>The generated statements and those written by hand\<close>

text \<open>
  What a service sends by hand, as the parameters of the generated method: the row, with the time \<open>T\<close>
  of the call.
\<close>

definition order_params :: "GiftOrder \<Rightarrow> u32 \<Rightarrow> u32 \<Rightarrow> u32 \<Rightarrow> go_time \<Rightarrow> InsertGiftOrderParams" where
  "order_params row charged points diamonds T =
     \<lparr>ig_ViewerID = go_ViewerID row, ig_CreatorID = go_CreatorID row, ig_LiveSessionID = go_LiveSessionID row,
      ig_MatchID = map_option uint (go_MatchID row), ig_GiftID = go_GiftID row, ig_Quantity = go_Quantity row,
      ig_ChargedCoins = charged, ig_MatchPointsAdded = points, ig_DiamondReward = diamonds,
      ig_PostBalance = go_PostBalance row, ig_Status = GiftOrdersStatus_text (go_Status row),
      ig_RejectCode = go_RejectCode row, ig_RequestID = go_RequestID row,
      ig_BodyHash = Some (go_BodyHash row), ig_CreatedAt = T\<rparr>"

definition recharge_params :: "RechargeRow \<Rightarrow> go_time \<Rightarrow> InsertRechargeRequestParams" where
  "recharge_params row T =
     \<lparr>ir_ViewerID = rr_ViewerID row, ir_RequestID = rr_RequestID row, ir_BodyHash = Some (rr_BodyHash row),
      ir_Coins = rr_Coins row, ir_PaymentRef = rr_PaymentRef row,
      ir_ResultingBalance = rr_ResultingBalance row, ir_TxID = rr_TxID row, ir_CreatedAt = T\<rparr>"

text \<open>The identifier of a \<open>sql.Result\<close>, and the fact that there was one.\<close>

definition inserted_id :: "(go_error + sql_result) \<times> conn \<Rightarrow> (go_error + i64) \<times> conn" where
  "inserted_id = map_prod (map_sum id LastInsertId) id"

definition no_result :: "(go_error + 'a) \<times> conn \<Rightarrow> (go_error + unit) \<times> conn" where
  "no_result = map_prod (map_sum id (\<lambda>_. ())) id"

lemma enum_texts_value:
  assumes "enum_texts e" and "distinct (map txt members)" and "i < length members"
  shows "enum_value e txt members (txt (members ! i)) = Some (members ! i)"
proof -
  have "enum_member e (map txt members) (map txt members ! i) = Some i"
    using assms unfolding enum_texts_def by (metis length_map)
  with assms(3) show ?thesis by (simp add: enum_value_def)
qed

lemma enum_texts_columns [simp]:
  assumes "enum_texts e"
  shows "order_status e (GiftOrdersStatus_text s) = Some s"
    and "tx_type e (WalletTransactionsTxType_text ty) = Some ty"
    and "reconciliation_status e (ReconciliationResultsStatus_text st) = Some st"
  using enum_texts_value [OF assms, of GiftOrdersStatus_text "[ACCEPTED, REJECTED]" 0]
    enum_texts_value [OF assms, of GiftOrdersStatus_text "[ACCEPTED, REJECTED]" 1]
    enum_texts_value [OF assms, of WalletTransactionsTxType_text "[RECHARGE, GIFT_DEBIT]" 0]
    enum_texts_value [OF assms, of WalletTransactionsTxType_text "[RECHARGE, GIFT_DEBIT]" 1]
    enum_texts_value [OF assms, of ReconciliationResultsStatus_text "[PASS, FAIL]" 0]
    enum_texts_value [OF assms, of ReconciliationResultsStatus_text "[PASS, FAIL]" 1]
  by (cases s; cases ty; cases st; simp add: order_status_def tx_type_def reconciliation_status_def)+

text \<open>
  Statements that do the same to the database a transaction sees give the same run, whatever fails
  and whatever other transactions do.
\<close>

lemma same_insert:
  assumes "\<And>n d. map_prod (map_sum id f) id (st n d) = st' n (now e (calls c)) d"
  shows "map_prod (map_sum id f) id (run_insert (WithTx q) e ctr bump st c) = exec_alloc e ctr bump st' c"
proof -
  have "map_sum id f (fst (st n d)) = fst (st' n (now e (calls c)) d)" "snd (st n d) = snd (st' n (now e (calls c)) d)"
    for n d unfolding assms [of n d, symmetric] by simp_all
  then show ?thesis
    by (simp add: run_insert_def WithTx_def exec_alloc_def Let_def case_prod_beta split: option.split fault.split)
qed

lemma same_query:
  assumes "\<And>d. map_prod (map_sum id f) id (st d) = st' (now e (calls c)) d"
  shows "map_prod (map_sum id f) id (run_query (WithTx q) e st c) = exec e st' c"
  using same_insert [of f "\<lambda>_. st" "\<lambda>_. st'" e c q "\<lambda>_. 0" id] assms
  by (simp add: run_insert_def run_query_def WithTx_def exec_def)

lemmas refusals = order_refusals_def recharge_refusals_def tx_refusals_def event_refusals_def
  reconciliation_refusals_def hash_refusals_def time_refusals_def message_refusals_def

lemma binary32_full [simp]: "length h = 32 \<Longrightarrow> binary32 h = h"
  by (simp add: binary32_def)

lemma unsigned_null_of_uint [simp]: "unsigned_null (map_option uint m) = m" "\<not> negative_null (map_option uint m)"
  by (cases m; simp add: unsigned_null_def negative_null_def)+

lemma words_in_range: "\<not> (\<exists>x \<in> {uint (a :: u32), uint (b :: u32), uint (c :: u32)}. x < 0 \<or> 2 ^ 32 \<le> x)"
  using uint_lt2p [of a] uint_lt2p [of b] uint_lt2p [of c] by auto

lemma order_as_service:
  assumes e: "enum_texts e" and T: "column_time e T = Some (now e (calls c))" and h: "length (go_BodyHash row) = 32"
  shows "inserted_id (Queries_InsertGiftOrder (WithTx q) e (order_params row charged points diamonds T) c) =
    exec_order_insert e (InsertGiftOrder (collate e) row (uint charged) (uint points) (uint diamonds)) c"
  unfolding inserted_id_def Queries_InsertGiftOrder_def exec_order_insert_def
proof (rule same_insert)
  fix n d
  have row: "inserted_order e (order_params row charged points diamonds T) n =
      row\<lparr>go_GiftOrderID := of_nat n, go_ChargedCoins := of_int (uint charged),
        go_MatchPointsAdded := of_int (uint points), go_DiamondReward := of_int (uint diamonds),
        go_CreatedAt := now e (calls c)\<rparr>"
    using e T h by (simp add: inserted_order_def order_params_def)
  have long: "null_too_long k rc = (case rc of None \<Rightarrow> False | Some x \<Rightarrow> too_long k x)" for k rc
    by (simp add: null_too_long_def)
  have "\<not> list_ex (\<lambda>x. x < 0 \<or> 2 ^ 32 \<le> x) [uint charged, uint points, uint diamonds]"
    using words_in_range [of charged points diamonds] by simp
  with e T h show "map_prod (map_sum id LastInsertId) id
      (insertGiftOrder e (order_params row charged points diamonds T) n d) =
    InsertGiftOrder (collate e) row (uint charged) (uint points) (uint diamonds) n (now e (calls c)) d"
    unfolding insertGiftOrder_def row by (simp add: InsertGiftOrder_def refusals order_params_def long)
qed

lemma recharge_as_service:
  assumes T: "column_time e T = Some (now e (calls c))" and h: "length (rr_BodyHash row) = 32"
  shows "no_result (Queries_InsertRechargeRequest (WithTx q) e (recharge_params row T) c) =
    exec e (InsertRechargeRequest (collate e) row) c"
  unfolding no_result_def Queries_InsertRechargeRequest_def
proof (rule same_query)
  fix d
  have "inserted_recharge e (recharge_params row T) = row\<lparr>rr_CreatedAt := now e (calls c)\<rparr>"
    using T h by (simp add: inserted_recharge_def recharge_params_def)
  with T h show "map_prod (map_sum id (\<lambda>_. ())) id (insertRechargeRequest e (recharge_params row T) d) =
    InsertRechargeRequest (collate e) row (now e (calls c)) d"
    by (simp add: insertRechargeRequest_def InsertRechargeRequest_def refusals recharge_params_def)
qed

lemma tx_as_service:
  assumes e: "enum_texts e" and T: "column_time e T = Some (now e (calls c))" and h: "length h = 32"
  shows "inserted_id (Queries_InsertWalletTransaction (WithTx q) e
      \<lparr>it_TxType = WalletTransactionsTxType_text ty, it_ActorUserID = actor, it_RequestID = rid,
       it_BodyHash = Some h, it_CreatedAt = T\<rparr> c) =
    exec_tx_insert e (InsertWalletTransaction (collate e) ty actor rid h) c"
  unfolding inserted_id_def Queries_InsertWalletTransaction_def exec_tx_insert_def
  by (rule same_insert) (use assms in \<open>simp add: insertWalletTransaction_def InsertWalletTransaction_def refusals inserted_tx_def\<close>)

lemma event_as_service:
  assumes T: "column_time e T = Some (now e (calls c))"
  shows "no_result (Queries_InsertOutboxEvent (WithTx q) e
      \<lparr>io_Topic = topic, io_EventKey = key, io_PayloadJson = JsonText v, io_CreatedAt = T\<rparr> c) =
    exec_outbox_insert e (InsertOutboxEvent topic key v) c"
  unfolding no_result_def Queries_InsertOutboxEvent_def exec_outbox_insert_def
  by (rule same_insert) (use T in \<open>simp add: insertOutboxEvent_def InsertOutboxEvent_def refusals\<close>)

lemma settlement_as_service:
  assumes T: "column_time e T = Some (now e (calls c))"
  shows "no_result (Queries_UpsertSettlement (WithTx q) e
      \<lparr>up_LiveSessionID = sid, up_GrossCoinSpend = gross, up_AcceptedGiftCount = k,
       up_DiamondRewardTotal = diamonds, up_GeneratedAt = T\<rparr> c) =
    exec e (UpsertSettlement sid gross k diamonds) c"
  unfolding no_result_def Queries_UpsertSettlement_def
  by (rule same_query) (use T in \<open>simp add: UpsertSettlement_def refusals\<close>)

lemma reconciliation_as_service:
  assumes e: "enum_texts e" and T: "column_time e T = Some (now e (calls c))"
  shows "no_result (Queries_UpsertReconciliation (WithTx q) e
      \<lparr>ur_LiveSessionID = sid, ur_Status = ReconciliationResultsStatus_text st, ur_WalletGiftDebitTotal = debits,
       ur_GiftOrderCoinTotal = coins, ur_MismatchCount = mis, ur_DetailsJson = JsonText v, ur_GeneratedAt = T\<rparr> c) =
    exec e (UpsertReconciliation sid st debits coins (sint mis) v) c"
  unfolding no_result_def Queries_UpsertReconciliation_def
  by (rule same_query) (use assms in \<open>simp add: UpsertReconciliation_def refusals\<close>)

lemma close_as_service:
  assumes T: "column_time e T = Some (now e (calls c))"
  shows "no_result (Queries_MarkLiveSessionClosed (WithTx q) e \<lparr>ml_ClosedAt = Some T, ml_LiveSessionID = sid\<rparr> c) =
    no_result (exec e (CloseSessionRow sid) c)"
proof -
  have "exec e (\<lambda>t d. map_prod (map_sum id (\<lambda>_. ())) id (CloseSessionRow sid t d)) c = no_result (exec e (CloseSessionRow sid) c)"
    by (simp add: exec_def exec_alloc_def no_result_def Let_def case_prod_beta split: option.split fault.split)
  moreover have "no_result (Queries_MarkLiveSessionClosed (WithTx q) e \<lparr>ml_ClosedAt = Some T, ml_LiveSessionID = sid\<rparr> c) =
      exec e (\<lambda>t d. map_prod (map_sum id (\<lambda>_. ())) id (CloseSessionRow sid t d)) c"
    unfolding no_result_def Queries_MarkLiveSessionClosed_def
    by (rule same_query) (use T in \<open>simp add: CloseSessionRow_def null_time_def close_rows_def [abs_def] closes_def\<close>)
  ultimately show ?thesis by simp
qed

lemma mark_as_service:
  assumes "column_time e T = Some t"
  shows "Queries_MarkOutboxPublished (WithTx q) e \<lparr>mo_PublishedAt = Some T, mo_EventID = eid\<rparr> = exec e (MarkPublished t eid)"
  using assms
  by (simp add: Queries_MarkOutboxPublished_def WithTx_def run_query_def MarkPublished_def [abs_def] mark_def
      null_time_def cong: if_cong)

lemma queries_as_services:
  "Queries_UpdateWalletBalance (WithTx q) e \<lparr>uw_AvailableBalance = bal, uw_UserID = uid\<rparr> = exec e (UpdateWalletBalance bal uid)"
  "Queries_GetLiveMatch (WithTx q) e mid = exec e (GetLiveMatch mid)"
  "Queries_InsertWalletEntry (WithTx q) e \<lparr>iw_TxID = txid, iw_AccountCode = code, iw_Amount = amount\<rparr> =
     exec e (InsertWalletEntry (collate e) txid code amount)"
  by (simp_all add: Queries_UpdateWalletBalance_def Queries_GetLiveMatch_def Queries_InsertWalletEntry_def
      WithTx_def run_timed_def run_query_def UpdateWalletBalance_def [abs_def]
      set_balance_def [abs_def] GetLiveMatch_def [abs_def] InsertWalletEntry_def [abs_def] cong: if_cong)

end
