(* ===== verification/Interleave.thy ===== *)
theory Interleave
  imports System
begin

text \<open>
  Requests that run at the same time. Between any two calls of a request other transactions may
  commit; what they may do to the ledger is a relation on databases, \<open>coexists\<close>, and the requests
  are shown to do to it, seen from the outside, nothing else: a rely that is also the guarantee.
  The relation is that of a single commit, so it does not matter how the calls of two requests
  interleave before it. The transactions run at READ COMMITTED, which the code asks for. Two
  things are used of the server: after \<open>SELECT ... FOR UPDATE\<close> on a wallet account nobody else
  writes that account or posts on it, and an AUTO_INCREMENT value is handed out once.
\<close>

section \<open>Rely and guarantee\<close>

definition coexists :: "(string \<Rightarrow> string) \<Rightarrow> db \<Rightarrow> db \<Rightarrow> bool" where
  "coexists coll d d' \<longleftrightarrow>
     ledger_inv coll d' \<and> next_tx_id d \<le> next_tx_id d' \<and>
     set (wallet_transactions d) \<subseteq> set (wallet_transactions d') \<and>
     set (accepted d) \<subseteq> set (accepted d') \<and> (\<forall>u. unposted u d' = unposted u d)"

definition interference :: "(string \<Rightarrow> string) \<Rightarrow> env \<Rightarrow> bool" where
  "interference coll e \<longleftrightarrow>
     collate e = coll \<and> (\<forall>n d. ledger_inv coll d \<longrightarrow> coexists coll d (others e n d))"

text \<open>From the k-th call on, nobody else writes the account of the user or posts on it.\<close>

definition holds_account :: "env \<Rightarrow> u64 \<Rightarrow> nat \<Rightarrow> bool" where
  "holds_account e v k \<longleftrightarrow>
     (\<forall>n \<ge> k. \<forall>d.
        find (\<lambda>a. wa_UserID a = v) (wallet_accounts (others e n d)) =
          find (\<lambda>a. wa_UserID a = v) (wallet_accounts d) \<and>
        filter (\<lambda>w. wt_ActorUserID w = v) (wallet_transactions (others e n d)) =
          filter (\<lambda>w. wt_ActorUserID w = v) (wallet_transactions d))"

text \<open>
  An identifier is handed out once: when the k-th call draws it, no later commit of the others
  brings it. Until then the request has committed nothing, so what the call meets is what the
  others left.
\<close>

definition before :: "env \<Rightarrow> nat \<Rightarrow> db \<Rightarrow> db" where
  "before e n d = fold (others e) [0..<n] d"

definition spares_id :: "env \<Rightarrow> nat \<Rightarrow> nat \<Rightarrow> bool" where
  "spares_id e k m \<longleftrightarrow>
     (\<forall>n > k. \<forall>d. \<forall>w \<in> set (wallet_transactions (others e n d)).
        w \<in> set (wallet_transactions d) \<or> wt_TxID w \<noteq> of_nat m)"

text \<open>What the server keeps for a request whose k-th call is the first under the account's lock.\<close>

definition served_alone :: "env \<Rightarrow> u64 \<Rightarrow> nat \<Rightarrow> db \<Rightarrow> bool" where
  "served_alone e v k d \<longleftrightarrow>
     holds_account e v k \<and> spares_id e k (next_tx_id (before e (Suc k) d))"

lemma before_simps [simp]: "before e 0 d = d" "before e (Suc n) d = others e n (before e n d)"
  by (simp_all add: before_def)

lemma before_1: "before e 1 d = others e 0 d"
  using before_simps(2) [of e 0 d] by simp

lemma coexists_refl [simp]: "ledger_inv coll d \<Longrightarrow> coexists coll d d"
  by (simp add: coexists_def)

lemma coexists_ledger: "coexists coll d d' \<Longrightarrow> ledger_inv coll d'"
  by (simp add: coexists_def)

lemma coexists_trans:
  assumes "coexists coll d d1" and "coexists coll d1 d2"
  shows "coexists coll d d2"
  using assms by (fastforce simp: coexists_def)

text \<open>A change that leaves the ledger and the accepted orders alone.\<close>

definition inert :: "(db \<Rightarrow> db) \<Rightarrow> bool" where
  "inert W \<longleftrightarrow>
     (\<forall>X. wallet_transactions (W X) = wallet_transactions X \<and> wallet_entries (W X) = wallet_entries X \<and>
        recharge_requests (W X) = recharge_requests X \<and> accepted (W X) = accepted X \<and>
        next_tx_id X \<le> next_tx_id (W X) \<and> (\<forall>u. balance_of u (W X) = balance_of u X))"

lemma coexists_inert:
  assumes "inert W" and "coexists coll d X"
  shows "coexists coll d (W X)"
proof -
  have "ledger_inv coll (W X)"
    by (rule ledger_inv_other [of coll X])
      (use assms in \<open>simp_all add: inert_def coexists_def\<close>)
  with assms show ?thesis
    by (auto simp: coexists_def inert_def unposted_def user_total_def intro: order_trans)
qed

lemma inert_comp: "inert V \<Longrightarrow> inert W \<Longrightarrow> inert (V \<circ> W)"
  by (auto simp: inert_def intro: order_trans)

lemma inert_id [simp]: "inert id"
  by (simp add: inert_def)

lemma balance_of_cong [simp]:
  "balance_of u (gift_orders_update f d) = balance_of u d"
  "balance_of u (outbox_events_update g d) = balance_of u d"
  "balance_of u (next_tx_id_update h d) = balance_of u d"
  "balance_of u (next_gift_order_id_update h d) = balance_of u d"
  "balance_of u (next_event_id_update h d) = balance_of u d"
  "balance_of u (wallet_transactions_update k d) = balance_of u d"
  "balance_of u (wallet_entries_update l d) = balance_of u d"
  by (simp_all add: balance_of_def)

lemma inert_updates [simp]:
  "inert (wallet_accounts_update (ensure_account v t))"
  "inert (outbox_events_update f)" "inert (next_event_id_update Suc)"
  "inert (next_gift_order_id_update Suc)" "inert (next_tx_id_update Suc)"
  "go_Status g \<noteq> ACCEPTED \<Longrightarrow> inert (gift_orders_update (\<lambda>gs. gs @ [g]))"
  by (simp_all add: inert_def accepted_def balance_of_ensured)

section \<open>Rules\<close>

text \<open>
  The rules of \<open>Tx\<close> without the assumption that nobody else commits: \<open>J\<close> is what the committed
  database is known to satisfy, and it has to survive the others.
\<close>

definition survives :: "(db \<Rightarrow> bool) \<Rightarrow> (db \<Rightarrow> db) \<Rightarrow> bool" where
  "survives J f \<longleftrightarrow> (\<forall>X. J X \<longrightarrow> J (f X))"

lemma survivesD: "survives J f \<Longrightarrow> J X \<Longrightarrow> J (f X)"
  by (simp add: survives_def)

lemma ivc_on_exec_alloc:
  assumes J: "J D" and rely: "survives J (others e n)" and bump: "survives J bump"
    and fault: "\<And>er c'. J (cdb c') \<Longrightarrow> er \<noteq> ErrNoRows \<Longrightarrow> er \<noteq> MySQLError mysql_dup_entry \<Longrightarrow>
                  wp (h er) Q c'"
    and fail: "\<And>X er w. J X \<Longrightarrow> X = others e n D \<Longrightarrow> q (ctr X) (now e n) (W X) = (Inl er, w) \<Longrightarrow>
                 wp (h er) Q (at (bump X) (w \<circ> W) (Suc n))"
    and ok: "\<And>X x w. J X \<Longrightarrow> X = others e n D \<Longrightarrow> q (ctr X) (now e n) (W X) = (Inr x, w) \<Longrightarrow>
               wp (k x) Q (at (bump X) (w \<circ> W) (Suc n))"
  shows "wp (on_call (exec_alloc e ctr bump q) h k) Q (at D W n)"
proof -
  let ?X = "others e n D"
  have X: "J ?X" and B: "J (bump ?X)" using rely bump J by (simp_all add: survives_def)
  obtain r w where res: "q (ctr ?X) (now e n) (W ?X) = (r, w)" by force
  note unf = wp_on_call wp_def [of "exec_alloc e ctr bump q"] exec_alloc_def view_def Let_def arrive_def
  show ?thesis
  proof (cases "fault_at e n")
    case None
    with res fail [OF X refl] ok [OF X refl] show ?thesis by (cases r) (simp_all add: unf)
  next
    case (Some f)
    with res fault X B show ?thesis by (cases f) (simp_all add: unf)
  qed
qed

lemma ivc_on_exec:
  assumes "J D" and "survives J (others e n)"
    and "\<And>er c'. J (cdb c') \<Longrightarrow> er \<noteq> ErrNoRows \<Longrightarrow> er \<noteq> MySQLError mysql_dup_entry \<Longrightarrow> wp (h er) Q c'"
    and "\<And>X er w. J X \<Longrightarrow> X = others e n D \<Longrightarrow> q (now e n) (W X) = (Inl er, w) \<Longrightarrow> wp (h er) Q (at X (w \<circ> W) (Suc n))"
    and "\<And>X x w. J X \<Longrightarrow> X = others e n D \<Longrightarrow> q (now e n) (W X) = (Inr x, w) \<Longrightarrow> wp (k x) Q (at X (w \<circ> W) (Suc n))"
  shows "wp (on_call (exec e q) h k) Q (at D W n)"
  unfolding exec_def by (rule ivc_on_exec_alloc [where J = J]) (use assms in \<open>auto simp: survives_def\<close>)

text \<open>An error that is passed on needs nothing but \<open>J\<close>.\<close>

definition aborts :: "(go_error \<Rightarrow> 'r) \<Rightarrow> (db \<Rightarrow> bool) \<Rightarrow> ('r \<Rightarrow> conn \<Rightarrow> bool) \<Rightarrow> bool" where
  "aborts f J Q \<longleftrightarrow> (\<forall>er c. J (cdb c) \<longrightarrow> Q (f er) c)"

lemma ivc_exec_alloc_at:
  assumes "J D" and "survives J (others e n)" and "survives J bump" and "aborts f J Q"
    and "\<And>X x w. J X \<Longrightarrow> X = others e n D \<Longrightarrow> q (ctr X) (now e n) (W X) = (Inr x, w) \<Longrightarrow>
           wp (k x) Q (at (bump X) (w \<circ> W) (Suc n))"
  shows "wp (check_as f (exec_alloc e ctr bump q) k) Q (at D W n)"
  unfolding check_as_def
  by (rule ivc_on_exec_alloc [where J = J]) (use assms in \<open>auto simp: aborts_def survives_def\<close>)

lemma ivc_exec_at:
  assumes "J D" and "survives J (others e n)" and "aborts f J Q"
    and "\<And>X x w. J X \<Longrightarrow> X = others e n D \<Longrightarrow> q (now e n) (W X) = (Inr x, w) \<Longrightarrow> wp (k x) Q (at X (w \<circ> W) (Suc n))"
  shows "wp (check_as f (exec e q) k) Q (at D W n)"
  unfolding exec_def by (rule ivc_exec_alloc_at [where J = J]) (use assms in \<open>auto simp: survives_def\<close>)

lemma ivc_exec_alloc:
  assumes "J D" and "survives J (others e n)" and "survives J bump" and "aborts f J Q"
    and "\<And>X x w. J X \<Longrightarrow> q (ctr X) (now e n) (W X) = (Inr x, w) \<Longrightarrow>
           wp (k x) Q (at (bump X) (w \<circ> W) (Suc n))"
  shows "wp (check_as f (exec_alloc e ctr bump q) k) Q (at D W n)"
  by (rule ivc_exec_alloc_at [where J = J]) (use assms in auto)

lemma ivc_exec:
  assumes "J D" and "survives J (others e n)" and "aborts f J Q"
    and "\<And>X x w. J X \<Longrightarrow> q (now e n) (W X) = (Inr x, w) \<Longrightarrow> wp (k x) Q (at X (w \<circ> W) (Suc n))"
  shows "wp (check_as f (exec e q) k) Q (at D W n)"
  by (rule ivc_exec_at [where J = J]) (use assms in auto)

lemma ivc_guard:
  assumes "J D" and "aborts f J Q" and "\<not> b \<Longrightarrow> wp m Q (at D W n)"
  shows "wp (if b then ret (f er) else m) Q (at D W n)"
  using assms by (simp add: aborts_def)

lemma ivc_commit:
  assumes "J D" and "survives J (others e n)" and "aborts f J Q"
    and "\<And>X er. J X \<Longrightarrow> Q (f er) (at (W X) id (Suc n))"
    and "\<And>X. J X \<Longrightarrow> wp (k ()) Q (at (W X) id (Suc n))"
  shows "wp (check_as f (Commit e) k) Q (at D W n)"
  using assms
  by (auto simp: survives_def check_as_def wp_on_call wp_def [of "Commit e"] Commit_def Let_def arrive_def
      aborts_def split: option.splits fault.splits)

lemma coexists_step:
  "interference coll e \<Longrightarrow> coexists coll d X \<Longrightarrow> coexists coll X (others e n X)"
  using coexists_ledger by (simp add: interference_def)

lemma survives_among:
  assumes "interference coll e" and "\<And>X Y. P X \<Longrightarrow> coexists coll X Y \<Longrightarrow> P Y"
  shows "survives (\<lambda>X. coexists coll d X \<and> P X) (others e n)"
  unfolding survives_def
  using coexists_step [OF assms(1)] coexists_trans assms(2) by blast

lemma coexists_survives:
  "interference coll e \<Longrightarrow> survives (coexists coll d) (others e n)"
  using survives_among [of coll e "\<lambda>_. True"] by simp

lemma in_tx_iwp:
  assumes run: "in_tx e body fail d = (r, d')" and J: "J (others e 0 d)" and fail: "\<And>er X. J X \<Longrightarrow> P (fail er) X"
    and body: "\<And>X. J X \<Longrightarrow> X = before e 1 d \<Longrightarrow> wp body (\<lambda>r c. P r (cdb c)) (at X id 1)"
  shows "P r d'"
  using run fail [OF J] body [OF J before_1 [symmetric]]
  by (auto simp: in_tx_def wp_def Rollback_def on_call_def BeginTx_def Let_def arrive_def
      connect_def ret_def split: option.splits fault.splits prod.splits)

section \<open>A posting among others\<close>

text \<open>
  After \<open>FOR UPDATE\<close> the balance and the transactions of the user stand still; after the insert of
  the transaction its identifier \<open>m\<close> is taken, and nobody else has it.
\<close>

definition held :: "u64 \<Rightarrow> i64 \<Rightarrow> WalletTransaction list \<Rightarrow> db \<Rightarrow> bool" where
  "held v bal ts X \<longleftrightarrow>
     balance_of v X = bal \<and> filter (\<lambda>w. wt_ActorUserID w = v) (wallet_transactions X) = ts"

definition taken :: "nat \<Rightarrow> db \<Rightarrow> bool" where
  "taken m X \<longleftrightarrow>
     m < next_tx_id X \<and> m < 2 ^ 63 \<and> of_nat m \<notin> wt_TxID ` set (wallet_transactions X)"

lemma held_others:
  "holds_account e v k \<Longrightarrow> k \<le> n \<Longrightarrow> held v bal ts X \<Longrightarrow> held v bal ts (others e n X)"
  by (simp add: held_def holds_account_def balance_of_def)

lemma held_bump [simp]:
  "held v bal ts (next_tx_id_update h X) = held v bal ts X"
  "held v bal ts (next_gift_order_id_update h X) = held v bal ts X"
  "held v bal ts (next_event_id_update h X) = held v bal ts X"
  by (simp_all add: held_def)

lemma taken_others:
  assumes "interference coll e" and "spares_id e k m" and "k < n" and "ledger_inv coll X" and "taken m X"
  shows "taken m (others e n X)"
proof -
  have "of_nat m \<notin> wt_TxID ` set (wallet_transactions (others e n X))"
    using assms(2,3,5) by (fastforce simp: spares_id_def taken_def)
  moreover have "next_tx_id X \<le> next_tx_id (others e n X)"
    using assms(1,4) by (simp add: interference_def coexists_def)
  ultimately show ?thesis using assms(5) by (simp add: taken_def)
qed

lemma taken_bump [simp]:
  "taken m X \<Longrightarrow> taken m (next_gift_order_id_update h X)"
  "taken m X \<Longrightarrow> taken m (next_event_id_update h X)"
  by (simp_all add: taken_def)

lemma taken_now:
  assumes "coexists coll d X" and "next_tx_id X < 2 ^ 63"
  shows "taken (next_tx_id X) (next_tx_id_update Suc X)"
  using assms next_id_unused [of X] by (simp add: taken_def coexists_def ledger_inv_def)

lemma coexists_bump:
  "coexists coll d X \<Longrightarrow> coexists coll d (next_tx_id_update Suc X)"
  "coexists coll d X \<Longrightarrow> coexists coll d (next_gift_order_id_update Suc X)"
  "coexists coll d X \<Longrightarrow> coexists coll d (next_event_id_update Suc X)"
  by (rule coexists_inert; simp)+

lemma coexists_posted:
  assumes X: "coexists coll d X" and m: "taken m X" and w: "wt_TxID w = of_nat m"
    and key: "\<forall>x \<in> set (wallet_transactions X). wt_ActorUserID x = wt_ActorUserID w \<longrightarrow>
                wt_TxType x = wt_TxType w \<longrightarrow> coll (wt_RequestID x) \<noteq> coll (wt_RequestID w)"
    and Y: "next_tx_id Y = next_tx_id X" "wallet_transactions Y = wallet_transactions X @ [w]"
      "wallet_entries Y = wallet_entries X @ posting (wt_TxID w) (wt_ActorUserID w) other amount"
      "wallet_accounts Y = set_balance (wrap64 (balance_of (wt_ActorUserID w) X + amount))
         (wt_ActorUserID w) t2 (ensure_account (wt_ActorUserID w) t1 (wallet_accounts X))"
    and other: "\<And>u. other \<noteq> user_coins u"
    and new: "wt_TxType w = GIFT_DEBIT \<and> recharge_requests Y = recharge_requests X \<and>
                accepted Y = accepted X @ [g] \<and> (entries_of (wt_TxID w) Y =
                  posting (wt_TxID w) (wt_ActorUserID w) other amount \<longrightarrow> debit_matches Y w g) \<or>
              wt_TxType w = RECHARGE \<and> accepted Y = accepted X \<and>
                recharge_requests Y = recharge_requests X @ [r] \<and> (entries_of (wt_TxID w) Y =
                  posting (wt_TxID w) (wt_ActorUserID w) other amount \<longrightarrow> credit_matches Y w r)"
  shows "coexists coll d Y"
proof -
  have f: "ids_fresh X" using X by (simp add: coexists_def ledger_inv_def)
  have um: "unat (wt_TxID w) = m" using m by (simp add: w unat_tx_id taken_def)
  have p: "posted w other amount X Y" using m Y um by (simp add: posted_def taken_def w)
  have "tx_key coll w \<notin> set (map (tx_key coll) (wallet_transactions X))"
    using key by (force simp: tx_key_def)
  then have "ledger_inv coll Y"
    by (rule ledger_inv_posted [OF coexists_ledger [OF X] p])
      (use new posted_entries(1) [OF p f] in blast)
  moreover have "unposted u Y = unposted u X" for u by (rule unposted_posting [OF Y(3) other Y(4)])
  moreover have "set (accepted X) \<subseteq> set (accepted Y)" using new by auto
  ultimately show ?thesis using X m um Y by (auto simp: coexists_def taken_def)
qed

text \<open>
  No accepted order without its debit, hence none under a key that has no debit.
\<close>

lemma accepted_has_debit:
  assumes "ledger_inv coll X" and "g \<in> set (accepted X)"
  shows "\<exists>w \<in> set (wallet_transactions X). wt_ActorUserID w = go_ViewerID g \<and> wt_TxType w = GIFT_DEBIT \<and>
    wt_RequestID w = go_RequestID g"
proof -
  have "list_all2 (debit_matches X) (txs_of GIFT_DEBIT X) (accepted X)"
    using assms(1) by (simp add: ledger_inv_def)
  from list_all2_right [OF this assms(2)] obtain w
    where "w \<in> set (txs_of GIFT_DEBIT X)" "debit_matches X w g" by blast
  then show ?thesis by (auto simp: txs_of_def debit_matches_def)
qed

section \<open>Recharges among other requests\<close>

text \<open>What the ledger has on a request.\<close>

definition on_ledger ::
  "(string \<Rightarrow> string) \<Rightarrow> WalletTransactionsTxType \<Rightarrow> u64 \<Rightarrow> string \<Rightarrow> u64 \<Rightarrow> db \<Rightarrow> bool" where
  "on_ledger coll ty v rid txID d \<longleftrightarrow>
     (\<exists>w \<in> set (wallet_transactions d). wt_TxID w = txID \<and> wt_TxType w = ty \<and>
        wt_ActorUserID w = v \<and> coll (wt_RequestID w) = coll rid)"

definition recharge_coexists ::
  "(string \<Rightarrow> string) \<Rightarrow> RechargeRequest \<Rightarrow> db \<Rightarrow> RechargeResponse outcome \<Rightarrow> db \<Rightarrow> bool" where
  "recharge_coexists coll req d r d' \<longleftrightarrow>
     coexists coll d d' \<and>
     (\<forall>rs. r = Ok rs \<longrightarrow> on_ledger coll RECHARGE (rq_ViewerID req) (rq_RequestID req) (rs_TxID rs) d')"

definition quiet_account :: "(string \<Rightarrow> string) \<Rightarrow> db \<Rightarrow> u64 \<Rightarrow> i64 \<Rightarrow> WalletTransaction list \<Rightarrow> db \<Rightarrow> bool" where
  "quiet_account coll d v bal ts X \<longleftrightarrow> coexists coll d X \<and> held v bal ts X"

definition open_posting ::
  "(string \<Rightarrow> string) \<Rightarrow> db \<Rightarrow> u64 \<Rightarrow> i64 \<Rightarrow> WalletTransaction list \<Rightarrow> nat \<Rightarrow> db \<Rightarrow> bool" where
  "open_posting coll d v bal ts m X \<longleftrightarrow> quiet_account coll d v bal ts X \<and> taken m X"

lemma account_survives:
  assumes "interference coll e" and "holds_account e v k" and "k \<le> n"
  shows "survives (quiet_account coll d v bal ts) (others e n)"
    and "spares_id e k m \<Longrightarrow> k < n \<Longrightarrow> survives (open_posting coll d v bal ts m) (others e n)"
  using coexists_survives [OF assms(1)] held_others [OF assms(2,3)]
    taken_others [OF assms(1)] coexists_ledger
  by (auto simp: survives_def quiet_account_def open_posting_def)

lemma bumps_survive:
  "survives (coexists coll d) (next_gift_order_id_update Suc)"
  "survives (coexists coll d) (next_event_id_update Suc)"
  "survives (quiet_account coll d v bal ts) (next_tx_id_update Suc)"
  "survives (open_posting coll d v bal ts m) (next_event_id_update Suc)"
  "survives (open_posting coll d v bal ts m) (next_gift_order_id_update Suc)"
  by (simp_all add: survives_def quiet_account_def open_posting_def coexists_bump)

lemma open_posting_now:
  "quiet_account coll d v bal ts X \<Longrightarrow> next_tx_id X < 2 ^ 63 \<Longrightarrow>
     open_posting coll d v bal ts (next_tx_id X) (next_tx_id_update Suc X)"
  using taken_now [of coll d X] by (simp add: quiet_account_def open_posting_def coexists_bump)

text \<open>The insert of the transaction draws the identifier and finds the key unused.\<close>

lemma drawn:
  assumes q: "InsertWalletTransaction (collate e) ty v rid h (next_tx_id X) t D = (Inr x, w)"
    and W: "wallet_transactions D = wallet_transactions X" and i: "interference coll e"
    and X: "quiet_account coll d v bal ts X"
  shows "x = last_insert_id (next_tx_id X)"
    and "w = wallet_transactions_update (\<lambda>ws. ws @ [tx_row ty v rid h (next_tx_id X) t])"
    and "\<forall>y \<in> set ts. wt_TxType y = ty \<longrightarrow> coll (wt_RequestID y) \<noteq> coll rid"
    and "\<not> x < 1 \<Longrightarrow> open_posting coll d v bal ts (next_tx_id X) (next_tx_id_update Suc X)"
proof -
  show x: "x = last_insert_id (next_tx_id X)"
    and "w = wallet_transactions_update (\<lambda>ws. ws @ [tx_row ty v rid h (next_tx_id X) t])"
    and "\<forall>y \<in> set ts. wt_TxType y = ty \<longrightarrow> coll (wt_RequestID y) \<noteq> coll rid"
    using q W i X by (auto simp: sql_spec tx_row_def list_ex_iff interference_def quiet_account_def held_def)
  show "open_posting coll d v bal ts (next_tx_id X) (next_tx_id_update Suc X)" if "\<not> x < 1"
    using open_posting_now [OF X] q that x last_insert_id_pos [of "next_tx_id X"] by (simp add: sql_spec)
qed

lemma served_alone_survives:
  assumes "interference coll e" and "served_alone e v k d"
  shows "k \<le> n \<Longrightarrow> survives (quiet_account coll d v bal ts) (others e n)"
    and "k < n \<Longrightarrow> m = next_tx_id (before e (Suc k) d) \<Longrightarrow>
      survives (open_posting coll d v bal ts m) (others e n)"
  using account_survives [OF assms(1), of v k] assms(2) by (simp_all add: served_alone_def)

lemma recharge_aborts:
  "aborts Err (coexists coll d) (\<lambda>r c. recharge_coexists coll req d r (cdb c))"
  "aborts Err (quiet_account coll d v bal ts) (\<lambda>r c. recharge_coexists coll req d r (cdb c))"
  "aborts Err (open_posting coll d v bal ts m) (\<lambda>r c. recharge_coexists coll req d r (cdb c))"
  by (simp_all add: aborts_def recharge_coexists_def quiet_account_def open_posting_def)

lemma recharge_committed_coexists:
  assumes X: "open_posting coll d (rq_ViewerID req) bal ts m X"
    and key: "\<forall>x \<in> set ts. wt_TxType x = RECHARGE \<longrightarrow> coll (wt_RequestID x) \<noteq> coll (rq_RequestID req)"
    and Y: "next_tx_id Y = next_tx_id X" "accepted Y = accepted X"
      "wallet_transactions Y = wallet_transactions X @
         [tx_row RECHARGE (rq_ViewerID req) (rq_RequestID req) h m t]"
      "wallet_entries Y = wallet_entries X @
         posting (of_nat m) (rq_ViewerID req) ''SYSTEM_TOPUP_SOURCE'' (uint (rq_Coins req))"
      "wallet_accounts Y = set_balance (wrap64 (bal + uint (rq_Coins req))) (rq_ViewerID req) tu
         (ensure_account (rq_ViewerID req) tc (wallet_accounts X))"
      "recharge_requests Y = recharge_requests X @ [last (recharge_requests Y)]"
    and row: "row = last (recharge_requests Y)" "rr_ViewerID row = rq_ViewerID req"
      "rr_RequestID row = rq_RequestID req" "rr_BodyHash row = h" "rr_TxID row = of_nat m"
      "rr_Coins row = rq_Coins req"
  shows "coexists coll d Y"
proof (rule coexists_posted [where w = "tx_row RECHARGE (rq_ViewerID req) (rq_RequestID req) h m t" and r = row])
  let ?w = "tx_row RECHARGE (rq_ViewerID req) (rq_RequestID req) h m t"
  show "coexists coll d X" "taken m X"
    using X by (simp_all add: open_posting_def quiet_account_def)
  have ts: "x \<in> set ts" if "x \<in> set (wallet_transactions X)" "wt_ActorUserID x = rq_ViewerID req" for x
    using X that by (auto simp: open_posting_def quiet_account_def held_def)
  show "\<forall>x \<in> set (wallet_transactions X).
      wt_ActorUserID x = wt_ActorUserID ?w \<longrightarrow>
      wt_TxType x = wt_TxType ?w \<longrightarrow>
      coll (wt_RequestID x) \<noteq> coll (wt_RequestID ?w)"
    using ts key by (auto simp: tx_row_def)
  show "''SYSTEM_TOPUP_SOURCE'' \<noteq> user_coins u" for u by simp
  have "recharge_requests Y = recharge_requests X @ [row]" unfolding row(1) by (rule Y(6))
  then show "P \<or> wt_TxType ?w = RECHARGE \<and>
      accepted Y = accepted X \<and> recharge_requests Y = recharge_requests X @ [row] \<and>
      (entries_of (wt_TxID ?w) Y =
         posting (wt_TxID ?w)
           (wt_ActorUserID ?w)
           ''SYSTEM_TOPUP_SOURCE'' (uint (rq_Coins req)) \<longrightarrow>
       credit_matches Y ?w row)" for P
    using Y(2) row(2-) by (auto simp: credit_matches_def tx_row_def)
qed (use X Y(1-5) in \<open>auto simp: tx_row_def open_posting_def quiet_account_def held_def credit_matches_def\<close>)

lemma recharge_post_iwp:
  assumes i: "interference coll e" and l: "served_alone e (rq_ViewerID req) (Suc (Suc n)) d"
    and X: "coexists coll d X" "X = before e n d"
  shows "wp (recharge_post e req h) (\<lambda>r c. recharge_coexists coll req d r (cdb c)) (at X id n)"
  unfolding recharge_post_def
proof (rule ivc_exec_at [where J = "coexists coll d", OF X(1) coexists_survives [OF i] recharge_aborts(1)],
    rule ivc_exec_at [where J = "coexists coll d", OF _ coexists_survives [OF i] recharge_aborts(1)], assumption,
    goal_cases)
  case (1 X0 x w X bal w')
  define v ts J where "v = rq_ViewerID req" and "ts = filter (\<lambda>w. wt_ActorUserID w = v) (wallet_transactions X)"
    and "J = quiet_account coll d v bal ts"
  have W: "w' \<circ> (w \<circ> id) = wallet_accounts_update (ensure_account v (now e n))"
    using 1 by (auto simp: sql_spec fun_eq_iff v_def)
  have bal: "bal = balance_of v X" using 1 by (auto simp: sql_spec v_def dest: find_ensure_balance)
  have XX: "X = before e (Suc (Suc n)) d" using 1 X(2) by simp
  with bal 1 have JX: "J X" by (simp add: J_def quiet_account_def held_def ts_def)
  note surv = served_alone_survives [where bal = bal and ts = ts, OF i l, folded v_def, folded J_def]
  note ab = recharge_aborts(2,3) [where coll = coll and d = d and v = v and bal = bal and ts = ts, folded J_def]
  note bump = bumps_survive(3,4) [where coll = coll and d = d and v = v and bal = bal and ts = ts, folded J_def]
  show ?case
    unfolding W Let_def recharge_entries_balanced exec_tx_insert_def exec_outbox_insert_def
      MarshalJSONString_def sum.case v_def [symmetric]
  proof (rule ivc_exec_alloc_at [where J = J, OF JX surv(1) bump(1) ab(1)], simp, goal_cases)
    case (1 X x w)
    define m where "m = next_tx_id X"
    note drawn = drawn [OF 1(3) _ i 1(1) [unfolded J_def], folded m_def, simplified]
    show ?case
    proof (cases "x < 1")
      case True
      have "J (next_tx_id_update Suc X)" using bump(1) 1 by (simp add: survives_def)
      with True show ?thesis by (simp add: recharge_coexists_def J_def quiet_account_def)
    next
      case False
      let ?J = "open_posting coll d v bal ts m"
      have "m = next_tx_id (before e (Suc (Suc (Suc n))) d)" using 1 XX by (simp add: m_def X)
      then have surv: "survives ?J (others e k)" if "Suc (Suc n) < k" for k using surv(2) that by blast
      note com = recharge_committed_coexists [where bal = bal and ts = ts and m = m and req = req
          and h = h and t = "now e (Suc (Suc n))" and coll = coll and d = d and tc = "now e n"
          and tu = "now e (Suc (Suc (Suc (Suc (Suc n)))))", OF _ _ _ _ _ _ _ _ refl, folded v_def, OF _ drawn(3)]
      note run = ivc_exec [where J = ?J, OF _ surv ab(2)]
      show ?thesis
        using False unfolding drawn(1,2)
        apply (simp only: if_False simp_thms BuildRechargeEntries_eq insert_entries.simps)
        apply (rule ivc_exec [where J = ?J, OF drawn(4) [OF False] surv ab(2)], simp)
        apply (rule run, assumption, simp)+
        apply (rule ivc_exec_alloc [where J = ?J, OF _ surv bump(2) ab(2)],
            assumption, simp)
        apply (rule ivc_commit [where J = ?J, OF _ surv ab(2)],
            erule survivesD [OF bump(2)], simp)
         apply (simp_all add: recharge_coexists_def sql_spec)
        subgoal for _ _ _ _ _ _ Y by (rule com [where X = Y]; simp add: posting_def accepted_def)
        subgoal for _ _ _ _ _ _ Y
          by (intro conjI, rule com [where X = Y]; simp add: posting_def accepted_def on_ledger_def tx_row_def v_def)
        done
    qed
  qed
qed

lemma known_recharge_on_ledger:
  assumes "ledger_inv coll X" and "r \<in> set (recharge_requests X)"
  shows "on_ledger coll RECHARGE (rr_ViewerID r) (rr_RequestID r) (rr_TxID r) X"
proof -
  have "list_all2 (credit_matches X) (txs_of RECHARGE X) (recharge_requests X)"
    using assms(1) by (simp add: ledger_inv_def)
  from list_all2_right [OF this assms(2)] obtain w
    where "w \<in> set (txs_of RECHARGE X)" "credit_matches X w r" by blast
  then show ?thesis by (auto simp: on_ledger_def txs_of_def credit_matches_def)
qed

lemma on_ledger_coexists: "on_ledger coll ty v rid n X \<Longrightarrow> coexists coll X Y \<Longrightarrow> on_ledger coll ty v rid n Y"
  by (auto simp: on_ledger_def coexists_def)

lemma recharge_tx_iwp:
  assumes i: "interference coll e" and l: "served_alone e (rq_ViewerID req) (Suc (Suc (Suc n))) d"
    and X: "coexists coll d X" "X = before e n d"
  shows "wp (recharge_tx e req h) (\<lambda>r c. recharge_coexists coll req d r (cdb c)) (at X id n)"
  unfolding recharge_tx_def
proof (rule ivc_on_exec [where J = "coexists coll d", OF X(1) coexists_survives [OF i]], goal_cases)
  case (1 er c')
  then show ?case by (simp add: recharge_coexists_def)
next
  case (2 X er w)
  then show ?case using recharge_post_iwp [OF i l] X(2) by (simp add: sql_spec)
next
  case (3 X ex w)
  let ?J = "\<lambda>X. coexists coll d X \<and>
    on_ledger coll RECHARGE (rq_ViewerID req) (rq_RequestID req) (rr_TxID ex) X"
  have ex: "ex \<in> set (recharge_requests X)" "rr_ViewerID ex = rq_ViewerID req"
    "coll (rr_RequestID ex) = coll (rq_RequestID req)" "w = id"
    using 3 i by (auto simp: sql_spec interference_def dest: find_SomeD)
  then have J: "?J X"
    using 3 known_recharge_on_ledger [of coll X ex] by (auto simp: coexists_def on_ledger_def)
  have "survives ?J (others e (Suc n))" by (rule survives_among [OF i on_ledger_coexists])
  then have "wp (check (Commit e) (\<lambda>_. ret (Ok (recharge_replayed req ex))))
      (\<lambda>r c. recharge_coexists coll req d r (cdb c)) (at X id (Suc n))"
    by (intro ivc_commit [where J = ?J, OF J])
      (auto simp: aborts_def recharge_coexists_def recharge_replayed_def)
  then show ?case using J ex(4) by (simp add: recharge_coexists_def)
qed

text \<open>The fourth call of a recharge reads its account; from the fifth on the account is held.\<close>

lemma Recharge_coexists:
  assumes i: "interference coll e" and l: "served_alone e (rq_ViewerID req) 4 d"
    and d: "ledger_inv coll d" and run: "Recharge e req d = (r, d')"
  shows "recharge_coexists coll req d r d'"
proof (cases "recharge_valid req")
  case True
  show ?thesis
  proof (rule in_tx_iwp [OF run [unfolded Recharge_valid [OF True]], of "coexists coll d"])
    show "coexists coll d (others e 0 d)" using i d by (simp add: interference_def)
    show "wp (recharge_tx e req (request_hash (RechargeRequest_json req)))
        (\<lambda>r c. recharge_coexists coll req d r (cdb c)) (at X id 1)" if "coexists coll d X" "X = before e 1 d" for X
      using recharge_tx_iwp [OF i _ that] l by (simp add: numeral_eq_Suc)
  qed (simp add: recharge_coexists_def)
next
  case False
  then show ?thesis using Recharge_invalid [OF False, of e d] run d by (auto simp: recharge_coexists_def)
qed

section \<open>Gifts among other requests\<close>

definition order_recorded :: "(string \<Rightarrow> string) \<Rightarrow> GiftRequest \<Rightarrow> GiftResponse \<Rightarrow> db \<Rightarrow> bool" where
  "order_recorded coll req rs d \<longleftrightarrow>
     (\<exists>g \<in> set (accepted d). go_GiftOrderID g = gs_GiftOrderID rs \<and> go_ViewerID g = gq_ViewerID req \<and>
        coll (go_RequestID g) = coll (gq_RequestID req) \<and> go_ChargedCoins g = gs_ChargedCoins rs)"

definition gift_coexists ::
  "(string \<Rightarrow> string) \<Rightarrow> GiftRequest \<Rightarrow> db \<Rightarrow> GiftResponse outcome \<Rightarrow> db \<Rightarrow> bool" where
  "gift_coexists coll req d r d' \<longleftrightarrow>
     coexists coll d d' \<and> (\<forall>rs. r = Ok rs \<longrightarrow> order_recorded coll req rs d')"

lemma order_recorded_coexists: "order_recorded coll req rs X \<Longrightarrow> coexists coll X Y \<Longrightarrow> order_recorded coll req rs Y"
  by (auto simp: order_recorded_def coexists_def)

lemma gift_aborts_among:
  "aborts Err (coexists coll d) (\<lambda>r c. gift_coexists coll req d r (cdb c))"
  "aborts Err (quiet_account coll d v bal ts) (\<lambda>r c. gift_coexists coll req d r (cdb c))"
  "aborts Err (open_posting coll d v bal ts m) (\<lambda>r c. gift_coexists coll req d r (cdb c))"
  by (simp_all add: aborts_def gift_coexists_def quiet_account_def open_posting_def)

text \<open>Answers without an order of one's own.\<close>

lemma gift_answers:
  "coexists coll d Y \<Longrightarrow> gift_coexists coll req d (Err er) Y"
  "coexists coll d Y \<Longrightarrow> gift_coexists coll req d (App a) Y"
  "coexists coll d Y \<Longrightarrow> order_recorded coll req rs Y \<Longrightarrow> gift_coexists coll req d (Ok rs) Y"
  by (simp_all add: gift_coexists_def)

text \<open>A replay that answers with an order found it among the accepted ones.\<close>

lemma replayed_recorded:
  assumes "find (\<lambda>g. go_ViewerID g = gq_ViewerID req \<and> coll (go_RequestID g) = coll (gq_RequestID req))
      (gift_orders X) = Some ex"
    and "replay_answer ex h = (Some rs, a)"
  shows "order_recorded coll req rs X" and "a = None"
  using find_SomeD [OF assms(1)] assms(2)
  by (auto simp: replay_answer_def gift_replayed_def order_recorded_def accepted_def split: if_splits)

lemma recorded_survives:
  "interference coll e \<Longrightarrow>
     survives (\<lambda>X. coexists coll d X \<and> order_recorded coll req rs X) (others e n)"
  by (rule survives_among [OF _ order_recorded_coexists])

lemma commit_recorded:
  assumes i: "interference coll e" and W: "inert W" and X: "coexists coll d X" "order_recorded coll req rs X"
  shows "wp (check (Commit e) (\<lambda>_. ret (Ok rs))) (\<lambda>r c. gift_coexists coll req d r (cdb c)) (at X W n)"
proof -
  have Y: "coexists coll d (W X)" "order_recorded coll req rs (W X)"
    if "coexists coll d X" "order_recorded coll req rs X" for X
    using coexists_inert [OF W that(1)] W that(2) by (simp_all add: order_recorded_def inert_def)
  show ?thesis
    by (rule ivc_commit [where J = "\<lambda>X. coexists coll d X \<and> order_recorded coll req rs X",
          OF _ recorded_survives [OF i]])
      (use X Y in \<open>auto simp: aborts_def intro!: gift_answers\<close>)
qed

lemma replay_answer_cases:
  obtains a where "replay_answer ex h = (None, Some a)" | rs where "replay_answer ex h = (Some rs, None)"
  by (cases "go_BodyHash ex = h"; cases "go_Status ex") (simp_all add: replay_answer_def)

lemma replay_iwp:
  assumes i: "interference coll e" and J: "J X" "survives J (others e n)" "aborts Err J Q"
    and W: "\<And>X. gift_orders (W X) = gift_orders X"
    and none: "\<And>Y. J Y \<Longrightarrow> Y = others e n X \<Longrightarrow> wp (k (None, None)) Q (at Y W (Suc n))"
    and app: "\<And>X a. J X \<Longrightarrow> wp (k (None, Some a)) Q (at X W (Suc n))"
    and ok: "\<And>X rs. J X \<Longrightarrow> order_recorded coll req rs X \<Longrightarrow> wp (k (Some rs, None)) Q (at X W (Suc n))"
  shows "wp (check (replayGiftIfExists e req h) k) Q (at X W n)"
  unfolding replayGiftIfExists_def check_as_def wp_on_call [of "on_call _ _ _"]
proof (rule ivc_on_exec [where J = J, OF J(1,2)], goal_cases)
  case (1 er c')
  then show ?case using J(3) by (simp add: aborts_def)
next
  case (2 X er w)
  then show ?case using none [of X] by (simp add: sql_spec)
next
  case (3 X ex w)
  then have f: "find (\<lambda>g. go_ViewerID g = gq_ViewerID req \<and> coll (go_RequestID g) = coll (gq_RequestID req))
      (gift_orders X) = Some ex" and w: "w = id"
    using i by (simp_all add: sql_spec W interference_def)
  show ?case
    by (rule replay_answer_cases [of ex h])
      (use 3 w app ok [OF _ replayed_recorded(1) [OF f]] in simp_all)
qed

lemma answer_replay_iwp:
  assumes i: "interference coll e" and W: "inert W" "\<And>X. gift_orders (W X) = gift_orders X"
    and X: "coexists coll d X"
    and otherwise: "\<And>Y. coexists coll d Y \<Longrightarrow> Y = others e n X \<Longrightarrow>
      wp otherwise (\<lambda>r c. gift_coexists coll req d r (cdb c)) (at Y W (Suc n))"
  shows "wp (answer_replay e req h otherwise) (\<lambda>r c. gift_coexists coll req d r (cdb c)) (at X W n)"
  unfolding answer_replay_def
  by (rule replay_iwp [where J = "coexists coll d", OF i X coexists_survives [OF i] gift_aborts_among(1) W(2)])
    (use otherwise commit_recorded [OF i W(1)] in \<open>simp_all add: gift_answers\<close>)

lemma rejectGift_iwp:
  assumes i: "interference coll e" and W: "inert W" "\<And>X. gift_orders (W X) = gift_orders X"
    and X: "coexists coll d X"
  shows "wp (rejectGift e req h code st) (\<lambda>r c. gift_coexists coll req d r (cdb c)) (at X W n)"
  unfolding rejectGift_def exec_order_insert_def exec_outbox_insert_def MarshalJSONString_def sum.case
proof (rule ivc_on_exec_alloc [where J = "coexists coll d", OF X coexists_survives [OF i] bumps_survive(1)], goal_cases)
  case (1 er c')
  then show ?case by (simp add: gift_answers)
next
  case (2 X er w)
  then have w: "w = id" using insert_failed(1) by blast
  have com: "wp (check (Commit e) (\<lambda>_. ret (App a))) (\<lambda>r c. gift_coexists coll req d r (cdb c)) (at X W n)"
    if "coexists coll d X" for X a n
    by (rule ivc_commit [where J = "coexists coll d", OF that coexists_survives [OF i] gift_aborts_among(1)])
      (simp_all add: gift_answers coexists_inert [OF W(1)])
  show ?case
    using 2 coexists_bump(2) w com
    by (auto simp: gift_answers intro!: replay_iwp [where J = "coexists coll d", OF i _ coexists_survives [OF i]
          gift_aborts_among(1) W(2)])
next
  case (3 X x w)
  have "inert w" using 3 by (simp add: sql_spec order_row_def)
  then have "inert (outbox_events_update f \<circ> (w \<circ> W))" for f by (intro inert_comp W) simp_all
  from coexists_inert [OF this] have V: "coexists coll d (outbox_events_update f (w (W X)))"
    if "coexists coll d X" for X f
    using that by simp
  show ?case
    apply (rule ivc_exec_alloc [where J = "coexists coll d", OF coexists_bump(2) [OF 3(1)] coexists_survives [OF i]
          bumps_survive(2) gift_aborts_among(1)])
    apply (rule ivc_commit [where J = "coexists coll d", OF coexists_bump(3) coexists_survives [OF i]
          gift_aborts_among(1)], assumption)
    by (simp_all add: sql_spec gift_answers V)
qed

text \<open>
  The branch that looks risky: when the order turns out to be a duplicate after the debit was
  written, the code commits if it finds an accepted order. It never does, since an accepted order
  has a debit, and the debit of this request was new.
\<close>

lemma no_order_without_debit:
  assumes X: "open_posting coll d (gq_ViewerID req) bal ts m X"
    and key: "\<forall>y \<in> set ts. wt_TxType y = GIFT_DEBIT \<longrightarrow> coll (wt_RequestID y) \<noteq> coll (gq_RequestID req)"
  shows "\<not> order_recorded coll req rs X"
proof
  assume "order_recorded coll req rs X"
  then obtain g where g: "g \<in> set (accepted X)" "go_ViewerID g = gq_ViewerID req"
    "coll (go_RequestID g) = coll (gq_RequestID req)" by (auto simp: order_recorded_def)
  have "ledger_inv coll X" using X by (simp add: open_posting_def quiet_account_def coexists_def)
  from accepted_has_debit [OF this g(1)] obtain w where "w \<in> set (wallet_transactions X)"
    "wt_ActorUserID w = gq_ViewerID req" "wt_TxType w = GIFT_DEBIT" "wt_RequestID w = go_RequestID g"
    using g(2) by auto
  with X key g(3) show False by (auto simp: open_posting_def quiet_account_def held_def)
qed

lemma gift_committed_coexists:
  assumes X: "open_posting coll d (gq_ViewerID req) bal ts m X" and fits: "fits_u32 charged"
    and key: "\<forall>y \<in> set ts. wt_TxType y = GIFT_DEBIT \<longrightarrow> coll (wt_RequestID y) \<noteq> coll (gq_RequestID req)"
    and Y: "next_tx_id Y = next_tx_id X" "recharge_requests Y = recharge_requests X"
      "wallet_transactions Y = wallet_transactions X @
         [tx_row GIFT_DEBIT (gq_ViewerID req) (gq_RequestID req) h m t]"
      "wallet_entries Y = wallet_entries X @
         posting (of_nat m) (gq_ViewerID req) ''PLATFORM_RESERVED_COINS'' (- charged)"
      "wallet_accounts Y = set_balance (wrap64 (bal - charged)) (gq_ViewerID req) tu
         (ensure_account (gq_ViewerID req) tc (wallet_accounts X))"
      "gift_orders Y = gift_orders X @ [last (gift_orders Y)]"
    and row: "row = last (gift_orders Y)" "go_ViewerID row = gq_ViewerID req"
      "go_RequestID row = gq_RequestID req" "go_BodyHash row = h" "go_Status row = ACCEPTED"
      "go_ChargedCoins row = of_int charged"
  shows "coexists coll d Y"
proof (rule coexists_posted [where w = "tx_row GIFT_DEBIT (gq_ViewerID req) (gq_RequestID req) h m t" and g = row])
  let ?w = "tx_row GIFT_DEBIT (gq_ViewerID req) (gq_RequestID req) h m t"
  show "coexists coll d X" "taken m X"
    using X by (simp_all add: open_posting_def quiet_account_def)
  have ts: "x \<in> set ts" if "x \<in> set (wallet_transactions X)" "wt_ActorUserID x = gq_ViewerID req" for x
    using X that by (auto simp: open_posting_def quiet_account_def held_def)
  show "\<forall>x \<in> set (wallet_transactions X).
      wt_ActorUserID x = wt_ActorUserID ?w \<longrightarrow>
      wt_TxType x = wt_TxType ?w \<longrightarrow>
      coll (wt_RequestID x) \<noteq> coll (wt_RequestID ?w)"
    using ts key by (auto simp: tx_row_def)
  have "gift_orders Y = gift_orders X @ [row]" unfolding row(1) by (rule Y(6))
  then have "accepted Y = accepted X @ [row]" using row(5) by (simp add: accepted_def)
  moreover have "uint (of_int charged :: u32) = charged"
    using fits by (simp add: fits_u32_def unsigned_of_int take_bit_int_eq_self)
  ultimately show "wt_TxType ?w = GIFT_DEBIT \<and>
      recharge_requests Y = recharge_requests X \<and> accepted Y = accepted X @ [row] \<and>
      (entries_of (wt_TxID ?w) Y =
         posting (wt_TxID ?w)
           (wt_ActorUserID ?w)
           ''PLATFORM_RESERVED_COINS'' (- charged) \<longrightarrow>
       debit_matches Y ?w row) \<or> P" for P
    using Y(2) row(2-) by (auto simp: debit_matches_def tx_row_def)
  show "''PLATFORM_RESERVED_COINS'' \<noteq> user_coins u" for u by simp
qed (use X Y(1-5) in \<open>auto simp: tx_row_def open_posting_def quiet_account_def held_def\<close>)

lemma late_duplicate_iwp:
  assumes i: "interference coll e" and l: "survives (open_posting coll d (gq_ViewerID req) bal ts m) (others e n)"
    and X: "open_posting coll d (gq_ViewerID req) bal ts m X"
    and key: "\<forall>y \<in> set ts. wt_TxType y = GIFT_DEBIT \<longrightarrow> coll (wt_RequestID y) \<noteq> coll (gq_RequestID req)"
    and W: "\<And>X. gift_orders (W X) = gift_orders X"
  shows "wp (answer_replay e req h (ret (Err er))) (\<lambda>r c. gift_coexists coll req d r (cdb c)) (at X W n)"
proof -
  let ?J = "open_posting coll d (gq_ViewerID req) bal ts m"
  have c: "coexists coll d X" if "?J X" for X
    using that by (simp add: open_posting_def quiet_account_def)
  show ?thesis
    unfolding answer_replay_def
    by (rule replay_iwp [where J = ?J, OF i X l gift_aborts_among(3) W])
      (use c no_order_without_debit [OF _ key] in \<open>auto simp: gift_answers\<close>)
qed

text \<open>The events go out with whatever was written; what stands at the commit is all that counts.\<close>

lemma gift_publish_iwp:
  assumes J: "J X" "\<And>m. n \<le> m \<Longrightarrow> survives J (others e m)" "survives J (next_event_id_update Suc)"
    and Jc: "\<And>X. J X \<Longrightarrow> coexists coll d X"
    and W: "\<And>X f. J X \<Longrightarrow> coexists coll d (outbox_events_update f (W X)) \<and>
      order_recorded coll req
        \<lparr>gs_GiftOrderID = gid, gs_Accepted = True, gs_ChargedCoins = cu, gs_MatchPointsAdded = pu,
         gs_DiamondReward = du, gs_NewBalance = nb, gs_Idempotency = ''created''\<rparr>
        (outbox_events_update f (W X))"
  shows "wp (gift_publish e req campaign txid gid charged nb cu pu du)
    (\<lambda>r c. gift_coexists coll req d r (cdb c)) (at X W n)"
proof -
  have ab: "aborts Err J (\<lambda>r c. gift_coexists coll req d r (cdb c))"
    using Jc by (simp add: aborts_def gift_answers)
  note bumped = survivesD [OF J(3)]
  show ?thesis
    unfolding gift_publish_def MarshalJSONString_def sum.case exec_outbox_insert_def
    apply (rule ivc_exec_alloc [where J = J, OF J(1) J(2) J(3) ab], simp)
    apply (cases "campaign_ptr campaign"; simp)
     apply (simp add: gift_answers Jc bumped)
    apply (rule ivc_exec_alloc [where J = J, OF bumped J(2) J(3) ab], assumption, simp)
    apply (rule ivc_commit [where J = J, OF bumped J(2) ab], assumption, simp)
    using W by (auto simp: sql_spec gift_answers comp_def)
qed

lemma gift_order_iwp:
  assumes i: "interference coll e" and J: "J = open_posting coll d (gq_ViewerID req) bal ts m" and X: "J X"
    and surv: "\<And>k. n \<le> k \<Longrightarrow> survives J (others e k)"
    and key: "\<forall>y \<in> set ts. wt_TxType y = GIFT_DEBIT \<longrightarrow> coll (wt_RequestID y) \<noteq> coll (gq_RequestID req)"
    and W: "\<And>X. gift_orders (W X) = gift_orders X"
    and com: "\<And>Y f gid pts dia ct. J Y \<Longrightarrow> coexists coll d (outbox_events_update f (gift_orders_update (\<lambda>gs. gs @
      [(order_row req h ACCEPTED None (Some nb))\<lparr>go_GiftOrderID := gid, go_ChargedCoins := of_int charged,
         go_MatchPointsAdded := pts, go_DiamondReward := dia, go_CreatedAt := ct\<rparr>]) (W Y)))"
  shows "wp (on_call (exec_alloc e next_gift_order_id (next_gift_order_id_update Suc)
        (InsertGiftOrder (collate e) (order_row req h ACCEPTED None (Some nb)) charged points diamonds))
      (\<lambda>er. if isDupKey er then answer_replay e req h (ret (Err er)) else ret (Err er))
      (\<lambda>x. if x < 1 then ret (Err (Errorf (bad x)))
        else gift_publish e req campaign txid (of_int x) charged nb (of_int charged) pu du))
    (\<lambda>r c. gift_coexists coll req d r (cdb c)) (at X W n)"
proof -
  have c: "J Y \<Longrightarrow> coexists coll d Y" for Y by (simp add: J open_posting_def quiet_account_def)
  have bump: "survives J (next_gift_order_id_update Suc)" "survives J (next_event_id_update Suc)"
    using bumps_survive(4,5) by (simp_all add: J)
  have ab: "aborts Err J (\<lambda>r c. gift_coexists coll req d r (cdb c))" using gift_aborts_among(3) by (simp add: J)
  show ?thesis
  proof (rule ivc_on_exec_alloc [where J = J, OF X surv bump(1)], simp, goal_cases)
    case (1 er c')
    then show ?case by (simp add: gift_answers c)
  next
    case (2 X er w)
    then have w: "w = id" using insert_failed(1) by blast
    have JX: "J (next_gift_order_id_update Suc X)" by (rule survivesD [OF bump(1) 2(1)])
    show ?case
      using late_duplicate_iwp [OF i _ JX [unfolded J] key] surv c [OF JX] w W by (simp add: gift_answers J)
  next
    case (3 X x w)
    have JX: "J (next_gift_order_id_update Suc X)" by (rule survivesD [OF bump(1) 3(1)])
    show ?case
      by (rule ivc_guard [where J = J, OF JX ab], rule gift_publish_iwp [where J = J, OF JX surv bump(2) c])
        (use 3 com in \<open>auto simp: sql_spec order_recorded_def accepted_def order_row_def W\<close>)
  qed
qed

lemma gift_post_iwp:
  assumes i: "interference coll e" and l: "served_alone e (gq_ViewerID req) n d"
    and X: "quiet_account coll d (gq_ViewerID req) bal ts X" "X = before e n d" and fits: "fits_u32 charged"
  shows "wp (gift_post e req h campaign bal charged points diamonds (of_int charged) pu du)
    (\<lambda>r c. gift_coexists coll req d r (cdb c))
    (at X (wallet_accounts_update (ensure_account (gq_ViewerID req) t)) n)"
proof -
  define v J where "v = gq_ViewerID req" and "J = quiet_account coll d v bal ts"
  note surv = served_alone_survives [where bal = bal and ts = ts, OF i l, folded v_def, folded J_def]
  note ab = gift_aborts_among(2,3) [where coll = coll and d = d and v = v and bal = bal and ts = ts, folded J_def]
  note bump = bumps_survive(3) [where coll = coll and d = d and v = v and bal = bal and ts = ts, folded J_def]
  have JX: "J X" using X by (simp add: J_def v_def)
  note ent = gift_entries_eq [OF fits_u32_in_i64 [OF fits, THEN conjunct2]]
  let ?W = "wallet_accounts_update (ensure_account v t)"
  show ?thesis
    unfolding gift_post_def exec_tx_insert_def exec_order_insert_def
      gift_entries_balanced Let_def v_def [symmetric]
  proof (rule ivc_on_exec_alloc [where J = J, OF JX surv(1) bump], simp, goal_cases)
    case (1 er c')
    then show ?case by (simp add: gift_answers J_def quiet_account_def)
  next
    case (2 X er w)
    then have w: "w = id" using insert_failed(2) by blast
    have c: "coexists coll d (next_tx_id_update Suc X)"
      using 2 bump by (simp add: survives_def J_def quiet_account_def)
    have "wp (answer_replay e req h (ret (Err er))) (\<lambda>r c. gift_coexists coll req d r (cdb c))
        (at (next_tx_id_update Suc X) ?W (Suc n))"
      by (rule answer_replay_iwp [OF i _ _ c]) (simp_all add: gift_answers)
    then show ?case using c w by (auto simp: gift_answers)
  next
    case (3 X x w)
    define m where "m = next_tx_id X"
    note drawn = drawn [OF 3(3) _ i 3(1) [unfolded J_def], folded m_def, simplified]
    show ?case
    proof (cases "x < 1")
      case True
      have "J (next_tx_id_update Suc X)" using bump 3 by (simp add: survives_def)
      with True show ?thesis by (simp add: gift_answers J_def quiet_account_def)
    next
      case False
      let ?J = "open_posting coll d v bal ts m"
      have "m = next_tx_id (before e (Suc n) d)" using 3 by (simp add: m_def X(2))
      then have surv: "survives ?J (others e k)" if "n < k" for k using surv(2) that by blast
      note com = gift_committed_coexists [where bal = bal and ts = ts and m = m and req = req
          and h = h and t = "now e n" and coll = coll and d = d and tc = t
          and tu = "now e (Suc (Suc (Suc n)))", OF _ fits drawn(3) _ _ _ _ _ _ refl, folded v_def]
      have J: "?J = open_posting coll d (gq_ViewerID req) bal ts m" by (simp add: v_def)
      note run = ivc_exec [where J = ?J, OF _ surv ab(2)]
      show ?thesis
        using False unfolding drawn(1,2)
        apply (simp only: if_False simp_thms ent insert_entries.simps)
        apply (rule ivc_exec [where J = ?J, OF drawn(4) [OF False] surv ab(2)], simp)
        apply (rule run, assumption, simp)+
        apply (rule gift_order_iwp [where J = ?J and n = "Suc (Suc (Suc (Suc n)))", OF i J _ _ drawn(3)], assumption)
        subgoal by (rule surv) simp
        subgoal by (simp add: sql_spec)
        subgoal premises p for _ _ _ _ _ _ _ _ _ Y
          using p com [where X = Y] by (simp add: sql_spec order_row_def posting_def accepted_def v_def)
        done
    qed
  qed
qed

lemma gift_charge_iwp:
  assumes i: "interference coll e" and l: "served_alone e (gq_ViewerID req) (Suc (Suc n)) d"
    and X: "coexists coll d X" "X = before e n d"
  shows "wp (gift_charge e req h campaign g match) (\<lambda>r c. gift_coexists coll req d r (cdb c)) (at X id n)"
  unfolding gift_charge_def
proof (rule ivc_exec_at [where J = "coexists coll d", OF X(1) coexists_survives [OF i] gift_aborts_among(1)],
    rule ivc_exec_at [where J = "coexists coll d", OF _ coexists_survives [OF i] gift_aborts_among(1)], assumption,
    goal_cases)
  case (1 X0 x w X bal w')
  let ?v = "gq_ViewerID req" and ?W = "wallet_accounts_update (ensure_account (gq_ViewerID req) (now e n))"
  have W: "w' \<circ> (w \<circ> id) = ?W" using 1 by (auto simp: sql_spec fun_eq_iff)
  have "bal = balance_of ?v X" using 1 by (auto simp: sql_spec dest: find_ensure_balance)
  then have "quiet_account coll d ?v bal (filter (\<lambda>w. wt_ActorUserID w = ?v) (wallet_transactions X)) X"
    using 1 by (simp add: quiet_account_def held_def)
  then have post: "wp (gift_post e req h campaign bal charged points diamonds (of_int charged) pu du)
      (\<lambda>r c. gift_coexists coll req d r (cdb c)) (at X ?W (Suc (Suc n)))"
    if "fits_u32 charged" for charged points diamonds pu du
    by (rule gift_post_iwp [OF i l _ _ that]) (use 1 X(2) in simp)
  have rej: "wp (rejectGift e req h ''INSUFFICIENT_BALANCE'' 409)
      (\<lambda>r c. gift_coexists coll req d r (cdb c)) (at X ?W (Suc (Suc n)))"
    by (rule rejectGift_iwp [OF i]) (use 1 in simp_all)
  define ch where "ch = uint (gc_CoinPrice g) * uint (gq_Quantity req)"
  have nw: "wrap64 ch = ch" by (simp add: ch_def)
  show ?case
    unfolding W Let_def ch_def [symmetric] nw int64ToUint32_eq
    using 1 post rej by (auto simp: gift_answers)
qed

text \<open>
  The call from which a gift holds the account of its viewer: one later when it names a match.
\<close>

definition gift_hold :: "GiftRequest \<Rightarrow> nat" where
  "gift_hold req = (if gq_MatchID req = None then 7 else 8)"

lemma gift_match_iwp:
  assumes i: "interference coll e" and l: "served_alone e (gq_ViewerID req) (gift_hold req) d"
    and X: "coexists coll d X" "X = before e 5 d"
  shows "wp (gift_match e req h campaign g) (\<lambda>r c. gift_coexists coll req d r (cdb c)) (at X id 5)"
proof (cases "gq_MatchID req")
  case None
  then show ?thesis
    using gift_charge_iwp [OF i _ X] l by (simp add: gift_match_def gift_hold_def numeral_eq_Suc)
next
  case (Some mid)
  have rej: "wp (rejectGift e req h code st) (\<lambda>r c. gift_coexists coll req d r (cdb c)) (at X id n)"
    if "coexists coll d X" for X n code st
    by (rule rejectGift_iwp [OF i _ _ that]) simp_all
  show ?thesis
    unfolding gift_match_def Some option.case
  proof (rule ivc_on_exec [where J = "coexists coll d", OF X(1) coexists_survives [OF i]], goal_cases)
    case (3 Y m w)
    then have "Y = before e 6 d" using X(2) by (simp add: numeral_eq_Suc)
    with 3 show ?case
      using rej gift_charge_iwp [OF i _ 3(1), of req 6] l Some by (simp add: sql_spec gift_hold_def)
  qed (use rej in \<open>auto simp: sql_spec gift_answers\<close>)
qed

lemma gift_checks_iwp:
  assumes i: "interference coll e" and l: "served_alone e (gq_ViewerID req) (gift_hold req) d"
    and X: "coexists coll d X" "X = before e 2 d"
  shows "wp (gift_checks e req h) (\<lambda>r c. gift_coexists coll req d r (cdb c)) (at X id 2)"
proof -
  have rej: "wp (rejectGift e req h code st) (\<lambda>r c. gift_coexists coll req d r (cdb c)) (at X id n)"
    if "coexists coll d X" for X n code st
    by (rule rejectGift_iwp [OF i _ _ that]) simp_all
  note read = ivc_on_exec [where J = "coexists coll d", OF _ coexists_survives [OF i]]
  have creator: "wp (check (isCreatorEligible e cid) k) (\<lambda>r c. gift_coexists coll req d r (cdb c)) (at X id 4)"
    if "coexists coll d X"
      "\<And>Y b. coexists coll d Y \<Longrightarrow> Y = others e 4 X \<Longrightarrow> wp (k b) (\<lambda>r c. gift_coexists coll req d r (cdb c)) (at Y id 5)" for X k cid
    unfolding isCreatorEligible_def check_as_def wp_on_call [of "on_call _ _ _"]
    by (rule read) (use that in \<open>auto simp: sql_spec gift_answers\<close>)
  have select: "w = id" if "select_session sid t D = (r, w)" for sid t D r w
    using that by (auto simp: select_session_def split: option.splits if_splits)
  show ?thesis
    unfolding gift_checks_def
    apply (rule read [OF X(1)])
      apply (simp add: gift_answers)
     apply (auto simp: gift_answers dest!: select intro!: rej)[1]
    apply (clarsimp simp: sql_spec)
    apply (intro conjI impI, erule rej)
    apply (erule read)
      apply (simp add: gift_answers)
     apply (auto simp: sql_spec gift_answers intro!: rej)[1]
    apply (clarsimp simp: sql_spec)
    apply (intro conjI impI, erule rej)
    apply (rule creator, assumption)
    using rej gift_match_iwp [OF i l] X(2) by (simp add: numeral_eq_Suc)
qed

lemma SendGift_coexists:
  assumes i: "interference coll e" and l: "served_alone e (gq_ViewerID req) (gift_hold req) d"
    and d: "ledger_inv coll d" and run: "SendGift e req d = (r, d')"
  shows "gift_coexists coll req d r d'"
proof (cases "gift_valid req")
  case True
  show ?thesis
  proof (rule in_tx_iwp [OF run [unfolded SendGift_valid [OF True]], of "coexists coll d"])
    show "coexists coll d (others e 0 d)" using i d by (simp add: interference_def)
    show "wp (answer_replay e req (gift_hash req) (gift_checks e req (gift_hash req)))
        (\<lambda>r c. gift_coexists coll req d r (cdb c)) (at X id 1)" if "coexists coll d X" "X = before e 1 d" for X
      by (rule answer_replay_iwp [OF i _ _ that(1)])
        (use gift_checks_iwp [OF i l] that(2) in \<open>simp_all add: numeral_eq_Suc\<close>)
  qed (simp add: gift_answers)
next
  case False
  then show ?thesis using SendGift_invalid [OF False, of e d] run d by (auto simp: gift_answers)
qed

section \<open>Requests as the interference of other requests\<close>

lemma quiet_interference:
  "quiet e \<Longrightarrow> interference (collate e) e" "quiet e \<Longrightarrow> served_alone e v k d"
  by (simp_all add: interference_def served_alone_def holds_account_def spares_id_def)

text \<open>Something that happens between two calls.\<close>

definition meanwhile_at :: "nat \<Rightarrow> (db \<Rightarrow> db) \<Rightarrow> env \<Rightarrow> env" where
  "meanwhile_at k f e = e\<lparr>others := (others e)(k := f)\<rparr>"

lemma meanwhile_at_simps [simp]:
  "fault_at (meanwhile_at k f e) = fault_at e" "now (meanwhile_at k f e) = now e"
  "collate (meanwhile_at k f e) = collate e" "simple_fold (meanwhile_at k f e) = simple_fold e"
  "others (meanwhile_at k f e) n = (if n = k then f else others e n)"
  by (simp_all add: meanwhile_at_def)

text \<open>The server serves a request alone when everybody else is done before its lock.\<close>

lemma served_alone_meanwhile: "quiet e \<Longrightarrow> k < h \<Longrightarrow> served_alone (meanwhile_at k f e) v h d"
  by (simp add: served_alone_def holds_account_def spares_id_def)

text \<open>
  What a kind of request promises to whoever runs at the same time: \<open>run\<close> serves it, \<open>owner\<close> is
  the user whose account it locks, \<open>hold\<close> the first call under the lock.
\<close>

locale coexisting =
  fixes run :: "env \<Rightarrow> 'q \<Rightarrow> db \<Rightarrow> 'r \<times> db" and owner :: "'q \<Rightarrow> u64" and hold :: "'q \<Rightarrow> nat"
  assumes guarantee: "interference coll e \<Longrightarrow> served_alone e (owner q) (hold q) d \<Longrightarrow> ledger_inv coll d \<Longrightarrow>
    coexists coll d (snd (run e q d))"
begin

lemma backlog:
  assumes "quiet e" and "collate e = coll" and "ledger_inv coll d"
  shows "coexists coll d (fold (\<lambda>q d. snd (run e q d)) qs d)"
  using assms(3)
proof (induction qs arbitrary: d)
  case (Cons q qs)
  have "coexists coll d (snd (run e q d))"
    using guarantee [OF quiet_interference(1,2)] assms(1,2) Cons.prems by blast
  with Cons.IH [OF coexists_ledger [OF this]] show ?case by (auto intro: coexists_trans)
qed simp

text \<open>Requests served in between are interference that any other request puts up with.\<close>

lemma meanwhile:
  assumes "interference coll e" and "quiet e'" and "collate e' = coll"
  shows "interference coll (meanwhile_at k (fold (\<lambda>q d. snd (run e' q d)) qs) e)"
  using assms(1) backlog [OF assms(2,3)] by (auto simp: interference_def)

end

interpretation recharges_coexist: coexisting Recharge rq_ViewerID "\<lambda>_. 4"
  by unfold_locales (metis Recharge_coexists recharge_coexists_def prod.collapse)

interpretation gifts_coexist: coexisting SendGift gq_ViewerID gift_hold
  by unfold_locales (metis SendGift_coexists gift_coexists_def prod.collapse)

text \<open>
  The system in which requests overlap: a step is one of the steps of \<open>System\<close>, or a request that
  meets any interference.
\<close>

inductive overlapping :: "(string \<Rightarrow> string) \<Rightarrow> db \<Rightarrow> db \<Rightarrow> bool" for coll where
  alone: "step coll d d' \<Longrightarrow> overlapping coll d d'"
| recharge: "interference coll e \<Longrightarrow> served_alone e (rq_ViewerID req) 4 d \<Longrightarrow>
     overlapping coll d (snd (Recharge e req d))"
| gift: "interference coll e \<Longrightarrow> served_alone e (gq_ViewerID greq) (gift_hold greq) d \<Longrightarrow>
     overlapping coll d (snd (SendGift e greq d))"

lemma change_grows:
  "change coll d d' \<Longrightarrow> next_tx_id d \<le> next_tx_id d' \<and>
     set (wallet_transactions d) \<subseteq> set (wallet_transactions d') \<and> set (accepted d) \<subseteq> set (accepted d')"
proof (induction rule: change.induct)
  case (gifted e greq d d')
  then show ?case
    by (auto simp: gift_effect_def gift_rejected_def gift_accepted_def Let_def accepted_def split: verdict.splits)
qed (auto simp: untouched_iff recharge_effect_def recharged_def Let_def session_closed_rows settled_def
    ingested_def points_effect_def projected_def claimed_def accepted_def)

lemma step_coexists:
  assumes "step coll d d'" and "ledger_inv coll d"
  shows "coexists coll d d'"
  using assms(1)
proof (cases rule: step_cases)
  case 1
  then show ?thesis
    using change_grows ledger_inv_change [OF _ assms(2)] unposted_change by (auto simp: coexists_def)
next
  case (2 t xs)
  then have "inert (\<lambda>d. marked t xs d)" by (simp add: inert_def marked_def accepted_def balance_of_def)
  from coexists_inert [OF this coexists_refl [OF assms(2)]] show ?thesis using 2 by simp
qed

lemma overlapping_coexists:
  assumes "(overlapping coll)\<^sup>*\<^sup>* d d'" and "ledger_inv coll d"
  shows "coexists coll d d'"
  using assms(1)
proof (induction rule: rtranclp_induct)
  case base
  then show ?case using assms(2) by simp
next
  case (step X Y)
  have "coexists coll X Y"
    using step(2) coexists_ledger [OF step.IH]
    by (cases rule: overlapping.cases)
      (simp_all add: step_coexists recharges_coexist.guarantee gifts_coexist.guarantee)
  with step.IH show ?case by (rule coexists_trans)
qed

end
