(* ===== verification/Race.thy ===== *)
theory Race
  imports Interleave
begin

text \<open>
  Two schedules that go wrong. A gift can overtake the end of its session: \<open>SendGift\<close> reads the
  session with a plain \<open>SELECT\<close>, which takes no lock, and never looks at it again; a close that
  commits right after that read does not stop the gift, and neither does the settlement of the
  closed session, which then lacks the gift. Served one after the other, the two requests exclude this: in \<open>System\<close> a
  closed session takes no more orders. And of two equal recharges at the same time one is answered
  with an internal error.
\<close>

section \<open>One call\<close>

text \<open>A call that does not fail, on whatever the others left.\<close>

lemma one_exec_alloc:
  "fault_at e n = None \<Longrightarrow> on_call (exec_alloc e ctr bump q) h k (at D W n) =
     (case q (ctr (others e n D)) (now e n) (W (others e n D)) of
       (Inl er, w) \<Rightarrow> h er (at (bump (others e n D)) (w \<circ> W) (Suc n))
     | (Inr x, w) \<Rightarrow> k x (at (bump (others e n D)) (w \<circ> W) (Suc n)))"
  by (auto simp: on_call_def exec_alloc_def Let_def view_def arrive_def split: prod.splits sum.splits)

lemma one_exec:
  "fault_at e n = None \<Longrightarrow> on_call (exec e q) h k (at D W n) =
     (case q (now e n) (W (others e n D)) of
       (Inl er, w) \<Rightarrow> h er (at (others e n D) (w \<circ> W) (Suc n))
     | (Inr x, w) \<Rightarrow> k x (at (others e n D) (w \<circ> W) (Suc n)))"
  by (simp add: exec_def one_exec_alloc split: prod.splits sum.splits)

lemma one_begin:
  "fault_at e 0 = None \<Longrightarrow>
     in_tx e body fail d = (case body (at (others e 0 d) id 1) of (r, c) \<Rightarrow> (r, cdb c))"
  by (simp add: in_tx_def on_call_def BeginTx_def connect_def arrive_def Rollback_def split: prod.splits)

section \<open>The rest of a run without faults\<close>

definition calm_from :: "nat \<Rightarrow> env \<Rightarrow> bool" where
  "calm_from k e \<longleftrightarrow> (\<forall>n \<ge> k. fault_at e n = None \<and> (\<forall>d. others e n d = d))"

lemma calm_fromD:
  "calm_from k e \<Longrightarrow> k \<le> n \<Longrightarrow> fault_at e n = None" "calm_from k e \<Longrightarrow> k \<le> n \<Longrightarrow> others e n d = d"
  by (simp_all add: calm_from_def)

lemma rest_exec_alloc:
  "calm_from k e \<Longrightarrow> k \<le> n \<Longrightarrow> on_call (exec_alloc e ctr bump q) h kk (at D W n) =
     (case q (ctr D) (now e n) (W D) of
       (Inl er, w) \<Rightarrow> h er (at (bump D) (w \<circ> W) (Suc n))
     | (Inr x, w) \<Rightarrow> kk x (at (bump D) (w \<circ> W) (Suc n)))"
  by (simp add: one_exec_alloc calm_fromD split: prod.splits sum.splits)

lemma rest_exec:
  "calm_from k e \<Longrightarrow> k \<le> n \<Longrightarrow> on_call (exec e q) h kk (at D W n) =
     (case q (now e n) (W D) of
       (Inl er, w) \<Rightarrow> h er (at D (w \<circ> W) (Suc n))
     | (Inr x, w) \<Rightarrow> kk x (at D (w \<circ> W) (Suc n)))"
  by (simp add: one_exec calm_fromD split: prod.splits sum.splits)

lemma rest_commit:
  "calm_from k e \<Longrightarrow> k \<le> n \<Longrightarrow> on_call (Commit e) h kk (at D W n) = kk () (at (W D) id (Suc n))"
  by (simp add: calm_fromD on_call_def Commit_def Let_def arrive_def)

lemmas rest_simps = check_as_def rest_exec_alloc rest_exec rest_commit on_call_nested

lemma rest_gift_post:
  assumes c: "calm_from k e" "k \<le> n" and en: "gift_enabled e req d" and gf: "gift_fits e req d"
    and fits: "fits_u32 charged" "fits_u32 points" "fits_u32 diamonds"
    and camp: "case (campaign :: u64 option) of None \<Rightarrow> True | Some c \<Rightarrow> uint c < 2 ^ 63"
  shows "\<exists>ts c'. gift_post e req (gift_hash req) (map_option uint campaign) (balance_of (gq_ViewerID req) d)
      charged points diamonds (of_int charged) (of_int points) (of_int diamonds)
      (at d (wallet_accounts_update (ensure_account (gq_ViewerID req) t)) n) =
    (Ok (gift_created req charged points diamonds d), c') \<and>
    cdb c' = gift_accepted req campaign charged points diamonds ts d"
proof -
  have ids: "\<not> last_insert_id (next_tx_id d) < 1" "\<not> last_insert_id (next_gift_order_id d) < 1"
    using en last_insert_id_pos by (simp_all add: gift_enabled_def)
  have dup: "\<not> list_ex (\<lambda>x. we_TxID x = of_nat (next_tx_id d) \<and> P x) (wallet_entries d)" for P
    using gf by (auto simp: gift_fits_def list_ex_iff)
  have rng: "\<not> list_ex (\<lambda>x. x < 0 \<or> 2 ^ 32 \<le> x) [charged, points, diamonds]"
    using fits by (auto simp: fits_u32_def)
  have known: "gift_known e req d = None" using en by (simp add: gift_enabled_def)
  note ent = gift_entries_eq [OF fits_u32_in_i64 [OF fits(1), THEN conjunct2]]
  show ?thesis
    apply (rule exI [where x = "(!) [t, now e n, now e (n + 3), now e (n + 4), now e (n + 5), now e (n + 6)]"])
    using c gf en ids dup rng not_known [OF known]
    by (simp add: gift_post_def gift_publish_def rest_simps exec_tx_insert_def
        exec_order_insert_def exec_outbox_insert_def InsertWalletTransaction_def
        InsertGiftOrder_def InsertOutboxEvent_def InsertWalletEntry_def UpdateWalletBalance_def
        id_exhausted_def order_row_def gift_fits_def gift_enabled_def MarshalJSONString_def ret_def
        giftAcceptedTopic_def walletTopic_def not_too_long SumLedgerEntries_wraps ent Let_def
        campaign_ptr_scanned [OF camp] user_coins_fits gift_created_def gift_accepted_def accepted_order_def
        outbox_row_def call_offset)
qed

lemma rest_gift_charge:
  assumes c: "calm_from k e" "k \<le> n" and en: "gift_enabled e req d" and gf: "gift_fits e req d"
    and camp: "case (campaign :: u64 option) of None \<Rightarrow> True | Some c \<Rightarrow> uint c < 2 ^ 63"
    and verdict: "charge_verdict e req campaign g match (balance_of (gq_ViewerID req) d) =
      Charge campaign charged points diamonds"
  shows "\<exists>ts c'. gift_charge e req (gift_hash req) (map_option uint campaign) g match (at d id n) =
      (Ok (gift_created req charged points diamonds d), c') \<and>
    cdb c' = gift_accepted req campaign charged points diamonds ts d"
proof -
  let ?v = "gq_ViewerID req"
  obtain a where a: "find (\<lambda>a. wa_UserID a = ?v) (ensure_account ?v (now e n) (wallet_accounts d)) = Some a"
      "wa_AvailableBalance a = balance_of ?v d"
    using find_ensure_account find_ensure_balance by blast
  define ch pts dia where amounts:
    "ch = uint (gc_CoinPrice g) * uint (gq_Quantity req)"
    "pts = match_points_for e req match (uint (gc_MatchPoints g) * uint (gq_Quantity req))"
    "dia = uint (gc_DiamondReward g) * uint (gq_Quantity req)"
  have nw: "wrap64 ch = ch" "wrap64 dia = dia" by (simp_all add: amounts)
  have v: "charged = ch" "points = pts" "diamonds = dia" "0 < ch" "fits_u32 ch" "fits_u32 pts" "fits_u32 dia"
    "ch \<le> balance_of ?v d"
    using verdict by (auto simp: charge_verdict_def Let_def amounts split: if_splits)
  obtain ts c' where post: "gift_post e req (gift_hash req) (map_option uint campaign) (balance_of ?v d)
      ch pts dia (of_int ch) (of_int pts) (of_int dia)
      (at d (wallet_accounts_update (ensure_account ?v (now e n))) (Suc (Suc n))) =
      (Ok (gift_created req ch pts dia d), c')" "cdb c' = gift_accepted req campaign ch pts dia ts d"
    using rest_gift_post [OF c(1) _ en gf v(5-7) camp, of "Suc (Suc n)" "now e n"] c(2) by auto
  have "gift_charge e req (gift_hash req) (map_option uint campaign) g match (at d id n) =
      (Ok (gift_created req ch pts dia d), c')"
    unfolding gift_charge_def Let_def product_no_wrap [of "gc_MatchPoints g"] amounts [symmetric] nw int64ToUint32_eq
    using a c gf post v by (simp add: rest_simps upsert_wallet_account_def GetWalletAccountForUpdate_def gift_fits_def)
  with post v show ?thesis by blast
qed

lemma rest_gift_match:
  assumes c: "calm_from k e" "k \<le> n" and en: "gift_enabled e req d" and gf: "gift_fits e req d"
    and camp: "case (campaign :: u64 option) of None \<Rightarrow> True | Some c \<Rightarrow> uint c < 2 ^ 63"
    and m: "open_match req d = Some match"
    and verdict: "charge_verdict e req campaign g match (balance_of (gq_ViewerID req) d) =
      Charge campaign charged points diamonds"
  shows "\<exists>ts c'. gift_match e req (gift_hash req) (map_option uint campaign) g (at d id n) =
      (Ok (gift_created req charged points diamonds d), c') \<and>
    cdb c' = gift_accepted req campaign charged points diamonds ts d"
proof (cases "gq_MatchID req")
  case None
  then show ?thesis using rest_gift_charge [OF c en gf camp verdict] m by (simp add: gift_match_def open_match_def)
next
  case (Some mid)
  then obtain x where "find (\<lambda>m. lm_MatchID m = mid) (live_matches d) = Some x" "match = Some x"
    "lm_LiveSessionID x = gq_LiveSessionID req" "lm_Status x = MATCH_OPEN"
    using m by (auto simp: open_match_def split: option.splits if_splits)
  with Some show ?thesis
    using rest_gift_charge [OF c(1) _ en gf camp verdict, of "Suc n"] c
    by (simp add: gift_match_def rest_simps GetLiveMatch_def)
qed

section \<open>Overtaking\<close>

text \<open>The policy depends on neither faults nor other transactions.\<close>

lemma meanwhile_at_policy [simp]:
  "creator_policy (meanwhile_at k f e) u = creator_policy e u"
  "match_points_for (meanwhile_at k f e) req match pts = match_points_for e req match pts"
  "gift_known (meanwhile_at k f e) req d = gift_known e req d"
  by (auto simp: creator_policy_def match_points_for_def gift_known_def split: option.splits)

lemma meanwhile_at_verdict [simp]:
  "charge_verdict (meanwhile_at k f e) req campaign g match bal = charge_verdict e req campaign g match bal"
  "gift_enabled (meanwhile_at k f e) req d = gift_enabled e req d"
  "gift_fits (meanwhile_at k f e) req d = gift_fits e req d"
  by (simp_all add: charge_verdict_def gift_enabled_def gift_fits_def)

text \<open>
  The third call of a gift reads its session; what happens before the next one, \<open>f\<close>, is unseen as
  far as the session goes.
\<close>

lemma SendGift_overtakes:
  assumes c: "calm e" and v: "gift_valid req" and new: "gift_known e req d = None"
    and dec: "gift_decision e req d = Charge campaign charged points diamonds"
    and f: "gift_catalog (f d) = gift_catalog d" "users (f d) = users d" "live_matches (f d) = live_matches d"
      "wallet_accounts (f d) = wallet_accounts d" "gift_enabled e req (f d)" "gift_fits e req (f d)"
  shows "\<exists>ts. SendGift (meanwhile_at 3 f e) req d =
    (Ok (gift_created req charged points diamonds (f d)),
     gift_accepted req campaign charged points diamonds ts (f d))"
proof -
  let ?e = "meanwhile_at 3 f e"
  obtain s g u match where s: "find (\<lambda>s. ls_LiveSessionID s = gq_LiveSessionID req) (live_sessions d) = Some s"
      "ls_Status s = SESSION_OPEN" "case ls_CampaignID s of None \<Rightarrow> True | Some c \<Rightarrow> uint c < 2 ^ 63"
    and g: "find (\<lambda>g. collate e (gc_GiftID g) = collate e (gq_GiftID req)) (gift_catalog d) = Some g" "gc_Enabled g"
    and u: "find (\<lambda>u. us_UserID u = gq_CreatorID req) (users d) = Some u" "creator_policy e u"
    and m: "open_match req d = Some match"
    and cv: "charge_verdict e req (ls_CampaignID s) g match (balance_of (gq_ViewerID req) d) =
      Charge campaign charged points diamonds"
    using dec by (auto simp: gift_decision_def eligible_def split: option.splits if_splits)
  have camp: "campaign = ls_CampaignID s" using cv by (auto simp: charge_verdict_def Let_def split: if_splits)
  have c4: "calm_from 4 ?e" unfolding calm_from_def using calm_quiet [OF c] c by (simp add: calm_def)
  have "open_match req (f d) = Some match" "balance_of (gq_ViewerID req) (f d) = balance_of (gq_ViewerID req) d"
    using m f(3,4) by (simp_all add: open_match_def balance_of_def cong: option.case_cong)
  then obtain ts c' where "gift_match ?e req (gift_hash req) (map_option uint campaign) g (at (f d) id (Suc (Suc (Suc (Suc (Suc 0)))))) =
      (Ok (gift_created req charged points diamonds (f d)), c')"
      "cdb c' = gift_accepted req campaign charged points diamonds ts (f d)"
    using rest_gift_match [OF c4 _ _ _ _ _ _, of "Suc (Suc (Suc (Suc (Suc 0))))" req "f d" campaign match g] s(3) cv f(5,6) camp by auto
  moreover have "find (\<lambda>g. go_ViewerID g = gq_ViewerID req \<and>
      collate e (go_RequestID g) = collate e (gq_RequestID req)) (gift_orders d) = None"
    using new by (simp add: gift_known_def)
  moreover have "select_session (gq_LiveSessionID req) t d = (Inr (SESSION_OPEN, map_option uint campaign), id)" for t
    using s camp by (simp add: sql_spec)
  moreover have "\<And>n. fault_at e n = None" using c by (simp add: calm_def)
  ultimately have "SendGift ?e req d = (Ok (gift_created req charged points diamonds (f d)),
      gift_accepted req campaign charged points diamonds ts (f d))"
    using calm_quiet [OF c] g u f(1,2)
    by (simp add: SendGift_valid [OF v] one_begin one_exec answer_replay_def replayGiftIfExists_def check_as_def
        on_call_nested GetGiftOrderByRequest_def gift_checks_def GetGiftCatalogItem_def isCreatorEligible_def
        GetUser_def)
  then show ?thesis by blast
qed

section \<open>The end of a session\<close>

lemma CloseLiveSession_runs:
  assumes c: "calm e" and "sid \<noteq> 0" and "open_session sid d" and "next_event_id d < 2 ^ 64"
  shows "\<exists>t t'. CloseLiveSession e sid d = (Ok (), session_closed e sid t t' d)"
proof -
  have "filter (closes sid) (live_sessions d) \<noteq> []"
    using assms(3) by (auto simp: open_session_closes list_ex_iff filter_empty_conv)
  with c assms(2,4) have "fst (CloseLiveSession e sid d) = Ok ()"
    by (simp add: CloseLiveSession_def MarshalJSONString_def run_in_tx close_tx_def run_simps CloseSessionRow_def
        exec_outbox_insert_def InsertOutboxEvent_def id_exhausted_def sessionClosedTopic_def not_too_long ret_def)
  then obtain d' where run: "CloseLiveSession e sid d = (Ok (), d')" by (metis prod.collapse)
  with CloseLiveSession_cases [OF calm_quiet [OF c] run] show ?thesis
    by (auto simp: close_result_def close_refused_def)
qed

text \<open>
  The handler of the close request, and the settlement worker on the event it leaves.
\<close>

definition end_session :: "env \<Rightarrow> u64 \<Rightarrow> db \<Rightarrow> db" where
  "end_session e sid d = snd (GenerateSettlement e sid (snd (CloseLiveSession e sid d)))"

lemma end_session_runs:
  assumes c: "calm e" and sid: "sid \<noteq> 0" "open_session sid d" and ids: "next_event_id d < 2 ^ 64"
    and fits: "in_i64 (gross_spend sid d)" "in_i64 (diamond_total sid d)"
    and inv: "ledger_inv (collate e) d" "collate e ''U'' \<noteq> collate e ''P''"
  shows "\<exists>t t' s s'. end_session e sid d = settled (collate e) sid s s' (session_closed e sid t t' d)"
proof -
  obtain t t' where run: "CloseLiveSession e sid d = (Ok (), session_closed e sid t t' d)"
    using CloseLiveSession_runs [OF c sid ids] by blast
  let ?d = "session_closed e sid t t' d"
  have "list_ex (\<lambda>s. ls_LiveSessionID s = sid) (close_rows i t ss) = list_ex (\<lambda>s. ls_LiveSessionID s = sid) ss"
    for i ss by (induction ss) (auto simp: close_rows_def)
  then have "session_exists sid ?d"
    using sid(2) by (auto simp: session_exists_def open_session_def session_closed_rows list_ex_iff)
  moreover have "gross_spend sid ?d = gross_spend sid d" "diamond_total sid ?d = diamond_total sid d"
    by (simp_all add: gross_spend_def diamond_total_def session_orders_def session_closed_def)
  moreover have "wallet_debits (collate e) sid ?d = gross_spend sid ?d"
    using ledger_inv_change [OF change.closed [OF sid(2) ids] inv(1)] inv(2) by (rule wallet_debits_eq_gross)
  ultimately obtain s s' where "end_session e sid d = settled (collate e) sid s s' ?d"
    using GenerateSettlement_runs [OF c, of sid ?d] fits run by (auto simp: end_session_def)
  then show ?thesis by blast
qed

text \<open>
  The gift is accepted and charged, its session is closed, and the settlement on record does not
  have it.
\<close>

lemma gift_misses_settlement:
  assumes c: "calm e" and v: "gift_valid req" and en: "gift_enabled e req d" and gf: "gift_fits e req d"
    and dec: "gift_decision e req d = Charge campaign charged points diamonds"
    and room: "Suc (Suc (next_event_id d)) < 2 ^ 64"
    and fits: "in_i64 (gross_spend (gq_LiveSessionID req) d)" "in_i64 (diamond_total (gq_LiveSessionID req) d)"
    and inv: "ledger_inv (collate e) d" "collate e ''U'' \<noteq> collate e ''P''"
  shows "\<exists>rs d' row. SendGift (meanwhile_at 3 (end_session e (gq_LiveSessionID req)) e) req d = (Ok rs, d') \<and>
    gs_ChargedCoins rs = of_int charged \<and> 0 < charged \<and>
    \<not> open_session (gq_LiveSessionID req) d' \<and>
    gross_spend (gq_LiveSessionID req) d' = gross_spend (gq_LiveSessionID req) d + charged \<and>
    find (\<lambda>r. ss_LiveSessionID r = gq_LiveSessionID req) (stream_settlements d') = Some row \<and>
    ss_GrossCoinSpend row = gross_spend (gq_LiveSessionID req) d"
proof -
  let ?sid = "gq_LiveSessionID req" and ?f = "end_session e (gq_LiveSessionID req)"
  have sid: "?sid \<noteq> 0" "open_session ?sid d"
    using v gift_needs_open_session [OF dec] by (simp_all add: gift_valid_def)
  obtain t t' s s' where f: "?f d = settled (collate e) ?sid s s' (session_closed e ?sid t t' d)"
    using end_session_runs [OF c sid _ fits inv] room by auto
  let ?d = "settled (collate e) ?sid s s' (session_closed e ?sid t t' d)"
  note rows = f settled_def session_closed_rows
  have same: "gift_enabled e req (?f d)" "gift_fits e req (?f d)"
    using en gf room by (simp_all add: rows gift_enabled_def gift_known_def gift_fits_def user_exists_def)
  obtain ts where run: "SendGift (meanwhile_at 3 ?f e) req d =
      (Ok (gift_created req charged points diamonds (?f d)), gift_accepted req campaign charged points diamonds ts (?f d))"
    using SendGift_overtakes [OF c v _ dec, of ?f] en same by (auto simp: gift_enabled_def rows)
  have ch: "0 < charged" "uint (of_int charged :: u32) = charged"
    using charge_fits [OF dec] by (simp_all add: fits_u32_def unsigned_of_int take_bit_int_eq_self)
  have "\<not> open_session ?sid (gift_accepted req campaign charged points diamonds ts (?f d))"
    by (auto simp: open_session_def rows gift_accepted_def Let_def close_rows_def closes_def list_ex_iff)
  moreover have "gross_spend ?sid (gift_accepted req campaign charged points diamonds ts (?f d)) =
      gross_spend ?sid d + charged"
    using ch by (simp add: gross_spend_def session_orders_def rows gift_accepted_def Let_def accepted_order_def
        order_row_def)
  ultimately show ?thesis
    using run ch
    by (auto simp: gift_created_def rows gift_accepted_def Let_def settlement_row_def gross_spend_def session_orders_def)
qed

section \<open>Two equal recharges\<close>

text \<open>
  Two copies of a recharge that both looked for its row before either was committed: the first one
  credits the coins, the second one runs into the unique key of the transactions and answers with an
  internal error instead of the replay that it gets a moment later. \<open>SendGift\<close> has a
  branch for this case, \<open>Recharge\<close> has none.
\<close>

lemma equal_recharges_collide:
  assumes c: "calm e" and v: "recharge_valid req" and en: "recharge_enabled e req d" and fits: "recharge_fits e req d"
  shows "\<exists>ts d'. Recharge (meanwhile_at 2 (\<lambda>d. snd (Recharge e req d)) e) req d = (Err (MySQLError mysql_dup_entry), d') \<and>
    d' = next_tx_id_update Suc (recharged req ts d) \<and>
    Recharge e req d' = (Ok ((recharge_created req d)\<lparr>rs_Idempotency := ''replayed''\<rparr>), d')"
proof -
  let ?v = "rq_ViewerID req"
  obtain ts where run: "snd (Recharge e req d) = recharged req ts d"
    using Recharge_runs [OF assms] by (metis snd_conv)
  let ?D = "recharged req ts d"
  have q: "quiet e" "\<And>n. fault_at e n = None" using c by (simp_all add: calm_def)
  have new: "find (\<lambda>r. rr_ViewerID r = ?v \<and>
      collate e (rr_RequestID r) = collate e (rq_RequestID req)) (recharge_requests d) = None"
    using en by (simp add: recharge_enabled_def recharge_known_def)
  obtain a where a: "find (\<lambda>a. wa_UserID a = ?v)
      (ensure_account ?v (now e (Suc (Suc 0))) (wallet_accounts ?D)) = Some a"
    using find_ensure_account by blast
  have D: "user_exists ?v ?D" "next_tx_id ?D = Suc (next_tx_id d)"
    "list_ex (\<lambda>w. wt_ActorUserID w = ?v \<and> wt_TxType w = RECHARGE \<and>
       collate e (wt_RequestID w) = collate e (rq_RequestID req)) (wallet_transactions ?D)"
    using en by (simp_all add: recharged_def recharge_enabled_def Let_def user_exists_def)
  have room: "\<not> id_exhausted (Suc (next_tx_id d))" "\<not> too_long 64 (rq_RequestID req)"
    using en fits by (simp_all add: recharge_enabled_def recharge_fits_def id_exhausted_def)
  have "Recharge (meanwhile_at 2 (\<lambda>d. snd (Recharge e req d)) e) req d =
      (Err (MySQLError mysql_dup_entry), next_tx_id_update Suc ?D)"
    using q new a D room run
    by (simp add: Recharge_valid [OF v] one_begin one_exec one_exec_alloc recharge_tx_def recharge_post_def
        check_as_def exec_tx_insert_def GetRechargeRequest_def upsert_wallet_account_def
        GetWalletAccountForUpdate_def InsertWalletTransaction_def ret_def)
  moreover obtain ex where ex: "recharge_known e req ?D = Some ex"
      "rr_BodyHash ex = request_hash (RechargeRequest_json req)"
      "recharge_replayed req ex = (recharge_created req d)\<lparr>rs_Idempotency := ''replayed''\<rparr>"
    using recharged_known [of e req d e ts] en by (auto simp: recharge_enabled_def)
  then have "recharge_known e req (next_tx_id_update Suc ?D) = Some ex" by (simp add: recharge_known_def)
  from Recharge_known [OF c v this] ex(2,3) have
    "Recharge e req (next_tx_id_update Suc ?D) =
      (Ok ((recharge_created req d)\<lparr>rs_Idempotency := ''replayed''\<rparr>), next_tx_id_update Suc ?D)" by simp
  ultimately show ?thesis by blast
qed

end
