(* ===== verification/Closing.thy ===== *)
theory Closing
  imports Race
begin

text \<open>
  The end of a session is final for whatever starts after it. A request that begins when the
  session is closed neither reopens it nor adds an accepted order to it, also when other
  transactions commit between its calls, as long as those leave closed sessions alone. What it
  does not cover is the gift of \<open>Race\<close>, which had read the session before the close.
\<close>

section \<open>What is left alone\<close>

definition shut :: "u64 \<Rightarrow> GiftOrder list \<Rightarrow> db \<Rightarrow> bool" where
  "shut sid gs d \<longleftrightarrow> \<not> open_session sid d \<and> session_orders sid d = gs"

text \<open>The other transactions that commit during a request, and the writes of the request itself.\<close>

definition honours :: "u64 \<Rightarrow> env \<Rightarrow> bool" where
  "honours sid e \<longleftrightarrow>
     (\<forall>n d. \<not> open_session sid d \<longrightarrow>
        \<not> open_session sid (others e n d) \<and> session_orders sid (others e n d) = session_orders sid d)"

definition leaves_shut :: "u64 \<Rightarrow> (db \<Rightarrow> db) \<Rightarrow> bool" where
  "leaves_shut sid w \<longleftrightarrow> (\<forall>gs d. shut sid gs d \<longrightarrow> shut sid gs (w d))"

lemma shut_others: "honours sid e \<Longrightarrow> shut sid gs d \<Longrightarrow> shut sid gs (others e n d)"
  by (auto simp: honours_def shut_def)

lemma leaves_shutD: "leaves_shut sid w \<Longrightarrow> shut sid gs d \<Longrightarrow> shut sid gs (w d)"
  by (simp add: leaves_shut_def)

lemma leaves_shut_comp [simp]: "leaves_shut sid id" "leaves_shut sid v \<Longrightarrow> leaves_shut sid w \<Longrightarrow> leaves_shut sid (v \<circ> w)"
  by (simp_all add: leaves_shut_def)

lemma leaves_shut_tables [simp]:
  "leaves_shut sid (wallet_accounts_update f1)" "leaves_shut sid (wallet_transactions_update f2)"
  "leaves_shut sid (wallet_entries_update f3)" "leaves_shut sid (recharge_requests_update f4)"
  "leaves_shut sid (outbox_events_update f5)" "leaves_shut sid (stream_settlements_update f6)"
  "leaves_shut sid (reconciliation_results_update f7)"
  "leaves_shut sid (next_tx_id_update f8)" "leaves_shut sid (next_gift_order_id_update f9)"
  "leaves_shut sid (next_event_id_update f10)"
  by (simp_all add: leaves_shut_def shut_def open_session_def session_orders_def)

lemma leaves_shut_order [simp]:
  "go_LiveSessionID g \<noteq> sid \<or> go_Status g \<noteq> ACCEPTED \<Longrightarrow> leaves_shut sid (gift_orders_update (\<lambda>gs. gs @ [g]))"
  by (auto simp: leaves_shut_def shut_def open_session_def session_orders_def)

lemma leaves_shut_close [simp]: "leaves_shut sid (live_sessions_update (close_rows s t))"
proof -
  have "\<not> list_ex (closes sid) (close_rows s t ss)" if "\<not> list_ex (closes sid) ss" for ss
    using that close_rows_closes [of _ s t ss sid] by (auto simp: list_ex_iff)
  then show ?thesis by (simp add: leaves_shut_def shut_def open_session_closes session_orders_def)
qed

section \<open>Programs that leave a closed session alone\<close>

definition keeps_shut :: "u64 \<Rightarrow> 'r prog \<Rightarrow> bool" where
  "keeps_shut sid m \<longleftrightarrow>
     (\<forall>gs c r c'. shut sid gs (cdb c) \<longrightarrow> leaves_shut sid (own c) \<longrightarrow> m c = (r, c') \<longrightarrow>
        shut sid gs (cdb c') \<and> leaves_shut sid (own c'))"

lemma keeps_shutD:
  assumes "keeps_shut sid m" and "m c = (r, c')" and "shut sid gs (cdb c)" and "leaves_shut sid (own c)"
  shows "shut sid gs (cdb c')" and "leaves_shut sid (own c')"
  using assms unfolding keeps_shut_def by blast+

named_theorems keeps_intros

lemma keeps_ret [keeps_intros]: "keeps_shut sid (ret x)"
  by (simp add: keeps_shut_def ret_def)

text \<open>What follows a call only matters for the results that the call can have.\<close>

lemma keeps_on_call_if:
  assumes st: "keeps_shut sid st" and h: "\<And>er. keeps_shut sid (h er)"
    and k: "\<And>gs c x c1. st c = (Inr x, c1) \<Longrightarrow> shut sid gs (cdb c) \<Longrightarrow> leaves_shut sid (own c) \<Longrightarrow>
      keeps_shut sid (k x)"
  shows "keeps_shut sid (on_call st h k)"
  unfolding keeps_shut_def
proof (intro allI impI)
  fix gs c r c' assume c: "shut sid gs (cdb c)" "leaves_shut sid (own c)" "on_call st h k c = (r, c')"
  obtain y c1 where run: "st c = (y, c1)" by force
  note c1 = keeps_shutD [OF st run c(1,2)]
  show "shut sid gs (cdb c') \<and> leaves_shut sid (own c')"
  proof (cases y)
    case (Inl er)
    then have "h er c1 = (r, c')" using c(3) run by (simp add: on_call_def)
    from keeps_shutD [OF h this c1] show ?thesis by simp
  next
    case (Inr x)
    then have "k x c1 = (r, c')" using c(3) run by (simp add: on_call_def)
    from keeps_shutD [OF k [OF run [unfolded Inr] c(1,2)] this c1] show ?thesis by simp
  qed
qed

lemma keeps_on_call [keeps_intros]:
  "keeps_shut sid st \<Longrightarrow> (\<And>er. keeps_shut sid (h er)) \<Longrightarrow> (\<And>x. keeps_shut sid (k x)) \<Longrightarrow>
     keeps_shut sid (on_call st h k)"
  by (rule keeps_on_call_if)

lemma keeps_check [keeps_intros]:
  "keeps_shut sid st \<Longrightarrow> (\<And>x. keeps_shut sid (k x)) \<Longrightarrow> keeps_shut sid (check_as f st k)"
  unfolding check_as_def by (intro keeps_intros)

lemma keeps_if [keeps_intros]:
  "(b \<Longrightarrow> keeps_shut sid m) \<Longrightarrow> (\<not> b \<Longrightarrow> keeps_shut sid m') \<Longrightarrow> keeps_shut sid (if b then m else m')"
  by simp

lemma keeps_exec_alloc:
  assumes "honours sid e" and "leaves_shut sid bump" and "\<And>n t d r w. q n t d = (r, w) \<Longrightarrow> leaves_shut sid w"
  shows "keeps_shut sid (exec_alloc e ctr bump q)"
  unfolding keeps_shut_def
  using shut_others [OF assms(1)] leaves_shutD [OF assms(2)] assms(3)
  by (auto simp: exec_alloc_def arrive_def Let_def split: option.splits fault.splits prod.splits)

lemma keeps_exec:
  "honours sid e \<Longrightarrow> (\<And>t d r w. q t d = (r, w) \<Longrightarrow> leaves_shut sid w) \<Longrightarrow> keeps_shut sid (exec e q)"
  unfolding exec_def by (rule keeps_exec_alloc) auto

lemma keeps_commit: "honours sid e \<Longrightarrow> keeps_shut sid (Commit e)"
  unfolding keeps_shut_def
  using shut_others leaves_shutD
  by (auto simp: Commit_def arrive_def Let_def split: option.splits fault.splits)

text \<open>A read of the closed session, whose result is known to satisfy \<open>P\<close>.\<close>

lemma keeps_read:
  assumes e: "honours sid e" and q: "\<And>t d r w. q t d = (r, w) \<Longrightarrow> w = id"
    and P: "\<And>t d x w. \<not> open_session sid d \<Longrightarrow> q t d = (Inr x, w) \<Longrightarrow> P x"
    and h: "\<And>er. keeps_shut sid (h er)" and k: "\<And>x. P x \<Longrightarrow> keeps_shut sid (k x)"
  shows "keeps_shut sid (on_call (exec e q) h k)"
proof (rule keeps_on_call_if [OF keeps_exec [OF e] h k])
  show "leaves_shut sid w" if "q t d = (r, w)" for t d r w using q [OF that] by simp
next
  fix gs c x c1 assume run: "exec e q c = (Inr x, c1)" and c: "shut sid gs (cdb c)" "leaves_shut sid (own c)"
  have "\<not> open_session sid (own c (others e (calls c) (cdb c)))"
    using leaves_shutD [OF c(2) shut_others [OF e c(1)]] by (simp add: shut_def)
  with run P show "P x"
    by (auto simp: exec_def exec_alloc_def arrive_def view_def Let_def
        split: option.splits fault.splits prod.splits)
qed

lemma keeps_in_tx:
  assumes "honours sid e" and "keeps_shut sid body" and "shut sid gs d"
  shows "shut sid gs (snd (in_tx e body fail d))"
proof -
  have d: "shut sid gs (others e 0 d)" using shut_others assms(1,3) by blast
  obtain r c where body: "body (at (others e 0 d) id 1) = (r, c)" by force
  have "shut sid gs (cdb c)" by (rule keeps_shutD(1) [OF assms(2) body]) (use d in simp_all)
  with d body show ?thesis
    by (simp add: in_tx_def Rollback_def on_call_def BeginTx_def Let_def arrive_def
      connect_def ret_def split: option.splits fault.splits)
qed

section \<open>Statements and programs of the service\<close>

lemma keeps_cases [keeps_intros]:
  "keeps_shut sid n \<Longrightarrow> (\<And>x. keeps_shut sid (f x)) \<Longrightarrow> keeps_shut sid (case opt of None \<Rightarrow> n | Some x \<Rightarrow> f x)"
  "(\<And>x. keeps_shut sid (l x)) \<Longrightarrow> (\<And>y. keeps_shut sid (r y)) \<Longrightarrow> keeps_shut sid (case_sum l r s)"
  "(\<And>x y. keeps_shut sid (g x y)) \<Longrightarrow> keeps_shut sid (case_prod g p)"
  "(\<And>x. keeps_shut sid (h x)) \<Longrightarrow> keeps_shut sid (let x = v in h x)"
  by (simp_all split: option.split sum.split prod.split)

lemma reads_spare:
  "GetWalletAccountForUpdate u t d = (r, w) \<Longrightarrow> w = id"
  "GetRechargeRequest coll u rid t d = (r1, w) \<Longrightarrow> w = id"
  "GetGiftOrderByRequest coll u rid t d = (r2, w) \<Longrightarrow> w = id"
  "select_session i t d = (r3, w) \<Longrightarrow> w = id" "GetLiveSession i t d = (r4, w) \<Longrightarrow> w = id"
  "GetGiftCatalogItem coll rid t d = (r5, w) \<Longrightarrow> w = id" "GetUser u t d = (r6, w) \<Longrightarrow> w = id"
  "GetLiveMatch i t d = (r7, w) \<Longrightarrow> w = id" "SelectSessionExists i t d = (r8, w) \<Longrightarrow> w = id"
  "SelectOrderTotals i t d = (r9, w) \<Longrightarrow> w = id" "SelectWalletDebits coll i t d = (r10, w) \<Longrightarrow> w = id"
  "SelectSettlement i t d = (r11, w) \<Longrightarrow> w = id" "SelectContributors n i t d = (r12, w) \<Longrightarrow> w = id"
  by (auto simp: GetWalletAccountForUpdate_def GetRechargeRequest_def GetGiftOrderByRequest_def select_session_def
      GetLiveSession_def GetGiftCatalogItem_def GetUser_def GetLiveMatch_def SelectSessionExists_def
      SelectOrderTotals_def SelectWalletDebits_def SelectSettlement_def SelectContributors_def
      split: option.splits if_splits sum.splits)

lemma writes_spare:
  "upsert_wallet_account u t d = (r, w) \<Longrightarrow> leaves_shut sid w"
  "UpdateWalletBalance b u t d = (r, w) \<Longrightarrow> leaves_shut sid w"
  "InsertWalletTransaction coll ty u rid h n t d = (r', w) \<Longrightarrow> leaves_shut sid w"
  "InsertWalletEntry coll x code b t d = (r, w) \<Longrightarrow> leaves_shut sid w"
  "InsertRechargeRequest coll row t d = (r, w) \<Longrightarrow> leaves_shut sid w"
  "InsertOutboxEvent topic key payload n t d = (r, w) \<Longrightarrow> leaves_shut sid w"
  "CloseSessionRow i t d = (m, w) \<Longrightarrow> leaves_shut sid w"
  "UpsertSettlement i g k dia t d = (r, w) \<Longrightarrow> leaves_shut sid w"
  "UpsertReconciliation i st b os mis js t d = (r, w) \<Longrightarrow> leaves_shut sid w"
  by (auto simp: upsert_wallet_account_def UpdateWalletBalance_def InsertWalletTransaction_def InsertWalletEntry_def
      InsertRechargeRequest_def InsertOutboxEvent_def CloseSessionRow_def UpsertSettlement_def UpsertReconciliation_def
      split: if_splits)

lemma order_insert_spares:
  "InsertGiftOrder coll row ch pts dia n t d = (r, w) \<Longrightarrow>
     go_LiveSessionID row \<noteq> sid \<or> go_Status row \<noteq> ACCEPTED \<Longrightarrow> leaves_shut sid w"
  by (auto simp: InsertGiftOrder_def split: if_splits)

lemma keeps_reads [keeps_intros]:
  assumes "honours sid e"
  shows "keeps_shut sid (exec e (GetWalletAccountForUpdate u))"
    "keeps_shut sid (exec e (GetRechargeRequest coll u rid))"
    "keeps_shut sid (exec e (GetGiftOrderByRequest coll u rid))"
    "keeps_shut sid (exec e (select_session i))" "keeps_shut sid (exec e (GetLiveSession i))"
    "keeps_shut sid (exec e (GetGiftCatalogItem coll rid))" "keeps_shut sid (exec e (GetUser u))"
    "keeps_shut sid (exec e (GetLiveMatch i))" "keeps_shut sid (exec e (SelectSessionExists i))"
    "keeps_shut sid (exec e (SelectOrderTotals i))" "keeps_shut sid (exec e (SelectWalletDebits coll i))"
  by (rule keeps_exec [OF assms], drule reads_spare, simp)+

lemma keeps_writes [keeps_intros]:
  assumes "honours sid e"
  shows "keeps_shut sid (exec e (upsert_wallet_account u))"
    "keeps_shut sid (exec e (UpdateWalletBalance b u))"
    "keeps_shut sid (exec_tx_insert e (InsertWalletTransaction coll ty u rid h))"
    "keeps_shut sid (exec e (InsertWalletEntry coll x code b))"
    "keeps_shut sid (exec e (InsertRechargeRequest coll row))"
    "keeps_shut sid (exec_outbox_insert e (InsertOutboxEvent topic key payload))"
    "keeps_shut sid (exec e (CloseSessionRow i))"
    "keeps_shut sid (exec e (UpsertSettlement i g k dia))"
    "keeps_shut sid (exec e (UpsertReconciliation i st b os mis js))"
  unfolding exec_tx_insert_def exec_outbox_insert_def exec_def
  by (rule keeps_exec_alloc [OF assms], simp, erule writes_spare)+

declare keeps_commit [keeps_intros]

lemma keeps_order_insert:
  assumes "honours sid e" and "go_LiveSessionID row \<noteq> sid \<or> go_Status row \<noteq> ACCEPTED"
  shows "keeps_shut sid (exec_order_insert e (InsertGiftOrder coll row ch pts dia))"
  unfolding exec_order_insert_def
  by (rule keeps_exec_alloc [OF assms(1)], simp, erule order_insert_spares [OF _ assms(2)])

lemma keeps_entries [keeps_intros]:
  "honours sid e \<Longrightarrow> keeps_shut sid k \<Longrightarrow> keeps_shut sid (insert_entries e x xs k)"
  by (induction xs) (auto intro!: keeps_intros)

lemma keeps_recharge_tx: "honours sid e \<Longrightarrow> keeps_shut sid (recharge_tx e req h)"
  unfolding recharge_tx_def recharge_post_def by (intro keeps_intros; assumption)

lemma keeps_close_tx: "honours sid e \<Longrightarrow> keeps_shut sid (close_tx e i payload)"
  unfolding close_tx_def close_missed_def by (intro keeps_intros; assumption)

text \<open>The settlement is read back outside the transaction.\<close>

lemma keeps_auto_read:
  assumes "honours sid e" and "\<And>t d r w. q t d = (r, w) \<Longrightarrow> w = id"
  shows "keeps_shut sid (auto_exec e q)"
  unfolding keeps_shut_def
proof (intro allI impI)
  fix gs c r c' assume c: "shut sid gs (cdb c)" "leaves_shut sid (own c)" "auto_exec e q c = (r, c')"
  obtain y c1 where run: "exec e q c = (y, c1)" by force
  have k: "keeps_shut sid (exec e q)" by (rule keeps_exec [OF assms(1)]) (use assms(2) in fastforce)
  from c(3) run have "c' = c1\<lparr>cdb := own c1 (cdb c1), own := id\<rparr>"
    by (simp add: auto_exec_def auto_exec_alloc_def exec_def)
  with keeps_shutD [OF k run c(1,2)] show "shut sid gs (cdb c') \<and> leaves_shut sid (own c')"
    by (simp add: leaves_shutD)
qed

lemma keeps_settlement_answer: "honours sid e \<Longrightarrow> keeps_shut sid (settlement_answer e i)"
proof -
  assume e: "honours sid e"
  have "keeps_shut sid (auto_exec e (SelectSettlement i))" "keeps_shut sid (auto_exec e (SelectContributors 20 i))"
    by (rule keeps_auto_read [OF e], drule reads_spare, simp)+
  then have "keeps_shut sid (GetSettlement e i)"
    unfolding GetSettlement_def by (intro keeps_intros)
  moreover have "\<exists>r'. GetSettlement e i c = (r', c')" if "settlement_answer e i c = (r, c')" for c r c'
    using that by (auto simp: settlement_answer_def split: prod.splits outcome.splits)
  ultimately show ?thesis unfolding keeps_shut_def by meson
qed

lemma keeps_settlement_tx: "honours sid e \<Longrightarrow> keeps_shut sid (settlement_tx e i)"
  unfolding settlement_tx_def by (intro keeps_intros keeps_settlement_answer; assumption)

section \<open>Gifts\<close>

lemma keeps_replay [keeps_intros]: "honours sid e \<Longrightarrow> keeps_shut sid (replayGiftIfExists e req h)"
  unfolding replayGiftIfExists_def by (intro keeps_intros; assumption)

lemma keeps_answer_replay [keeps_intros]:
  "honours sid e \<Longrightarrow> keeps_shut sid k \<Longrightarrow> keeps_shut sid (answer_replay e req h k)"
  unfolding answer_replay_def by (intro keeps_intros; assumption)

lemma keeps_reject [keeps_intros]: "honours sid e \<Longrightarrow> keeps_shut sid (rejectGift e req h code st)"
  unfolding rejectGift_def by (intro keeps_intros keeps_order_insert) (assumption | simp add: order_row_def)+

lemma keeps_publish [keeps_intros]:
  "honours sid e \<Longrightarrow> keeps_shut sid (gift_publish e req campaign x i ch bal cu pu du)"
  unfolding gift_publish_def by (intro keeps_intros; assumption)

text \<open>A gift of another session may be charged; one of the closed session never gets that far.\<close>

lemma keeps_charge:
  "honours sid e \<Longrightarrow> gq_LiveSessionID req \<noteq> sid \<Longrightarrow> keeps_shut sid (gift_charge e req h campaign g match)"
  unfolding gift_charge_def gift_post_def
  by (intro keeps_intros keeps_order_insert) (assumption | simp add: order_row_def)+

lemma keeps_eligible [keeps_intros]: "honours sid e \<Longrightarrow> keeps_shut sid (isCreatorEligible e cid)"
  unfolding isCreatorEligible_def by (intro keeps_intros; assumption)

lemma select_closed:
  assumes "\<not> open_session sid d" and "select_session sid t d = (Inr (st, campaign), w)"
  shows "st \<noteq> SESSION_OPEN"
  using assms find_SomeD
  by (fastforce simp: select_session_def open_session_def list_ex_iff split: option.splits if_splits)

lemma keeps_gift_checks:
  assumes e: "honours sid e"
  shows "keeps_shut sid (gift_checks e req h)"
proof (cases "gq_LiveSessionID req = sid")
  case True
  show ?thesis
    unfolding gift_checks_def True
    by (rule keeps_read [where P = "\<lambda>x. fst x \<noteq> SESSION_OPEN", OF e reads_spare(4)])
      (auto dest: select_closed intro!: keeps_intros e)
next
  case False
  show ?thesis
    unfolding gift_checks_def gift_match_def
    by (intro keeps_intros keeps_charge [OF _ False]; rule e)
qed

section \<open>Requests after the close\<close>

text \<open>
  What a kind of request promises to a closed session: started after the close, it leaves the
  session as it is, whoever else runs at the same time.
\<close>

locale after_the_end =
  fixes run :: "env \<Rightarrow> 'q \<Rightarrow> db \<Rightarrow> 'r \<times> db"
  assumes guarantee: "honours sid e \<Longrightarrow> shut sid gs d \<Longrightarrow> shut sid gs (snd (run e q d))"
begin

lemma backlog: "honours sid e \<Longrightarrow> shut sid gs d \<Longrightarrow> shut sid gs (fold (\<lambda>q d. snd (run e q d)) qs d)"
  by (induction qs arbitrary: d) (simp_all add: guarantee)

text \<open>Such requests are in turn what another request can have beside it.\<close>

lemma meanwhile:
  assumes "honours sid e" and "honours sid e'"
  shows "honours sid (meanwhile_at k (fold (\<lambda>q d. snd (run e' q d)) qs) e)"
proof -
  have "shut sid (session_orders sid d) (fold (\<lambda>q d. snd (run e' q d)) qs d)" if "\<not> open_session sid d" for d
    by (rule backlog [OF assms(2)]) (use that in \<open>simp add: shut_def\<close>)
  with assms(1) show ?thesis by (simp add: honours_def shut_def)
qed

end

interpretation recharges_after: after_the_end Recharge
proof unfold_locales
  fix sid e gs d req assume *: "honours sid e" "shut sid gs d"
  show "shut sid gs (snd (Recharge e req d))"
    using * keeps_in_tx [OF *(1) keeps_recharge_tx [OF *(1)] *(2)]
    by (simp add: Recharge_def split: sum.split prod.split)
qed

interpretation gifts_after: after_the_end SendGift
proof unfold_locales
  fix sid e gs d req assume *: "honours sid e" "shut sid gs d"
  show "shut sid gs (snd (SendGift e req d))"
    using * keeps_in_tx [OF *(1) keeps_answer_replay [OF *(1) keeps_gift_checks [OF *(1)]] *(2)]
    by (simp add: SendGift_def split: sum.split prod.split)
qed

interpretation closes_after: after_the_end CloseLiveSession
proof unfold_locales
  fix sid e gs d i assume *: "honours sid e" "shut sid gs d"
  show "shut sid gs (snd (CloseLiveSession e i d))"
    using * keeps_in_tx [OF *(1) keeps_close_tx [OF *(1)] *(2)]
    by (simp add: CloseLiveSession_def split: sum.split)
qed

interpretation settlements_after: after_the_end GenerateSettlement
  by unfold_locales (simp add: GenerateSettlement_def keeps_in_tx keeps_settlement_tx)

text \<open>
  The steps of the system from the close on: those of \<open>System\<close>, and requests that start now and
  that other transactions interrupt at every call, under any faults.
\<close>

inductive after_close :: "(string \<Rightarrow> string) \<Rightarrow> u64 \<Rightarrow> db \<Rightarrow> db \<Rightarrow> bool" for coll sid where
  alone: "step coll d d' \<Longrightarrow> after_close coll sid d d'"
| recharge: "honours sid e \<Longrightarrow> after_close coll sid d (snd (Recharge e req d))"
| gift: "honours sid e \<Longrightarrow> after_close coll sid d (snd (SendGift e greq d))"
| close: "honours sid e \<Longrightarrow> after_close coll sid d (snd (CloseLiveSession e i d))"
| settle: "honours sid e \<Longrightarrow> after_close coll sid d (snd (GenerateSettlement e i d))"

lemma step_shut: "step coll d d' \<Longrightarrow> shut sid gs d \<Longrightarrow> shut sid gs d'"
  using closed_session_stable [of coll sid gs] unfolding stable_def shut_def
  by (elim step_cases) blast+

lemma after_close_shut: "(after_close coll sid)\<^sup>*\<^sup>* d d' \<Longrightarrow> shut sid gs d \<Longrightarrow> shut sid gs d'"
proof (induction rule: rtranclp_induct)
  case (step X Y)
  from step(2) show ?case
    by (cases rule: after_close.cases)
      (use step in \<open>simp_all add: step_shut recharges_after.guarantee gifts_after.guarantee
        closes_after.guarantee settlements_after.guarantee\<close>)
qed

lemma quiet_honours [simp]: "quiet e \<Longrightarrow> honours sid e"
  by (simp add: honours_def)

end
