(* ===== verification/Demo.thy ===== *)
theory Demo
  imports Projection Binaries Queries Closing
begin

text \<open>
  Concrete runs over the demo data, for the properties of the projectors and of the read models:
  the state after the demo gift, the event that announces it, and the state after the points
  projector has taken that event.
\<close>

lemma seed_projection [simp]: "projection_inv seed_db"
  by (simp add: projection_inv_def placed_def accepted_rows_def accepted_orders_def seed_db_def)

lemma seed_empty [simp]:
  "gift_orders seed_db = []" "outbox_events seed_db = []" "consumer_dedupe seed_db = []"
  "next_gift_order_id seed_db = 1" "next_event_id seed_db = 1"
  by (simp_all add: seed_db_def)

lemma after_gift_tables:
  "\<exists>bal t o1 u. consumer_dedupe after_gift = [] \<and> live_sessions after_gift = live_sessions seed_db \<and>
     gift_orders after_gift = [accepted_order demo_gift 1 1 1 bal 1 t] \<and>
     outbox_events after_gift =
       [o1, outbox_row 2 giftAcceptedTopic (FormatUint (gq_LiveSessionID demo_gift))
          (gift_accepted_event demo_gift 1 (Some 7001) 1 1 1) u] \<and>
     oe_Topic o1 = walletTopic"
proof -
  obtain ts where a: "after_gift = gift_accepted demo_gift (Some 7001) 1 1 1 ts seed_db"
    using after_gift_accepted by blast
  have "consumer_dedupe after_gift = []" "live_sessions after_gift = live_sessions seed_db"
    by (simp_all add: a gift_accepted_def Let_def)
  moreover have "gift_orders after_gift =
      [accepted_order demo_gift 1 1 1 (wrap64 (balance_of (gq_ViewerID demo_gift) seed_db - 1)) 1 (ts 3)]"
    by (simp add: a gift_accepted_def Let_def)
  moreover have "\<exists>o1. outbox_events after_gift =
       [o1, outbox_row 2 giftAcceptedTopic (FormatUint (gq_LiveSessionID demo_gift))
          (gift_accepted_event demo_gift 1 (Some 7001) 1 1 1) (ts 5)] \<and> oe_Topic o1 = walletTopic"
    by (simp add: a gift_accepted_def Let_def outbox_row_def numeral_2_eq_2)
  ultimately show ?thesis by blast
qed

lemma demo_exact: "exact_totals [demo_accepted]"
  by (simp add: exact_totals_def demo_accepted_def)

lemma after_gift_no_claims: "consumer_dedupe after_gift = []"
  using after_gift_tables by blast

lemma after_gift_carries: "carries [(2, demo_accepted)] (accepted_rows after_gift)"
  using after_gift_tables
  by (auto simp: carries_def accepted_rows_def outbox_row_def gift_accepted_event_def demo_accepted_def
      demo_gift_def)

lemma after_gift_rebuildable: "rebuildable 9001 after_gift"
  using after_gift_tables
  by (auto simp: seed_db_def rebuildable_def int64_ids_def session_orders_def campaign_orders_def
      accepted_order_def order_row_def demo_gift_def)

definition after_points :: db where
  "after_points = snd (project_points demo_env (1, demo_point) seed_db)"

lemma after_points_fits:
  "length (campaign_points 7001 after_points) = 1"
  "list_all (\<lambda>x. fits_int32 (cp_Points x)) (campaign_points 7001 after_points)"
proof -
  obtain ts where a: "after_points = projected (1, demo_point) ts seed_db"
    using project_points_new [OF demo_env_calm(1), of "(1, demo_point)" seed_db] demo_point_ready
    by (auto simp: after_points_def)
  show "length (campaign_points 7001 after_points) = 1"
    "list_all (\<lambda>x. fits_int32 (cp_Points x)) (campaign_points 7001 after_points)"
    by (simp_all add: a projected_def demo_point_def demo_accepted_def campaign_points_def seed_db_def fits_int32_def)
qed

text \<open>An outbox row with the event of a gift, and the points projector on its message.\<close>

definition gift_outbox_row :: "u32 \<Rightarrow> OutboxEvent" where
  "gift_outbox_row k = outbox_row 1 giftAcceptedTopic ''9001''
     (marshal_gift_accepted (demo_accepted\<lparr>lga_ChargedCoins := k\<rparr>)) 0"

lemma gift_outbox_row_simps [simp]:
  "oe_EventID (gift_outbox_row k) = 1" "oe_Topic (gift_outbox_row k) = giftAcceptedTopic"
  "oe_PayloadJson (gift_outbox_row k) = marshal_gift_accepted (demo_accepted\<lparr>lga_ChargedCoins := k\<rparr>)"
  by (simp_all add: gift_outbox_row_def outbox_row_def)

lemma demo_accepted_same [simp]: "demo_accepted\<lparr>lga_ChargedCoins := 1\<rparr> = demo_accepted"
  by (simp add: demo_accepted_def)

lemma demo_reprints: "reprints json_text (marshal_gift_accepted (demo_accepted\<lparr>lga_ChargedCoins := k\<rparr>))"
  unfolding marshal_gift_accepted_def
  by (rule json_text_reprints)
    (simp_all add: demo_accepted_def giftAcceptedTopic_def omitempty_def json_word_def rune_error_def)

lemma demo_gift_message:
  "point_event_of sf (sent json_text (gift_outbox_row k)) =
     Some (1, GiftEvent (demo_accepted\<lparr>lga_ChargedCoins := k\<rparr>))"
  using sent_gift(1) [of "gift_outbox_row k" "demo_accepted\<lparr>lga_ChargedCoins := k\<rparr>" json_text sf]
  by (simp add: demo_reprints)

lemma demo_worker_env: "worker_env (\<lambda>s. s) (simple_fold demo_env) demo_env"
  by (simp add: worker_env_def)

lemma demo_consumed:
  "\<exists>d. consumed points_message (worker_env (\<lambda>s. s) (simple_fold demo_env)) (points_kept (\<lambda>s. s))
     (map (sent json_text) [gift_outbox_row 1]) seed_db 1 d"
proof -
  let ?m = "sent json_text (gift_outbox_row 1)"
  obtain ts where run: "project_points demo_env (1, demo_point) seed_db = (Inr (), projected (1, demo_point) ts seed_db)"
    using project_points_new [OF demo_env_calm(1), of "(1, demo_point)" seed_db] demo_point_ready by auto
  have "points_message demo_env ?m seed_db = (Inr ''applied'', projected (1, demo_point) ts seed_db)"
    using points_message_event [OF demo_gift_message, of demo_env 1 seed_db] run
    by (simp add: demo_point_def mark_as_def)
  then have claim: "ConsumeClaim points_message (zip [demo_env] (drop 0 [?m])) seed_db =
      (Inr (), [(?m, ''applied'')], projected (1, demo_point) ts seed_db)"
    by simp
  show ?thesis
    using consumed.session [OF consumed.start _ _ claim, where c' = 1] demo_worker_env by auto
qed

text \<open>The contributors of the demo session, read over HTTP after the projector has seen the gift.\<close>

definition demo_board :: redis where
  "demo_board = snd (consume_all demo_env (\<lambda>_. Acked 0) [(2, demo_accepted)] (after_gift, Map.empty))"

definition demo_api :: "redis option \<Rightarrow> api_env" where
  "demo_api s = \<lparr>ae_env = demo_env, ae_redis = s, ae_redis_fails = False\<rparr>"

definition demo_get :: http_request where
  "demo_get = \<lparr>hr_Method = ''GET'', hr_Path = ''/v1/lives/9001/contributors'', hr_limit = ''20'',
     hr_Body = [], hr_RequestID = []\<rparr>"

lemma FormatUint_9001: "FormatUint 9001 = ''9001''"
  by (simp add: FormatUint_def dec.simps digit_def)

lemma demo_board_current: "redis_current (demo_api (Some demo_board)) after_gift"
proof -
  have "tracks [demo_accepted] demo_board"
    using consume_all_tracks [OF demo_env_calm(1) _ carries_new tracks_empty, of "\<lambda>_. Acked 0" "[(2, demo_accepted)]" after_gift]
      after_gift_carries after_gift_events(1) after_gift_no_claims demo_exact
    by (simp add: demo_board_def once_def)
  moreover have "[demo_accepted] = map (order_event after_gift) (accepted_orders after_gift)"
    using carries_orders [OF after_gift_carries]
      reachable_invariant [OF after_gift_reachable seed_projection projection_stable] by simp
  ultimately show ?thesis by (simp add: redis_current_def demo_api_def)
qed

lemma demo_gross: "in_i64 (gross_spend 9001 after_gift)"
  using after_gift_tables
  by (auto simp: gross_spend_def session_orders_def accepted_order_def order_row_def demo_gift_def in_i64_def)

lemma wrap_answers: "\<exists>w s' d'. wrap route (\<lambda>r d. Some (h r d)) r st = Some (w, s', d')"
  by (auto simp: wrap_def Let_def split: prod.split)

lemma demo_get_served: "\<exists>w s' d'. ServeHTTP (demo_api b) demo_get (New_server, d) = Some (w, s', d')"
  using wrap_answers [of "''lives_prefix''" "handleLivesPrefix (demo_api b)" demo_get "(New_server, d)"]
  by (simp add: ServeHTTP_def routes_def demo_get_def pattern_matches_def)

section \<open>Comments up to the cap\<close>

definition demo_comment :: LiveCommentCreatedV1 where
  "demo_comment = \<lparr>lcc_EventID = ''c-1'', lcc_ViewerID = 2001, lcc_CreatorID = 1001, lcc_LiveSessionID = 9001\<rparr>"

text \<open>\<open>k\<close> comments of one viewer, numbered from 0.\<close>

primrec after_comments :: "nat \<Rightarrow> db" where
  "after_comments 0 = seed_db"
| "after_comments (Suc k) = snd (project_points demo_env (of_nat k, CommentEvent demo_comment) (after_comments k))"

lemma after_comments_reachable: "reachable (\<lambda>s. s) seed_db (after_comments k)"
proof (induction k)
  case (Suc k)
  have "step (\<lambda>s. s) (after_comments k) (after_comments (Suc k))"
    unfolding after_comments.simps by (rule step.request, rule serve.points) simp_all
  with Suc show ?case unfolding reachable_def by (rule rtranclp.rtrancl_into_rtrancl)
qed (simp add: reachable_def)

lemma after_comments_rows:
  "k \<le> 100 \<Longrightarrow> users (after_comments k) = users seed_db \<and> live_sessions (after_comments k) = live_sessions seed_db \<and>
     list_all (\<lambda>r. unat (fp_EventID r) < k) (fan_point_ledger (after_comments k)) \<and>
     list_all (\<lambda>r. unat (cd_EventID r) < k) (consumer_dedupe (after_comments k)) \<and>
     fan_count 2001 9001 COMMENT (after_comments k) = min k 20"
proof (induction k)
  case 0
  then show ?case by (simp add: seed_db_def fan_count_def)
next
  case (Suc k)
  let ?d = "after_comments k" and ?ev = "(of_nat k :: u64, CommentEvent demo_comment)"
  have k: "unat (of_nat k :: u64) = k" using Suc.prems by (simp add: unat_of_nat take_bit_nat_eq_self)
  have old: "users ?d = users seed_db" "live_sessions ?d = live_sessions seed_db"
    "list_all (\<lambda>r. unat (fp_EventID r) < k) (fan_point_ledger ?d)"
    "list_all (\<lambda>r. unat (cd_EventID r) < k) (consumer_dedupe ?d)" "fan_count 2001 9001 COMMENT ?d = min k 20"
    using Suc by simp_all
  have new: "\<not> list_ex (\<lambda>x. fp_EventID x = of_nat k) (fan_point_ledger ?d)"
    "\<not> dedupe_known pointsConsumer (collate demo_env) (fst ?ev) ?d"
    using old(3,4) k by (auto simp: list_all_iff list_ex_iff dedupe_known_def)
  have "projectable ?ev ?d"
    using old(1,2) new(1)
    by (simp add: projectable_def demo_comment_def fan_row_def fits_int32_def user_exists_def session_exists_def
        seed_db_def seed_user_def)
  from project_points_new [OF demo_env_calm(1) new(2) this] obtain ts where
    run: "after_comments (Suc k) = projected ?ev ts ?d" by auto
  show ?case
    unfolding run projected_def using old k
    by (auto simp: demo_comment_def fan_row_def dedupe_row_def fan_count_def list_all_iff less_Suc_eq)
qed

section \<open>After the end of a session\<close>

text \<open>The demo session, closed with one order in it, and another gift for it.\<close>

definition after_end :: db where
  "after_end = snd (CloseLiveSession demo_env 9001 after_gift)"

definition late_gift :: GiftRequest where
  "late_gift = demo_gift\<lparr>gq_RequestID := ''demo-gift-2''\<rparr>"

lemma after_end_closed:
  "\<not> open_session 9001 after_end" "session_exists 9001 after_end" "gross_spend 9001 after_end = 1"
proof -
  obtain ts where a: "after_gift = gift_accepted demo_gift (Some 7001) 1 1 1 ts seed_db"
    using after_gift_accepted by blast
  have "open_session 9001 after_gift" "next_event_id after_gift < 2 ^ 64"
    unfolding a by (simp_all add: gift_accepted_def Let_def open_session_def seed_db_def)
  then obtain t t' where end_eq: "after_end = session_closed demo_env 9001 t t' after_gift"
    using CloseLiveSession_runs [OF demo_env_calm(1), of 9001 after_gift] by (auto simp: after_end_def)
  have "list_ex (\<lambda>s. ls_LiveSessionID s = 9001) (close_rows 9001 t ss) = list_ex (\<lambda>s. ls_LiveSessionID s = 9001) ss" for ss
    by (induction ss) (auto simp: close_rows_def)
  with after_gift_session(1) show "session_exists 9001 after_end"
    by (simp add: end_eq session_closed_rows session_exists_def)
  show "\<not> open_session 9001 after_end" "gross_spend 9001 after_end = 1"
    using after_gift_session(2) unfolding end_eq
    by (auto simp: session_closed_def open_session_def gross_spend_def session_orders_def list_ex_iff)
qed

section \<open>The generated queries\<close>

lemma demo_columns:
  "enum_texts demo_env" "column_time demo_env 400 = Some (now demo_env (calls (connect d)))"
proof -
  have "find (\<lambda>i. names ! i = names ! k) [0..<length names] = Some k"
    if "distinct names" "k < length names" for names :: "string list" and k
    using that by (auto simp: find_Some_iff nth_eq_iff_index_eq intro!: exI [of _ k])
  then show "enum_texts demo_env" by (simp add: enum_texts_def demo_env_def)
qed (simp add: demo_env_def connect_def)

text \<open>The order of the demo gift and the request row of the demo recharge, as the services insert them.\<close>

definition demo_order :: GiftOrder where
  "demo_order = order_row demo_gift (gift_hash demo_gift) ACCEPTED None (Some 999)"

definition demo_request_row :: RechargeRow where
  "demo_request_row =
     \<lparr>rr_ViewerID = 2001, rr_RequestID = ''demo-recharge-1'',
      rr_BodyHash = request_hash (RechargeRequest_json demo_recharge), rr_Coins = 500, rr_PaymentRef = ''pay-1'',
      rr_ResultingBalance = 1500, rr_TxID = 1, rr_CreatedAt = 0\<rparr>"

lemma demo_order_ready:
  "length (go_BodyHash demo_order) = 32" "length (rr_BodyHash demo_request_row) = 32"
  "case go_MatchID demo_order of None \<Rightarrow> True | Some m \<Rightarrow> uint m < 2 ^ 63"
  by (simp_all add: demo_order_def order_row_def gift_hash_def request_hash_def demo_request_row_def demo_gift_def
      nullableUint64_def)

lemma demo_order_insert:
  "fst (exec_order_insert demo_env (InsertGiftOrder (collate demo_env) demo_order 1 1 1) (connect seed_db)) = Inr 1"
  by (simp add: exec_order_insert_def exec_alloc_def arrive_def connect_def view_def Let_def demo_env_def
      InsertGiftOrder_def demo_order_def order_row_def demo_gift_def seed_db_def id_exhausted_def last_insert_id_def
      too_long_def runes_def codes_def wrap64_def)

end
