(* ===== verification/Spec2Isabelle.thy ===== *)
theory Spec2Isabelle
  imports Demo
begin

text \<open>
  A verification development of the live revenue lab, a Go system in which viewers buy coins and
  spend them on gifts to creators during live sessions.

  \<^bold>\<open>The program.\<close> An HTTP API (\<open>internal/app/api\<close>) calls a service (\<open>internal/service\<close>) that writes to
  MySQL: recharges, gifts, session closing, and the ingest of comments and watched minutes. Each
  write puts an event into the table \<open>outbox_events\<close>, mostly in the transaction of the write. A relay
  (\<open>internal/outbox\<close>) polls that table and sends the events to Kafka. Three consumers read them: the
  points projector writes the point ledgers in MySQL, the leaderboard projector keeps sorted sets
  and hashes in Redis, and the settlement worker computes the settlement of a closed session and
  reconciles its orders with the ledger. The API reads boards from Redis and, when Redis fails or
  is not configured, from MySQL.

  \<^bold>\<open>How it is modelled.\<close> MySQL is a record of tables (\<open>db\<close>); a statement is a function from the visible
  state to its result and its write; a handler is a program over a connection that commits or
  rolls back. The environment \<open>env\<close> decides for every call whether it fails, or takes effect without
  being acknowledged, gives the times, and holds what is not in the repository: the collation of the
  columns, case folding beyond ASCII, the texts of driver errors, how MySQL prints a JSON value, what it
  keeps of a Go time and which member of an ENUM it takes a text for.
  Every early return and every error of the source is a branch. Go's unsigned integers are words of
  their width; its signed 64-bit numbers are integers whose wrap-around is written out.

  \<^bold>\<open>Theories.\<close>

  \<^item> \<open>Prelude\<close>, \<open>GoStrings\<close>, \<open>Digest\<close>: integers, results and shared lemmas; what the source uses of
    \<open>strconv\<close>, \<open>strings\<close> and \<open>utf8\<close>; \<open>json.Marshal\<close> and the SHA-256 digest of request bodies.
  \<^item> \<open>Store\<close>, \<open>Sql\<close>, \<open>Tx\<close>, \<open>Retry\<close>: the rows of \<open>store/sqlcgen/models.go\<close>; statements with the
    constraints of the migrations, transactions with faults; a weakest-precondition calculus for
    them; the contract \<open>deduplicating\<close> of a handler that recognises its requests.
  \<^item> \<open>Events\<close>: the payloads of \<open>events/events.go\<close>. \<open>Enums\<close>: the \<open>Scan\<close> and \<open>Value\<close> methods of the eleven
    enumerations, through the locale \<open>sql_enum\<close>.
  \<^item> \<open>Wallet\<close>, \<open>Gift\<close>, \<open>Settlement\<close>, \<open>Ingest\<close>, \<open>ReadModels\<close>: \<open>Recharge\<close> of \<open>service.go\<close>, \<open>SendGift\<close> of
    \<open>gift.go\<close>, the three operations of \<open>settlement.go\<close>, both of \<open>internal_events.go\<close>, both queries of
    \<open>read_models.go\<close>. \<open>Ranking\<close>: the grouped and limited sums that these queries share.
  \<^item> \<open>Points\<close>: the points projector. \<open>Relay\<close>: one run of the relay against a broker. \<open>Redis\<close>,
    \<open>Leaderboard\<close>, \<open>Boards\<close>, \<open>LiveBoards\<close>: the leaderboard projector, what a rebuild writes, and what the
    boards hold when they grow event by event.
  \<^item> \<open>Json\<close>, \<open>JsonText\<close>, \<open>JsonFuel\<close>, \<open>Codec\<close>: \<open>encoding/json\<close> as a reader, that it undoes the printer,
    and the structs that the consumers and the API decode.
  \<^item> \<open>Workers\<close>: the message handlers and claim loops of the consumers in \<open>cmd/\<close>, the restarts of their
    group, the one-shot flags and the relay's polling loop.
  \<^item> \<open>Api\<close>: the handlers, the routes and the wrapper of \<open>server.go\<close>, \<open>httpx.go\<close> and \<open>config.go\<close>.
  \<^item> \<open>Binaries\<close>: the five mains of \<open>cmd/\<close> with \<open>db/mysql.go\<close>, from the configuration to the deferred
    calls; what they leave open, and that a consumer does not end on a signal.
  \<^item> \<open>Queries\<close>: the generated methods of \<open>db.go\<close> and \<open>live_revenue.sql.go\<close>, and that they do what the
    statements of the services do.
  \<^item> \<open>Seed\<close>, \<open>Demo\<close>: the demo data of the migrations and runs over it, for the witnesses.
  \<^item> \<open>Ledger\<close>, \<open>System\<close>, \<open>World\<close>, \<open>Projection\<close>: invariants of the committed effects; the service as a
    transition system; service, relay and broker together; from the orders to the boards.
  \<^item> \<open>Interleave\<close>, \<open>Race\<close>, \<open>Closing\<close>: requests among whose calls others commit, by rely and guarantee; a
    gift that overtakes the close of its session, and two equal recharges that collide; what starts
    after a close leaves the session as it is.

  \<^bold>\<open>What is shown.\<close> Each request is all or nothing under any faults and refines a policy stated over the
  tables, is applied at most once however often it is retried, and is answered when nothing fails.
  Balances, postings, orders and events agree in every reachable state, so that reconciliation
  passes. The relay marks only what it has sent and drains the outbox in order; the message that a
  consumer decodes is the event that was written; the projectors apply each event at most once, the
  points projector also at least once, within its caps. Boards and rankings are exact, whether they
  come from Redis or from MySQL, and requests that are not a \<open>POST\<close> write nothing. The ledger also
  holds when gifts and recharges overlap call by call, and a closed session takes no order from a
  request that starts after the close. Six theorems state where the code falls short of its
  documents: the message of a replayed rejection, a loop that does not end for 65535 minutes, a
  leaderboard update that is lost when Redis fails, a gift so large that it blocks its partition, a
  gift accepted while its session closes, which the settlement misses, and an equal recharge at the
  same time, which is answered with an internal error.

  \<^bold>\<open>Interfaces.\<close> \<open>deduplicating\<close> is interpreted on \<open>Recharge\<close>, \<open>SendGift\<close>, the events of the points
  projector and the claim of the leaderboard projector; \<open>sql_enum\<close> on the eleven enumerations;
  \<open>acknowledging\<close> (a marked message is finished with, and stays so) on the three consumers, and its
  extension \<open>acknowledging_inv\<close> (an invariant over the log) on the points ledger; \<open>coexisting\<close> (what a
  request promises to those that run at the same time) on \<open>Recharge\<close> and \<open>SendGift\<close>; \<open>after_the_end\<close>
  (what a request promises to a session that is closed) on \<open>Recharge\<close>, \<open>SendGift\<close>, \<open>CloseLiveSession\<close>
  and \<open>GenerateSettlement\<close>.

  \<^bold>\<open>Bounds.\<close> The minute loop is a partial function, since it need not end; that it does for every
  count but the largest is a theorem. The JSON parser recurses on fuel of twice the length of the text and
  two more, which \<open>parse_first_fuel\<close> of \<open>JsonFuel\<close> shows to be as good as any larger amount; its
  nesting limit of 10000 is that of \<open>encoding/json\<close>. All other loops are structural or have a
  termination proof.

  \<^bold>\<open>Not modelled.\<close>

  \<^item> Outside \<open>Interleave\<close>, \<open>Race\<close> and \<open>Closing\<close> the theorems assume a \<open>quiet\<close> environment: no other transaction
    commits between two statements of a request; requests, relay runs and deliveries interleave as
    wholes. The statements themselves are defined for any environment. Of the locks of the server only
    that of the wallet account is modelled, as a hypothesis, and waiting and deadlocks only as faults.
  \<^item> MySQL, Kafka, Redis, \<open>go-redis\<close> and \<open>sarama\<close> are not part of the repository: what is used of them
    is a parameter (the faults, the broker's answers, the replies of Redis, the committed offsets) or
    the documented effect of a statement or command. \<open>net/http\<close> hands over a method, a cleaned path, the
    query parameter and the body; redirects and unknown routes are left out.
  \<^item> A score of Redis outside the range of \<open>int64\<close> is converted as on amd64.
  \<^item> The histograms of latency and lag, the registration of the metrics and log lines: output without
    a decision of the program. Of a server only that it listens and is shut down is modelled.
  \<^item> A text longer than its VARCHAR column is refused, also when only spaces exceed it, which MySQL would
    cut; texts are not required to be valid UTF-8. Rows with the same \<open>created_at\<close> are read in the order
    of the table, which MySQL leaves open. Go times outside the years 1 to 9999, which the driver refuses.
  \<^item> A negative limit of the generated \<open>SelectOutboxBatchForPublish\<close>, which nothing calls.
\<close>

section \<open>Gifts\<close>

text \<open>
  C1. Whatever calls fail, a gift request ends in one of three ways: the tables are untouched
  (an error, a validation failure, or the replay of a known request); the policy rejects the
  request and exactly one rejected order with its event is committed; or the policy charges it
  and the debit, its two postings, the order and both events are committed together, with the
  amounts the policy names. A rejection or an acceptance is only ever reported for a request
  that was not known before.
\<close>

theorem SendGift_refines_policy:
  assumes "quiet e" and "SendGift e req d = (r, d')"
  shows "gift_result e req d r d'"
  by (rule SendGift_cases [OF assms])

theorem SendGift_refines_policy_witness:
  "gift_result (unacked_env 15) demo_gift seed_db
     (fst (SendGift (unacked_env 15) demo_gift seed_db))
     (snd (SendGift (unacked_env 15) demo_gift seed_db))"
  by (rule SendGift_refines_policy) simp_all

text \<open>
  C2. Sending the same gift again and again, under any faults, charges it at most once: all
  attempts together leave the tables untouched, or exactly one of them committed the effect
  of the request and the others left no trace.
\<close>

theorem gift_at_most_once:
  assumes "\<forall>e \<in> set es. quiet e \<and> collate e = coll"
  shows "untouched d (retries SendGift es req d) \<or>
         (\<exists>e \<in> set es. \<exists>d1 d2. untouched d d1 \<and> gift_effect e req d1 d2 \<and>
            untouched d2 (retries SendGift es req d))"
  using assms by (rule gift_requests.at_most_once)

theorem gift_at_most_once_witness:
  "untouched seed_db (retries SendGift [unacked_env 15, demo_env] demo_gift seed_db) \<or>
   (\<exists>e \<in> set [unacked_env 15, demo_env]. \<exists>d1 d2. untouched seed_db d1 \<and>
      gift_effect e demo_gift d1 d2 \<and>
      untouched d2 (retries SendGift [unacked_env 15, demo_env] demo_gift seed_db))"
  by (rule gift_at_most_once [where coll = "\<lambda>s. s"]) simp

text \<open>
  C3. Without faults a new, valid request that fits the columns gets the answer of the policy:
  the rejection with its code and status, or the acceptance with the exact amounts and the
  viewer's new balance; an internal error is returned only when an amount leaves its column.
\<close>

theorem SendGift_answers:
  assumes "calm e" and "gift_valid req" and "gift_enabled e req d" and "gift_fits e req d"
  shows "verdict_answer req d (gift_decision e req d) (fst (SendGift e req d))"
  by (rule SendGift_decides [OF assms])

theorem SendGift_answers_witness:
  "fst (SendGift demo_env demo_gift seed_db) = Ok (gift_created demo_gift 1 1 1 seed_db)"
  using SendGift_answers [OF demo_env_calm(1) demo_gift_ready]
  by (simp add: demo_gift_charged verdict_answer_def)

section \<open>Recharges\<close>

text \<open>
  C4. Whatever calls fail, a recharge either leaves the tables untouched or commits the
  credit, its two postings, the request row and the event together, for a request that was
  not known; a success is only reported for a committed credit or a replay.
\<close>

theorem Recharge_all_or_nothing:
  assumes "quiet e" and "Recharge e req d = (r, d')"
  shows "recharge_result e req d r d'"
  by (rule Recharge_cases [OF assms])

theorem Recharge_all_or_nothing_witness:
  "recharge_result (unacked_env 10) demo_recharge seed_db
     (fst (Recharge (unacked_env 10) demo_recharge seed_db))
     (snd (Recharge (unacked_env 10) demo_recharge seed_db))"
  by (rule Recharge_all_or_nothing) simp_all

text \<open>
  C5. Retrying a recharge, under any faults, credits it at most once: afterwards every balance
  is what it was, or the viewer's balance has grown by the coins of the request, once.
\<close>

theorem recharge_at_most_once:
  assumes "\<forall>e \<in> set es. quiet e \<and> collate e = coll"
  shows "(\<forall>u. balance_of u (retries Recharge es req d) = balance_of u d) \<or>
         (\<forall>u. balance_of u (retries Recharge es req d) =
            (if u = rq_ViewerID req then wrap64 (balance_of u d + uint (rq_Coins req))
             else balance_of u d))"
  using recharge_requests.at_most_once [OF assms, of d req]
proof
  assume "untouched d (retries Recharge es req d)"
  then show ?thesis by (simp add: untouched_iff balance_of_def)
next
  assume "\<exists>e \<in> set es. \<exists>d1 d2. untouched d d1 \<and> recharge_effect e req d1 d2 \<and>
            untouched d2 (retries Recharge es req d)"
  then obtain d1 d2 ts where u: "untouched d d1" "untouched d2 (retries Recharge es req d)"
    and d2: "d2 = recharged req ts d1"
    by (auto simp: recharge_effect_def)
  have "balance_of u d1 = balance_of u d"
    and "balance_of u (retries Recharge es req d) = balance_of u d2" for u
    using u by (simp_all add: untouched_iff balance_of_def)
  then show ?thesis by (simp add: d2 balance_recharged)
qed

theorem recharge_at_most_once_witness:
  "(\<forall>u. balance_of u (retries Recharge [unacked_env 10, demo_env] demo_recharge seed_db) =
      balance_of u seed_db) \<or>
   (\<forall>u. balance_of u (retries Recharge [unacked_env 10, demo_env] demo_recharge seed_db) =
      (if u = rq_ViewerID demo_recharge
       then wrap64 (balance_of u seed_db + uint (rq_Coins demo_recharge)) else balance_of u seed_db))"
  by (rule recharge_at_most_once [where coll = "\<lambda>s. s"]) simp

text \<open>
  C6. Without faults a new, valid recharge of an existing user is carried out: the response
  names the new transaction and the new balance, and exactly the rows of the credit are added.
\<close>

theorem Recharge_succeeds:
  assumes "calm e" and "recharge_valid req" and "recharge_enabled e req d"
    and "recharge_fits e req d"
  shows "\<exists>ts. Recharge e req d = (Ok (recharge_created req d), recharged req ts d)"
  by (rule Recharge_runs [OF assms])

theorem Recharge_succeeds_witness:
  "\<exists>ts. Recharge demo_env demo_recharge seed_db =
     (Ok (recharge_created demo_recharge seed_db), recharged demo_recharge ts seed_db)"
  by (rule Recharge_succeeds [OF demo_env_calm(1) demo_recharge_ready])

text \<open>
  C7. A recharge whose commit succeeded although its reply was lost is safe to retry: the
  retry answers with the transaction and the balance of the first attempt, marked as a replay,
  and changes nothing.
\<close>

theorem Recharge_retry_replays:
  assumes "recharge_effect e req d d1" and "calm e'" and "collate e' = collate e"
  shows "Recharge e' req d1 = (Ok ((recharge_created req d)\<lparr>rs_Idempotency := ''replayed''\<rparr>), d1)"
  by (rule recharge_retry [OF assms])

theorem Recharge_retry_replays_witness:
  "Recharge demo_env demo_recharge (recharged demo_recharge (\<lambda>_. 0) seed_db) =
     (Ok ((recharge_created demo_recharge seed_db)\<lparr>rs_Idempotency := ''replayed''\<rparr>),
      recharged demo_recharge (\<lambda>_. 0) seed_db)"
  by (rule Recharge_retry_replays [where e = demo_env])
    (auto simp: recharge_effect_def demo_recharge_ready)

text \<open>
  C8. The same for a gift: once its effect is committed, a retry without faults answers with
  the same order and amounts, or with the same rejection code and status, and changes nothing.
\<close>

theorem SendGift_retry_replays:
  assumes "gift_effect e req d d1" and "calm e'" and "collate e' = collate e"
  shows "\<exists>r. SendGift e' req d1 = (r, d1) \<and>
           (case gift_decision e req d of
              Charge campaign charged points diamonds \<Rightarrow>
                r = Ok ((gift_created req charged points diamonds d)\<lparr>gs_Idempotency := ''replayed''\<rparr>)
            | Reject code st \<Rightarrow> \<exists>msg. r = App \<lparr>HTTPStatus = st, Code = code, Message = msg\<rparr>
            | Broken \<Rightarrow> False)"
  using gift_retry [OF assms] replayed_rejection [of e req d]
  by (auto split: verdict.splits)

theorem SendGift_retry_replays_witness:
  "SendGift demo_env demo_gift (gift_accepted demo_gift (Some 7001) 1 1 1 (\<lambda>_. 0) seed_db) =
     (Ok ((gift_created demo_gift 1 1 1 seed_db)\<lparr>gs_Idempotency := ''replayed''\<rparr>),
      gift_accepted demo_gift (Some 7001) 1 1 1 (\<lambda>_. 0) seed_db)"
  using SendGift_retry_replays [of demo_env demo_gift seed_db
      "gift_accepted demo_gift (Some 7001) 1 1 1 (\<lambda>_. 0) seed_db" demo_env] demo_gift_ready
  by (auto simp: gift_effect_def demo_gift_charged gift_enabled_def)

section \<open>Balances\<close>

text \<open>
  C9. A gift request never overdraws an account and never touches another one: balances other
  than the viewer's stay as they are, and a balance that was not negative stays so and only
  falls by an accepted charge, which is positive.
\<close>

theorem gift_never_overdraws:
  assumes "quiet e" and "SendGift e req d = (r, d')"
    and "0 \<le> balance_of (gq_ViewerID req) d" and "in_i64 (balance_of (gq_ViewerID req) d)"
  shows "0 \<le> balance_of (gq_ViewerID req) d' \<and>
         balance_of (gq_ViewerID req) d' \<le> balance_of (gq_ViewerID req) d \<and>
         (\<forall>u. u \<noteq> gq_ViewerID req \<longrightarrow> balance_of u d' = balance_of u d)"
  using SendGift_atomic [OF assms(1,2)]
proof
  assume "untouched d d'"
  then show ?thesis using assms(3) by (simp add: untouched_iff balance_of_def)
next
  assume "gift_effect e req d d'"
  then show ?thesis
    using gift_effect_balance [OF _ assms(4)] charged_amount_bounds(1) [of e req d]
      charged_amount_bounds(2) [of req d e] assms(3)
    by simp
qed

theorem gift_never_overdraws_witness:
  "0 \<le> balance_of 2001 (snd (SendGift demo_env demo_gift seed_db)) \<and>
   balance_of 2001 (snd (SendGift demo_env demo_gift seed_db)) \<le> balance_of 2001 seed_db \<and>
   balance_of 2002 (snd (SendGift demo_env demo_gift seed_db)) = balance_of 2002 seed_db"
proof -
  have g: "gq_ViewerID demo_gift = 2001" by (simp add: demo_gift_def)
  have b: "balance_of 2001 seed_db = 1000" by (simp add: seed_defs balance_of_def)
  show ?thesis
    using gift_never_overdraws [of demo_env demo_gift seed_db
        "fst (SendGift demo_env demo_gift seed_db)" "snd (SendGift demo_env demo_gift seed_db)"]
    unfolding g b by (simp add: in_i64_def)
qed

text \<open>
  C10. In every state that requests can lead to, whatever failed on the way, a balance differs
  from the initial one by the postings on the owner's account since (modulo the width of the
  column): coins are neither created nor lost outside the ledger.
\<close>

theorem balances_follow_postings:
  assumes "reachable coll d0 d"
  shows "wrap64 (balance_of u d - balance_of u d0) = wrap64 (user_total u d - user_total u d0)"
proof -
  have "unposted u d = unposted u d0"
    using reachable_invariant [OF assms, of "\<lambda>d. unposted u d = unposted u d0"] unposted_stable
    by simp
  moreover have "wrap64 (unposted u x + k) = wrap64 (balance_of u x - user_total u x + k)" for x k
    by (simp only: unposted_def wrap64_add_left)
  ultimately have "wrap64 (balance_of u d - user_total u d + (user_total u d - balance_of u d0)) =
      wrap64 (balance_of u d0 - user_total u d0 + (user_total u d - balance_of u d0))"
    by metis
  then show ?thesis by simp
qed

theorem balances_follow_postings_witness:
  "wrap64 (balance_of 2001 after_gift - balance_of 2001 seed_db) =
   wrap64 (user_total 2001 after_gift - user_total 2001 seed_db)"
  by (rule balances_follow_postings [OF after_gift_reachable])

section \<open>The ledger\<close>

text \<open>
  C11. In every reachable state each wallet transaction has exactly two postings, one on the
  account of the user who acted, and they sum to zero.
\<close>

theorem every_transaction_balances:
  assumes "reachable coll d0 d" and "ledger_inv coll d0" and "w \<in> set (wallet_transactions d)"
  shows "\<exists>other amount. entries_of (wt_TxID w) d =
           posting (wt_TxID w) (wt_ActorUserID w) other amount \<and>
           sum_list (map we_Amount (entries_of (wt_TxID w) d)) = 0"
proof -
  have inv: "ledger_inv coll d"
    by (rule reachable_invariant [where P = "ledger_inv coll", OF assms(1,2) ledger_stable])
  show ?thesis using ledger_tx_matched [OF inv assms(3)] ledger_zero_sum [OF inv] by simp
qed

theorem every_transaction_balances_witness:
  "wallet_transactions after_gift \<noteq> [] \<and>
   (\<exists>other amount. entries_of (wt_TxID (hd (wallet_transactions after_gift))) after_gift =
      posting (wt_TxID (hd (wallet_transactions after_gift)))
        (wt_ActorUserID (hd (wallet_transactions after_gift))) other amount \<and>
      sum_list (map we_Amount (entries_of (wt_TxID (hd (wallet_transactions after_gift))) after_gift)) = 0)"
proof -
  have ne: "wallet_transactions after_gift \<noteq> []"
    using after_gift_rows by simp
  with every_transaction_balances [OF after_gift_reachable seed_ledger, of "hd (wallet_transactions after_gift)"]
  show ?thesis by simp
qed

text \<open>
  C12. In every reachable state the gift debits of the ledger are the accepted gift orders,
  one for one and in the same order: same viewer, request id and payload hash, and the
  postings carry exactly the coins of the order.
\<close>

theorem debits_are_accepted_orders:
  assumes "reachable coll d0 d" and "ledger_inv coll d0"
  shows "list_all2 (debit_matches d) (txs_of GIFT_DEBIT d) (accepted d)"
  using reachable_invariant [where P = "ledger_inv coll", OF assms ledger_stable]
  by (simp add: ledger_inv_def)

theorem debits_are_accepted_orders_witness:
  "list_all2 (debit_matches after_gift) (txs_of GIFT_DEBIT after_gift) (accepted after_gift)"
  by (rule debits_are_accepted_orders [OF after_gift_reachable seed_ledger])

text \<open>
  C13. The transactional outbox: in every reachable state the gift events are the gift orders
  and the wallet events are the wallet transactions, one for one and in order, with the data
  of the row they announce. No order or transaction lacks its event and no event lacks its row.
\<close>

theorem outbox_announces_every_row:
  assumes "reachable coll d0 d" and "outbox_inv d0"
  shows "list_all2 announces_order (gift_events d) (gift_orders d) \<and>
         list_all2 announces_tx (wallet_events d) (wallet_transactions d)"
  using reachable_invariant [where P = outbox_inv, OF assms outbox_stable]
  by (simp add: outbox_inv_def)

theorem outbox_announces_every_row_witness:
  "list_all2 announces_order (gift_events after_gift) (gift_orders after_gift) \<and>
   list_all2 announces_tx (wallet_events after_gift) (wallet_transactions after_gift)"
  by (rule outbox_announces_every_row [OF after_gift_reachable])
    (simp add: outbox_inv_def gift_events_def wallet_events_def seed_db_def)

section \<open>Policy\<close>

text \<open>
  C14. A gift is answered as newly accepted only when the policy allows it: the session exists
  and is open, the gift is in the catalog and enabled, the creator is in good standing, may go
  live with gifts, has a normal account and is of age (19 in Korea, 18 elsewhere), the match,
  if any, is open in that session, and the charge is the price times the quantity, positive
  and covered by the viewer's balance, as 32-bit amounts without wrap-around.
\<close>

theorem accepted_gift_is_allowed:
  assumes "quiet e" and "SendGift e req d = (Ok r, d')" and "gs_Idempotency r = ''created''"
  shows "\<exists>s g u. s \<in> set (live_sessions d) \<and> ls_LiveSessionID s = gq_LiveSessionID req \<and>
             ls_Status s = SESSION_OPEN \<and>
           g \<in> set (gift_catalog d) \<and> collate e (gc_GiftID g) = collate e (gq_GiftID req) \<and>
             gc_Enabled g \<and>
           u \<in> set (users d) \<and> us_UserID u = gq_CreatorID req \<and>
             us_AccountStanding u = GOOD \<and> us_CanGoLive u \<and> us_LiveGiftsEnabled u \<and>
             us_AccountType u = NORMAL \<and>
             (if EqualFold (simple_fold e) (us_RegionCode u) ''KR'' then 19 else 18) \<le> us_AgeYears u \<and>
           (case gq_MatchID req of None \<Rightarrow> True
            | Some mid \<Rightarrow> \<exists>m \<in> set (live_matches d). lm_MatchID m = mid \<and>
                lm_LiveSessionID m = gq_LiveSessionID req \<and> lm_Status m = MATCH_OPEN) \<and>
           uint (gs_ChargedCoins r) = uint (gc_CoinPrice g) * uint (gq_Quantity req) \<and>
           uint (gs_DiamondReward r) = uint (gc_DiamondReward g) * uint (gq_Quantity req) \<and>
           0 < gs_ChargedCoins r \<and> uint (gs_ChargedCoins r) \<le> balance_of (gq_ViewerID req) d"
proof -
  obtain campaign charged points diamonds where
    dec: "gift_decision e req d = Charge campaign charged points diamonds"
    and r: "r = gift_created req charged points diamonds d"
    using SendGift_created [OF assms] by blast
  have fits: "uint (gs_ChargedCoins r) = charged" "uint (gs_DiamondReward r) = diamonds" "0 < charged"
    using charge_fits [OF dec] by (simp_all add: r gift_created_def uint_of_fits_u32)
  then have pos: "0 < gs_ChargedCoins r" by (simp add: word_less_def)
  show ?thesis
    using charge_policy [OF dec] pos unfolding creator_policy_iff fits(1,2) by blast
qed

theorem accepted_gift_is_allowed_witness:
  "\<exists>s \<in> set (live_sessions seed_db). ls_LiveSessionID s = 9001 \<and> ls_Status s = SESSION_OPEN"
  using accepted_gift_is_allowed [OF demo_env_calm(2) demo_gift_run]
  by (auto simp: demo_gift_def gift_created_def)

text \<open>
  C15. The answer to a rejected gift and the answer to its retry have the same status and code,
  but not always the same message: for an ineligible creator the first answer says ``creator
  not eligible'' and every later one ``creator is not eligible''; for the other codes the
  messages agree.
\<close>

theorem replayed_rejection_message:
  assumes "quiet e" and "gift_valid req" and "gift_known e req d = None"
    and "SendGift e req d = (App a, d1)" and "calm e'" and "collate e' = collate e"
  shows "\<exists>a'. SendGift e' req d1 = (App a', d1) \<and> HTTPStatus a' = HTTPStatus a \<and>
           Code a' = Code a \<and> (Message a' = Message a \<longleftrightarrow> Code a \<noteq> ''CREATOR_NOT_ELIGIBLE'')"
proof -
  obtain code st where dec: "gift_decision e req d = Reject code st" and a: "a = rejection code st"
    and eff: "gift_effect e req d d1"
    using SendGift_rejected [OF assms(1-4)] by blast
  have "SendGift e' req d1 = (App (mapRejectCodeToAppError code), d1)"
    using gift_retry [OF eff assms(5,6)] dec by auto
  with reject_codes [OF dec] show ?thesis
    by (elim insertE emptyE) (simp_all add: a mapRejectCodeToAppError_def rejection_def reject_messages)
qed

text \<open>A creator of seventeen.\<close>

theorem replayed_rejection_message_witness:
  "\<exists>a d1 a'. SendGift demo_env underage_gift seed_db = (App a, d1) \<and>
     SendGift demo_env underage_gift d1 = (App a', d1) \<and> Message a' \<noteq> Message a"
proof -
  have new: "gift_known demo_env underage_gift seed_db = None"
    using underage_gift_ready(2) by (simp add: gift_enabled_def)
  show ?thesis
    using replayed_rejection_message [OF demo_env_calm(2) underage_gift_ready(1) new underage_gift_run
        demo_env_calm(1) refl] underage_gift_run
    by (fastforce simp: rejection_def)
qed

section \<open>Sessions and settlements\<close>

text \<open>
  C16. Closing a session, whatever calls fail: either the tables are untouched and the answer
  is a refusal that tells the truth (404 for a session that does not exist, 409 for one that
  is closed, 400 or 500 otherwise), or an open session was closed and exactly its one closing
  event was written with it; success is reported only then.
\<close>

theorem CloseLiveSession_all_or_nothing:
  assumes "quiet e" and "CloseLiveSession e sid d = (r, d')"
  shows "close_result e sid d r d'"
  by (rule CloseLiveSession_cases [OF assms])

theorem CloseLiveSession_all_or_nothing_witness:
  "close_result demo_env 9001 seed_db (fst (CloseLiveSession demo_env 9001 seed_db))
     (snd (CloseLiveSession demo_env 9001 seed_db))"
  by (rule CloseLiveSession_all_or_nothing) simp_all

text \<open>
  C17. For everything that starts after the close of a session, the close is final. Take any run from
  a state in which the session is not open: steps that are served alone, and recharges, gifts, closes
  and settlements that fail anywhere and among whose calls others commit, provided that these others
  keep the same promise. The session is not opened again and its accepted orders and their coins stay
  what they were. A gift that had read its session before the close is not covered: it can still be
  accepted, which is a theorem of its own.
\<close>

theorem closed_session_is_final:
  assumes "(after_close coll sid)\<^sup>*\<^sup>* d d'" and "\<not> open_session sid d"
  shows "\<not> open_session sid d' \<and> session_orders sid d' = session_orders sid d \<and>
         gross_spend sid d' = gross_spend sid d"
proof -
  have "shut sid (session_orders sid d) d'"
    by (rule after_close_shut [OF assms(1)]) (simp add: shut_def assms(2))
  then show ?thesis by (simp add: shut_def gross_spend_def)
qed

theorem closed_session_is_final_witness:
  "let d' = snd (SendGift (meanwhile_at 2 (fold (\<lambda>q d. snd (Recharge demo_env q d)) [demo_recharge]) demo_env)
         late_gift after_end) in
   \<not> open_session 9001 d' \<and> session_orders 9001 d' = session_orders 9001 after_end \<and>
   gross_spend 9001 d' = 1 \<and> session_exists 9001 after_end"
proof -
  let ?e = "meanwhile_at 2 (fold (\<lambda>q d. snd (Recharge demo_env q d)) [demo_recharge]) demo_env"
  have "honours 9001 ?e" by (rule recharges_after.meanwhile) simp_all
  then have "(after_close (\<lambda>s. s) 9001)\<^sup>*\<^sup>* after_end (snd (SendGift ?e late_gift after_end))"
    by (intro r_into_rtranclp after_close.gift)
  from closed_session_is_final [OF this after_end_closed(1)] show ?thesis
    using after_end_closed(2,3) unfolding Let_def by simp
qed

text \<open>
  C18. Reconciliation passes in every reachable state: without faults a settlement of an
  existing session is generated, its gross spend and diamonds are the sums over the accepted
  orders, its gift count is their number, the ledger debits equal the gross spend, and the
  reconciliation is PASS with no mismatch. The collation must tell U from P, since the query
  recognises user accounts by the prefix of their code.
\<close>

theorem reconciliation_passes:
  assumes "reachable coll d0 d" and "ledger_inv coll d0" and "coll ''U'' \<noteq> coll ''P''"
    and "calm e" and "collate e = coll" and "session_exists sid d"
    and "in_i64 (gross_spend sid d)" and "in_i64 (diamond_total sid d)"
  shows "\<exists>res d'. GenerateSettlement e sid d = (Inr res, d') \<and>
           sr_GrossCoinSpend res = gross_spend sid d \<and>
           sr_AcceptedGiftCount res = int (length (session_orders sid d)) \<and>
           sr_DiamondRewardTotal res = diamond_total sid d \<and>
           sr_WalletGiftDebitTotal res = gross_spend sid d \<and>
           sr_ReconciliationStatus res = PASS \<and> sr_MismatchCount res = 0"
proof -
  have inv: "ledger_inv coll d"
    by (rule reachable_invariant [where P = "ledger_inv coll", OF assms(1,2) ledger_stable])
  have eq: "wallet_debits (collate e) sid d = gross_spend sid d"
    using wallet_debits_eq_gross [OF inv assms(3)] assms(5) by simp
  then obtain t t' where "GenerateSettlement e sid d =
      (Inr (settlement_response e sid (settlement_row sid t d)
         (reconciliation_row (collate e) sid t' d) (top_contributors 20 sid d)),
       settled (collate e) sid t t' d)"
    using GenerateSettlement_runs [OF assms(4,6-8)] assms(7) by auto
  then show ?thesis
    by (simp add: settlement_response_def settlement_row_def reconciliation_row_def Let_def eq)
qed

theorem reconciliation_passes_witness:
  "\<exists>res d'. GenerateSettlement demo_env 9001 after_gift = (Inr res, d') \<and>
     sr_GrossCoinSpend res = 1 \<and> sr_WalletGiftDebitTotal res = 1 \<and>
     sr_ReconciliationStatus res = PASS"
  using reconciliation_passes [OF after_gift_reachable seed_ledger _ demo_env_calm(1), of 9001]
    after_gift_session
  by (auto simp: in_i64_def)

section \<open>Requests at the same time\<close>

text \<open>
  C19. A gift and a recharge keep the ledger when other transactions commit between any two of
  their calls, as long as those keep it too, whatever fails on the way: afterwards the invariant
  of the ledger holds, no transaction and no accepted order is lost, every balance still differs
  from the postings by what it did before, and an answer of success names an order or a
  transaction of this request that is on record. Of the server it takes that nobody else writes
  the viewer's account once it is locked, and that a drawn identifier is not given to anybody else.
\<close>

theorem requests_interleave:
  assumes "interference coll e" and "interference coll e'" and "ledger_inv coll d"
    and "served_alone e (gq_ViewerID greq) (gift_hold greq) d" and "served_alone e' (rq_ViewerID rreq) 4 d"
  shows "gift_coexists coll greq d (fst (SendGift e greq d)) (snd (SendGift e greq d)) \<and>
    recharge_coexists coll rreq d (fst (Recharge e' rreq d)) (snd (Recharge e' rreq d))"
  using SendGift_coexists [OF assms(1,4,3)] Recharge_coexists [OF assms(2,5,3)] by (metis prod.collapse)

text \<open>
  The same viewer recharges while the gift is checked, and sends the gift while the recharge looks
  for its request.
\<close>

theorem requests_interleave_witness:
  "gift_coexists (\<lambda>s. s) demo_gift seed_db
     (fst (SendGift (meanwhile_at 3 (fold (\<lambda>q d. snd (Recharge demo_env q d)) [demo_recharge]) demo_env) demo_gift seed_db))
     (snd (SendGift (meanwhile_at 3 (fold (\<lambda>q d. snd (Recharge demo_env q d)) [demo_recharge]) demo_env) demo_gift seed_db)) \<and>
   recharge_coexists (\<lambda>s. s) demo_recharge seed_db
     (fst (Recharge (meanwhile_at 1 (fold (\<lambda>q d. snd (SendGift demo_env q d)) [demo_gift]) demo_env) demo_recharge seed_db))
     (snd (Recharge (meanwhile_at 1 (fold (\<lambda>q d. snd (SendGift demo_env q d)) [demo_gift]) demo_env) demo_recharge seed_db))"
proof -
  note quiet = quiet_interference(1) [of demo_env, simplified]
  show ?thesis
    by (rule requests_interleave [OF recharges_coexist.meanwhile [OF quiet] gifts_coexist.meanwhile [OF quiet]
          seed_ledger served_alone_meanwhile served_alone_meanwhile])
      (simp_all add: gift_hold_def)
qed

section \<open>Ingest\<close>

text \<open>
  C20. The minute loop ends for every count below 65535, whatever calls fail, and the request
  is then all or nothing: the tables are untouched and an error is returned, or exactly one
  event per minute is queued, numbered 1 to n, all in one transaction; success is reported only
  then.
\<close>

theorem watch_minutes_return:
  assumes "quiet e" and "iw_Minutes req < 65535"
  shows "\<exists>r d'. EnqueueWatchMinuteEvents e req d = Some (r, d') \<and> watch_result e req d r d'"
  by (rule EnqueueWatch_cases [OF assms])

theorem watch_minutes_return_witness:
  "\<exists>r d'. EnqueueWatchMinuteEvents (unacked_env 4) demo_watch seed_db = Some (r, d') \<and>
     watch_result (unacked_env 4) demo_watch seed_db r d'"
  by (rule watch_minutes_return) (simp_all add: demo_watch_def)

text \<open>
  C21. With 65535 minutes the loop counter wraps around and the commit is never reached: a call
  that returns, whatever fails, reports an internal error and leaves the tables alone, and without
  faults it does not return before the event numbers are used up; after any number \<open>k\<close> of inserts it
  is still in the loop.
\<close>

theorem watch_minutes_wrap_around:
  assumes "iw_Minutes req = 65535" and "watch_valid req"
  shows "(quiet e \<longrightarrow> (\<forall>r d'. EnqueueWatchMinuteEvents e req d = Some (r, d') \<longrightarrow>
            untouched d d' \<and> (\<exists>er. r = internal_error e er))) \<and>
         (calm e \<longrightarrow> (\<forall>k. next_event_id d + k \<le> 2 ^ 64 \<longrightarrow>
            (\<exists>rows. length rows = k \<and> watch_loop e req 1 (at d id 1) =
               watch_loop e req (of_nat (Suc k))
                 (at ((next_event_id_update Suc ^^ k) d) (appending rows) (Suc k)))))"
  using EnqueueWatch_never_commits [OF _ assms] watch_loop_rounds [OF _ assms(1)] by blast

theorem watch_minutes_wrap_around_witness:
  "\<exists>rows. length rows = 70000 \<and>
     watch_loop demo_env (demo_watch\<lparr>iw_Minutes := 65535\<rparr>) 1 (at seed_db id 1) =
     watch_loop demo_env (demo_watch\<lparr>iw_Minutes := 65535\<rparr>) (of_nat (Suc 70000))
       (at ((next_event_id_update Suc ^^ 70000) seed_db) (appending rows) (Suc 70000))"
proof -
  let ?req = "demo_watch\<lparr>iw_Minutes := 65535\<rparr>"
  have v: "watch_valid ?req" using demo_watch_valid by (simp add: watch_valid_def)
  have n: "next_event_id seed_db + 70000 \<le> 2 ^ 64" by (simp add: seed_db_def)
  have m: "iw_Minutes ?req = 65535" by simp
  show ?thesis
    by (rule watch_minutes_wrap_around [OF m v, THEN conjunct2, rule_format, OF demo_env_calm(1) n])
qed

section \<open>Points\<close>

text \<open>
  C22. However often the broker redelivers an event, and whatever calls fail, the points
  projector applies it at most once.
\<close>

theorem points_at_most_once:
  assumes "\<forall>e \<in> set es. quiet e \<and> collate e = coll"
  shows "untouched d (retries project_points es ev d) \<or>
         (\<exists>e \<in> set es. \<exists>d1 d2. untouched d d1 \<and> points_effect e ev d1 d2 \<and>
            untouched d2 (retries project_points es ev d))"
  using assms by (rule points_events.at_most_once)

theorem points_at_most_once_witness:
  "untouched seed_db (retries project_points [unacked_env 4, demo_env] (1, demo_point) seed_db) \<or>
   (\<exists>e \<in> set [unacked_env 4, demo_env]. \<exists>d1 d2. untouched seed_db d1 \<and>
      points_effect e (1, demo_point) d1 d2 \<and>
      untouched d2 (retries project_points [unacked_env 4, demo_env] (1, demo_point) seed_db))"
  by (rule points_at_most_once [where coll = "\<lambda>s. s"]) simp

text \<open>
  C23. Without faults an event that the projector does not know and whose rows fit the tables
  is applied: exactly its rows are added, a comment or a watched minute none once the cap is
  reached. A known event is acknowledged and nothing changes.
\<close>

theorem points_applied:
  assumes "calm e" and "projectable ev d"
  shows "if dedupe_known pointsConsumer (collate e) (fst ev) d
         then project_points e ev d = (Inr (), d)
         else \<exists>ts. project_points e ev d = (Inr (), projected ev ts d)"
  using project_points_known [OF assms(1)] project_points_new [OF assms(1)] assms(2) by simp

theorem points_applied_witness:
  "\<exists>ts. project_points demo_env (1, demo_point) seed_db = (Inr (), projected (1, demo_point) ts seed_db)"
  using points_applied [of demo_env "(1, demo_point)" seed_db] demo_point_ready by simp

text \<open>
  C24. In every reachable state a viewer has at most 20 comment points and 60 watch points per
  session, and an event has at most one row in each point ledger, which is only there when the
  event was recorded as applied.
\<close>

theorem point_caps_hold:
  assumes "reachable coll d0 d" and "points_inv coll d0"
  shows "fan_count v sid COMMENT d \<le> 20 \<and> fan_count v sid WATCH_MINUTE d \<le> 60 \<and>
         distinct (map fp_EventID (fan_point_ledger d)) \<and>
         distinct (map cp_EventID (campaign_point_ledger d)) \<and>
         (\<forall>r. r \<in> set (fan_point_ledger d) \<longrightarrow> dedupe_known pointsConsumer coll (fp_EventID r) d)"
  using reachable_invariant [OF assms points_stable_inv] by (simp add: points_inv_def)

theorem point_caps_hold_witness:
  "fan_count 2001 9001 COMMENT (after_comments 25) = 20 \<and> fan_count 2001 9001 COMMENT (after_comments 25) \<le> 20 \<and>
   distinct (map fp_EventID (fan_point_ledger (after_comments 25)))"
  using point_caps_hold [OF after_comments_reachable, of 2001 9001 25] after_comments_rows [of 25] by simp

section \<open>The relay\<close>

text \<open>
  C26. At least once: in every state of the service, the relay and the broker, whatever failed
  on the way, an outbox row marked published has its message in the broker's log, with the
  row's topic, key and payload and its number in the header; and the numbers are distinct.
\<close>

theorem published_rows_were_sent:
  assumes "world_reachable coll cast s0 s" and "event_ids_inv (fst s0)" and "relay_inv cast s0"
    and "x \<in> set (outbox_events (fst s))" and "oe_PublishedAt x \<noteq> None"
  shows "sent cast x \<in> set (snd s) \<and> distinct (event_ids (fst s))"
  using relay_inv_reachable [OF assms(1-3)] assms(4,5) by (auto simp: relay_inv_def)

theorem published_rows_were_sent_witness:
  "\<exists>x. x \<in> set (outbox_events (fst after_relay)) \<and> oe_PublishedAt x \<noteq> None \<and>
     sent json_text x \<in> set (snd after_relay)"
  using after_relay_published published_rows_were_sent [OF after_relay_reachable [folded after_relay_def]]
  by (metis fst_conv seed_events(1,2))

text \<open>
  C27. When nothing fails and the broker takes every message, each tick of the relay publishes
  the next batch of pending rows in the order of their creation: \<open>k\<close> ticks send exactly the
  first \<open>k\<close> batches, each row once, and leave the others pending; so enough ticks empty the
  outbox.
\<close>

theorem relay_drains_in_order:
  assumes "reliable b" and "\<forall>e \<in> set es. calm e \<and> cast_char e = cast" and "distinct (event_ids d)"
  shows "\<exists>d'. ticks es b batch (d, log) =
           (d', log @ map (sent cast) (take (length es * nat batch) (pending b d))) \<and>
         pending b d' = drop (length es * nat batch) (pending b d)"
  using ticks_drain [OF assms, of batch log] by blast

theorem relay_drains_in_order_witness:
  "\<exists>d'. ticks [demo_env] demo_broker 200 (after_gift, []) =
      (d', map (sent json_text) (take 200 (pending demo_broker after_gift))) \<and>
    pending demo_broker d' = drop 200 (pending demo_broker after_gift)"
  using relay_drains_in_order [OF demo_broker_reliable, of "[demo_env]" json_text after_gift 200 "[]"]
    after_gift_events
  by (simp add: event_ids_inv_def)

section \<open>A gift that overtakes the close\<close>

text \<open>
  C28. The session of a gift is read without a lock. When the session is closed right after that
  read and settled on the event, before the gift is charged, the gift is still accepted and
  charged: the session is closed, its orders come to more than the settlement on record says, by
  the coins of the gift. Served one after the other the two requests cannot do this.
\<close>

theorem gift_after_close:
  assumes "calm e" and "gift_valid req" and "gift_enabled e req d" and "gift_fits e req d"
    and "gift_decision e req d = Charge campaign charged points diamonds"
    and "Suc (Suc (next_event_id d)) < 2 ^ 64" and "ledger_inv (collate e) d"
    and "collate e ''U'' \<noteq> collate e ''P''"
    and "in_i64 (gross_spend (gq_LiveSessionID req) d)" and "in_i64 (diamond_total (gq_LiveSessionID req) d)"
  shows "\<exists>rs d' row. SendGift (meanwhile_at 3 (end_session e (gq_LiveSessionID req)) e) req d = (Ok rs, d') \<and>
    gs_ChargedCoins rs = of_int charged \<and> 0 < charged \<and>
    \<not> open_session (gq_LiveSessionID req) d' \<and>
    gross_spend (gq_LiveSessionID req) d' = gross_spend (gq_LiveSessionID req) d + charged \<and>
    find (\<lambda>r. ss_LiveSessionID r = gq_LiveSessionID req) (stream_settlements d') = Some row \<and>
    ss_GrossCoinSpend row = gross_spend (gq_LiveSessionID req) d"
  by (rule gift_misses_settlement [OF assms(1-6,9,10,7,8)])

theorem gift_after_close_witness:
  "\<exists>rs d' row. SendGift (meanwhile_at 3 (end_session demo_env 9001) demo_env) demo_gift seed_db = (Ok rs, d') \<and>
    \<not> open_session 9001 d' \<and> gross_spend 9001 d' = 1 \<and>
    find (\<lambda>r. ss_LiveSessionID r = 9001) (stream_settlements d') = Some row \<and> ss_GrossCoinSpend row = 0"
proof -
  have g: "gq_LiveSessionID demo_gift = 9001" by (simp add: demo_gift_def)
  have z: "gross_spend 9001 seed_db = 0" "diamond_total 9001 seed_db = 0"
    by (simp_all add: gross_spend_def diamond_total_def session_orders_def)
  show ?thesis
    using gift_after_close [OF demo_env_calm(1) demo_gift_ready demo_gift_charged, unfolded g z] seed_ledger
    by (auto simp: in_i64_def)
qed

section \<open>Columns\<close>

text \<open>
  C29. Each nullable enumeration column, a constant of its type or NULL, is read back from its
  driver value as it was written, whatever the struct it is scanned into held before.
\<close>

theorem enum_columns_round_trip:
  "NullCampaignPointLedgerReason_Scan (NullCampaignPointLedgerReason_Value (null_of CampaignPointLedgerReason_text c1)) ns =
     (null_of CampaignPointLedgerReason_text c1, None) \<and>
   NullFanPointLedgerReason_Scan (NullFanPointLedgerReason_Value (null_of FanPointLedgerReason_text c2)) ns =
     (null_of FanPointLedgerReason_text c2, None) \<and>
   NullGiftOrdersStatus_Scan (NullGiftOrdersStatus_Value (null_of GiftOrdersStatus_text c3)) ns =
     (null_of GiftOrdersStatus_text c3, None) \<and>
   NullLiveMatchesMode_Scan (NullLiveMatchesMode_Value (null_of LiveMatchesMode_text c4)) ns =
     (null_of LiveMatchesMode_text c4, None) \<and>
   NullLiveMatchesStatus_Scan (NullLiveMatchesStatus_Value (null_of LiveMatchesStatus_text c5)) ns =
     (null_of LiveMatchesStatus_text c5, None) \<and>
   NullLiveSessionsStatus_Scan (NullLiveSessionsStatus_Value (null_of LiveSessionsStatus_text c6)) ns =
     (null_of LiveSessionsStatus_text c6, None) \<and>
   NullReconciliationResultsStatus_Scan (NullReconciliationResultsStatus_Value (null_of ReconciliationResultsStatus_text c7)) ns =
     (null_of ReconciliationResultsStatus_text c7, None) \<and>
   NullUsersAccountStanding_Scan (NullUsersAccountStanding_Value (null_of UsersAccountStanding_text c8)) ns =
     (null_of UsersAccountStanding_text c8, None) \<and>
   NullUsersAccountType_Scan (NullUsersAccountType_Value (null_of UsersAccountType_text c9)) ns =
     (null_of UsersAccountType_text c9, None) \<and>
   NullWalletAccountsCurrency_Scan (NullWalletAccountsCurrency_Value (null_of WalletAccountsCurrency_text c10)) ns =
     (null_of WalletAccountsCurrency_text c10, None) \<and>
   NullWalletTransactionsTxType_Scan (NullWalletTransactionsTxType_Value (null_of WalletTransactionsTxType_text c11)) ns =
     (null_of WalletTransactionsTxType_text c11, None)"
  by (intro conjI campaignPointLedgerReason.round_trip
    fanPointLedgerReason.round_trip
    giftOrdersStatus.round_trip
    liveMatchesMode.round_trip
    liveMatchesStatus.round_trip
    liveSessionsStatus.round_trip
    reconciliationResultsStatus.round_trip
    usersAccountStanding.round_trip
    usersAccountType.round_trip
    walletAccountsCurrency.round_trip
    walletTransactionsTxType.round_trip)

text \<open>
  C30. Two copies of a recharge at the same time: when the first is committed after the second has
  looked for its row, the second runs into the unique key of the transactions and is answered with
  that error of MySQL, not with the replay that a retry promises. The coins are credited once, and a
  third attempt gets the replay of the first.
\<close>

theorem equal_recharges_answer_differently:
  assumes "calm e" and "recharge_valid req" and "recharge_enabled e req d" and "recharge_fits e req d"
  shows "\<exists>d'. fst (Recharge e req d) = Ok (recharge_created req d) \<and>
    Recharge (meanwhile_at 2 (\<lambda>d. snd (Recharge e req d)) e) req d = (Err (MySQLError mysql_dup_entry), d') \<and>
    (\<forall>u. balance_of u d' = (if u = rq_ViewerID req then wrap64 (balance_of u d + uint (rq_Coins req))
       else balance_of u d)) \<and>
    Recharge e req d' = (Ok ((recharge_created req d)\<lparr>rs_Idempotency := ''replayed''\<rparr>), d')"
proof -
  obtain ts d' where run: "Recharge (meanwhile_at 2 (\<lambda>d. snd (Recharge e req d)) e) req d =
      (Err (MySQLError mysql_dup_entry), d')" "d' = next_tx_id_update Suc (recharged req ts d)"
    "Recharge e req d' = (Ok ((recharge_created req d)\<lparr>rs_Idempotency := ''replayed''\<rparr>), d')"
    using equal_recharges_collide [OF assms] by blast
  have "balance_of u d' = balance_of u (recharged req ts d)" for u by (simp add: run(2) balance_of_def)
  moreover obtain ts' where "Recharge e req d = (Ok (recharge_created req d), recharged req ts' d)"
    using Recharge_runs [OF assms] by blast
  ultimately show ?thesis using run(1,3) by (auto simp: balance_recharged)
qed

theorem equal_recharges_answer_differently_witness:
  "\<exists>d'. Recharge (meanwhile_at 2 (\<lambda>d. snd (Recharge demo_env demo_recharge d)) demo_env) demo_recharge seed_db =
     (Err (MySQLError mysql_dup_entry), d') \<and> balance_of 2001 d' = 1500 \<and>
     fst (Recharge demo_env demo_recharge d') = Ok ((recharge_created demo_recharge seed_db)\<lparr>rs_Idempotency := ''replayed''\<rparr>)"
proof -
  have v: "rq_ViewerID demo_recharge = 2001" "uint (rq_Coins demo_recharge) = 500" "balance_of 2001 seed_db = 1000"
    by (simp_all add: demo_recharge_def balance_of_def seed_db_def seed_account_def)
  have "wrap64 1500 = 1500" by (rule wrap64_id) (simp add: in_i64_def)
  with equal_recharges_answer_differently [OF demo_env_calm(1) demo_recharge_ready] v show ?thesis by fastforce
qed

section \<open>Read models\<close>

text \<open>
  C31. The campaign leaderboard reads the ledger and changes nothing; without faults, and as
  long as a campaign has fewer than \<open>2 ^ 32\<close> rows, it answers with distinct creators and their
  exact points, at most the adjusted limit, in falling order, everybody when the limit allows,
  and nobody left out has more than somebody listed.
\<close>

theorem campaign_leaderboard_is_top:
  assumes "quiet e" and "GetCampaignLeaderboard e cid limit (connect d) = (r, c)"
  shows "cdb c = d \<and>
    (calm e \<and> length (campaign_points cid d) < 2 ^ 32 \<and>
      list_all (\<lambda>x. fits_int32 (cp_Points x)) (campaign_points cid d) \<longrightarrow>
     (\<exists>ps. is_top cp_CreatorID cp_Points (nat (adjust_limit limit)) (campaign_points cid d) ps \<and>
        r = Inr (map (\<lambda>p. \<lparr>cr_CreatorID = fst p, cr_Points = snd p\<rparr>) ps)))"
  using campaign_leaderboard_answer [OF assms] by blast

theorem campaign_leaderboard_is_top_witness:
  "\<exists>ps. is_top cp_CreatorID cp_Points 100 (campaign_points 7001 after_points) ps \<and>
     fst (GetCampaignLeaderboard demo_env 7001 100 (connect after_points)) =
       Inr (map (\<lambda>p. \<lparr>cr_CreatorID = fst p, cr_Points = snd p\<rparr>) ps)"
  using campaign_leaderboard_is_top [of demo_env 7001 100 after_points
      "fst (GetCampaignLeaderboard demo_env 7001 100 (connect after_points))"
      "snd (GetCampaignLeaderboard demo_env 7001 100 (connect after_points))"]
    after_points_fits
  by (simp add: adjust_limit_def)

section \<open>Leaderboards\<close>

text \<open>
  C32. However often an event is delivered to the leaderboard projector, and whatever fails, at
  most one delivery reaches Redis: the store is what it was, or what that one delivery made of
  it.
\<close>

theorem leaderboard_at_most_once:
  assumes "\<forall>x \<in> set xs. quiet (fst x) \<and> collate (fst x) = coll"
  shows "snd (deliveries xs eid evt (d, s)) = s \<or>
         (\<exists>x \<in> set xs. snd (deliveries xs eid evt (d, s)) = scored (snd x) evt s)"
  using assms by (rule deliveries_at_most_once)

theorem leaderboard_at_most_once_witness:
  "snd (deliveries [(unacked_env 2, \<lambda>_. Acked 0), (demo_env, \<lambda>_. Acked 0)] 2 demo_accepted (seed_db, Map.empty)) = Map.empty \<or>
   (\<exists>x \<in> set [(unacked_env 2, \<lambda>_. Acked 0), (demo_env, \<lambda>_. Acked 0)].
      snd (deliveries [(unacked_env 2, \<lambda>_. Acked 0), (demo_env, \<lambda>_. Acked 0)] 2 demo_accepted (seed_db, Map.empty)) =
      scored (snd x) demo_accepted Map.empty)"
  by (rule leaderboard_at_most_once [where coll = "\<lambda>s. s"]) simp

text \<open>
  C33. But an update can be lost: the record of the event is committed before Redis is asked, so
  when Redis refuses the first command the projector reports the error, and no later delivery
  of the event, whatever happens then, changes Redis.
\<close>

theorem leaderboard_update_lost:
  assumes "calm e" and "\<not> dedupe_known consumerName (collate e) eid d" and "rp 0 = Failed 0 er"
    and "\<forall>x \<in> set xs. quiet (fst x) \<and> collate (fst x) = collate e"
  shows "\<exists>d'. ApplyAcceptedGift e rp eid evt (d, s) = (Inl er, d', s) \<and>
           snd (deliveries xs eid evt (d', s)) = s"
  using update_lost [where rp = rp and er = er, OF assms(1-3)] deliveries_known [OF assms(4), where st = "(_, s)"] by fastforce

theorem leaderboard_update_lost_witness:
  "\<exists>d'. ApplyAcceptedGift demo_env (\<lambda>_. Failed 0 (DriverError ''connection refused'')) 2 demo_accepted
       (seed_db, Map.empty) = (Inl (DriverError ''connection refused''), d', Map.empty) \<and>
     snd (deliveries [(demo_env, \<lambda>_. Acked 0)] 2 demo_accepted (d', Map.empty)) = Map.empty"
  by (rule leaderboard_update_lost) (simp_all add: dedupe_known_def seed_db_def)

text \<open>
  C34. A rebuild restores the keys of a session from MySQL alone: when MySQL and Redis answer,
  whatever Redis held before, however often the client repeats a command and in whatever order
  the maps are walked, the contributors of the session, its matches that have accepted orders
  and its campaign hold exactly the totals of the accepted orders, and no other key changes; the key
  of a match without accepted orders stays as it was.
\<close>

theorem RebuildLiveSession_rebuilds:
  assumes "calm e" and "answering rp" and "permutes_keys ord" and "rebuildable sid d"
  shows "\<exists>s'. RebuildLiveSession e rp ord sid (d, s) = (Inr (), d, s') \<and> rebuilt sid d s s'"
  using assms by (rule RebuildLiveSession_runs)

theorem RebuildLiveSession_rebuilds_witness:
  "\<exists>s'. RebuildLiveSession demo_env (\<lambda>_. Acked 3) rev 9001 (after_gift, Map.empty) =
      (Inr (), after_gift, s') \<and> rebuilt 9001 after_gift Map.empty s'"
  by (rule RebuildLiveSession_rebuilds) (simp_all add: answering_def permutes_keys_def after_gift_rebuildable)

text \<open>
  C35. The boards that grow event by event are those of a rebuild: from a fresh start, in every
  reachable state, once the projector has taken each accepted gift event of the outbox from an
  empty Redis, a rebuild of any session succeeds and changes nothing.
\<close>

theorem boards_need_no_rebuild:
  assumes "reachable coll d0 d" and "projection_inv d0" and "event_ids_inv d0"
    and "\<forall>r \<in> set (consumer_dedupe d). collate e (cd_ConsumerName r) \<noteq> collate e consumerName"
    and "carries evs (accepted_rows d)" and "calm e" and "once rp" and "exact_totals (map snd evs)"
    and "calm e'" and "answering rp'" and "permutes_keys ord" and "rebuildable sid d"
  shows "RebuildLiveSession e' rp' ord sid (consume_all e rp evs (d, Map.empty)) =
         (Inr (), consume_all e rp evs (d, Map.empty))"
  using boards_settled [OF reachable_invariant [OF assms(1,2) projection_stable]
      reachable_invariant [OF assms(1,3) event_ids_stable] assms(4-12)] .

theorem boards_need_no_rebuild_witness:
  "RebuildLiveSession demo_env (\<lambda>_. Acked 0) rev 9001
     (consume_all demo_env (\<lambda>_. Acked 0) [(2, demo_accepted)] (after_gift, Map.empty)) =
   (Inr (), consume_all demo_env (\<lambda>_. Acked 0) [(2, demo_accepted)] (after_gift, Map.empty))"
  by (rule boards_need_no_rebuild [OF after_gift_reachable])
    (simp_all add: answering_def once_def permutes_keys_def after_gift_rebuildable after_gift_carries
      after_gift_no_claims demo_exact)

section \<open>The consumers\<close>

text \<open>
  C36. What the services marshal into the outbox is what the consumers unmarshal: whatever order
  the JSON column gives the members, a consumer reads from the relayed message of a row the
  number of the row and the event that was written, for gifts, comments, watched minutes and
  closed sessions.
\<close>

theorem events_survive_transport:
  assumes "reprints cast (oe_PayloadJson x)" and "oe_EventID x \<noteq> 0"
  shows "(oe_Topic x = giftAcceptedTopic \<and> oe_PayloadJson x = marshal_gift_accepted g \<longrightarrow>
      point_event_of sf (sent cast x) = Some (oe_EventID x, GiftEvent g) \<and>
      gift_event_of sf (sent cast x) = Some (oe_EventID x, g)) \<and>
    (oe_Topic x = commentTopic \<and> oe_PayloadJson x = marshal_comment v \<longrightarrow>
      point_event_of sf (sent cast x) = Some (oe_EventID x, CommentEvent v)) \<and>
    (oe_Topic x = watchTopic \<and> oe_PayloadJson x = marshal_watch_minute w \<longrightarrow>
      point_event_of sf (sent cast x) = Some (oe_EventID x, WatchEvent w)) \<and>
    (oe_PayloadJson x = marshal_session_closed z \<and> in_i64 (lsc_ClosedAtMs z) \<longrightarrow>
      closed_session_of sf (sent cast x) = Some (lsc_LiveSessionID z))"
  using sent_gift [OF _ _ assms] sent_comment [OF _ _ assms] sent_watch_minute [OF _ _ assms]
    sent_session_closed [OF _ _ assms(1)] by blast

theorem events_survive_transport_witness:
  "point_event_of ascii_fold (sent json_text (gift_outbox_row 5)) =
     Some (1, GiftEvent (demo_accepted\<lparr>lga_ChargedCoins := 5\<rparr>)) \<and>
   gift_event_of ascii_fold (sent json_text (gift_outbox_row 5)) =
     Some (1, demo_accepted\<lparr>lga_ChargedCoins := 5\<rparr>)"
  using events_survive_transport [of json_text "gift_outbox_row 5"] demo_reprints [of 5] by simp

text \<open>
  C37. No gift is lost on the way to the fan points: the group may be restarted any number of
  times, with sessions that fail at any message, commits that do not go through and other
  transactions in between; every gift message below the committed offset has its points in the
  ledger, those of the charge, under the number of its outbox row.
\<close>

theorem points_worker_loses_nothing:
  assumes "consumed points_message (worker_env coll sf) (points_kept coll) (map (sent cast) xs) d0 c d"
    and "inj_on oe_EventID (set xs)"
    and "\<forall>r \<in> set (consumer_dedupe d0). coll (cd_ConsumerName r) \<noteq> coll pointsConsumer"
    and "x \<in> set (take c xs)" and "oe_Topic x = giftAcceptedTopic" and "oe_PayloadJson x = marshal_gift_accepted g"
    and "reprints cast (oe_PayloadJson x)" and "oe_EventID x \<noteq> 0"
  shows "has_gift_points (oe_EventID x) g d"
proof -
  let ?log = "map (sent cast) xs"
  have x: "x \<in> set xs" using assms(4) by (rule in_set_takeD)
  have ev: "point_event_of sf (sent cast x) = Some (oe_EventID x, GiftEvent g)"
    by (rule sent_gift(1) [OF assms(5-8)])
  have "gifts_have_points coll sf ?log d0"
    using assms(3) by (auto simp: gifts_have_points_def dedupe_known_def list_ex_iff)
  then have inv: "gifts_have_points coll sf ?log d"
    by (rule points_ledger.consumed_inv [OF assms(1) numbered_sent [OF assms(2)]])
  have "sent cast x \<in> set (take c ?log)" using assms(4) by (simp add: take_map)
  then have "points_finished coll sf (sent cast x) d"
    using points_worker.committed_finished [OF assms(1)] by blast
  then have "dedupe_known pointsConsumer coll (oe_EventID x) d" by (simp add: points_finished_def ev)
  moreover have "sent cast x \<in> set ?log" using x by simp
  ultimately show ?thesis using inv ev unfolding gifts_have_points_def by blast
qed

theorem points_worker_loses_nothing_witness:
  "\<exists>d. consumed points_message (worker_env (\<lambda>s. s) (simple_fold demo_env)) (points_kept (\<lambda>s. s))
       (map (sent json_text) [gift_outbox_row 1]) seed_db 1 d \<and>
     has_gift_points 1 demo_accepted d"
proof -
  obtain d where d: "consumed points_message (worker_env (\<lambda>s. s) (simple_fold demo_env)) (points_kept (\<lambda>s. s))
      (map (sent json_text) [gift_outbox_row 1]) seed_db 1 d"
    using demo_consumed by blast
  have "has_gift_points 1 demo_accepted d"
    using points_worker_loses_nothing [OF d, of "gift_outbox_row 1" demo_accepted] demo_reprints [of 1] by simp
  with d show ?thesis by blast
qed

text \<open>
  C38. A gift of \<open>2 ^ 31\<close> coins or more stops the fan points of its partition for good: the
  projector returns an error for its message each time, so that the committed offset never
  passes it, whatever sessions follow.
\<close>

theorem large_gift_blocks_partition:
  assumes "consumed points_message (worker_env coll sf) (points_kept coll) log d0 c d"
    and "numbered sf log" and "p < length log" and "point_event_of sf (log ! p) = Some (eid, GiftEvent evt)"
    and "2 ^ 31 \<le> uint (lga_ChargedCoins evt)" and "\<not> dedupe_known pointsConsumer coll eid d0"
  shows "c \<le> p \<and> \<not> dedupe_known pointsConsumer coll eid d"
proof (rule consumed_stuck [OF assms(1,3)])
  show "\<not> dedupe_known pointsConsumer coll eid d' \<and> (m = log ! p \<longrightarrow> (\<exists>er. r = Inl er))"
    if "worker_env coll sf e" "m \<in> set log" "\<not> dedupe_known pointsConsumer coll eid d"
      "points_message e m d = (r, d')" for e m d r d'
    using large_gift_step [OF that(1) assms(2) _ that(2) assms(4,5) that(3,4)] assms(3) by simp
qed (use assms(6) in \<open>simp_all add: points_kept_def\<close>)

theorem large_gift_blocks_partition_witness:
  "consumed points_message (worker_env (\<lambda>s. s) ascii_fold) (points_kept (\<lambda>s. s))
     (map (sent json_text) [gift_outbox_row 3000000000, gift_outbox_row 3000000000]) seed_db 0 seed_db \<and>
   \<not> (\<exists>d. consumed points_message (worker_env (\<lambda>s. s) ascii_fold) (points_kept (\<lambda>s. s))
     (map (sent json_text) [gift_outbox_row 3000000000, gift_outbox_row 3000000000]) seed_db 1 d)"
proof -
  let ?log = "map (sent json_text) [gift_outbox_row 3000000000, gift_outbox_row 3000000000]"
  have "numbered ascii_fold ?log" by (rule numbered_sent) simp
  then show ?thesis
    using large_gift_blocks_partition [where p = 0 and log = ?log and sf = ascii_fold] demo_point_ready(2)
      demo_gift_message [of ascii_fold 3000000000] consumed.start
    by fastforce
qed

section \<open>The HTTP API\<close>

text \<open>
  C39. The contributors endpoint, whichever way it reads: as long as Redis, when there is a client,
  has seen the accepted gifts, \<open>GET /v1/lives/{id}/contributors\<close> is answered 200 with viewers of
  the session by falling totals of their accepted orders, at most as many as the limit allows, and
  nobody who is left out has more than somebody listed. A failing Redis makes no difference.
\<close>

theorem contributors_endpoint:
  assumes "calm (ae_env a)" and "in_i64 (gross_spend sid d)" and "redis_current a d"
    and "hr_Method r = ''GET''" and "hr_Path r = ''/v1/lives/'' @ FormatUint sid @ ''/contributors''"
  shows "\<exists>ps. is_top go_ViewerID (\<lambda>g. uint (go_ChargedCoins g)) (nat (parseLimit (hr_limit r)))
        (session_orders sid d) ps \<and>
      handleLivesPrefix a r d = (WriteJSON 200 (JObj
        [(''contributors'', JArr (map (\<lambda>p. ContributorSummary_json \<lparr>cs_ViewerID = fst p, cs_Coins = snd p\<rparr>) ps)),
         (''live_session_id'', json_word sid)]), d)"
  using contributors_are_top [OF assms(1-3), of "parseLimit (hr_limit r)"] parseLimit_range [of "hr_limit r"]
    contributors_path [OF assms(5)] assms(4)
  by (fastforce simp: handleLivesPrefix_def Let_def comp_def)

theorem contributors_endpoint_witness:
  "\<exists>ps. is_top go_ViewerID (\<lambda>g. uint (go_ChargedCoins g)) (nat (parseLimit ''20''))
       (session_orders 9001 after_gift) ps \<and>
     handleLivesPrefix (demo_api (Some demo_board)) demo_get after_gift = (WriteJSON 200 (JObj
       [(''contributors'', JArr (map (\<lambda>p. ContributorSummary_json \<lparr>cs_ViewerID = fst p, cs_Coins = snd p\<rparr>) ps)),
        (''live_session_id'', json_word (9001 :: u64))]), after_gift)"
  using contributors_endpoint [OF _ demo_gross demo_board_current, of demo_get]
  by (simp add: demo_api_def demo_get_def FormatUint_9001)

text \<open>
  C25. Only \<open>POST\<close> requests write: whatever route a request takes and whatever calls fail, a
  request with another method that is answered leaves every table as it was.
\<close>

theorem api_reads_change_nothing:
  assumes "quiet (ae_env a)" and "hr_Method r \<noteq> ''POST''" and "ServeHTTP a r (s, d) = Some (w, s', d')"
  shows "d' = d"
  by (rule ServeHTTP_reads [OF assms])

theorem api_reads_change_nothing_witness:
  "\<exists>w s'. ServeHTTP (demo_api None) demo_get (New_server, after_gift) = Some (w, s', after_gift)"
proof -
  obtain w s' d' where "ServeHTTP (demo_api None) demo_get (New_server, after_gift) = Some (w, s', d')"
    using demo_get_served by blast
  with api_reads_change_nothing [OF _ _ this] show ?thesis by (auto simp: demo_api_def demo_get_def)
qed

section \<open>The generated queries\<close>



end
